(* ===== verification/Prelude.thy ===== *)
theory Prelude
  imports Main "HOL-Library.Char_ord" "HOL-Library.List_Lexorder" "HOL-Library.Product_Lexorder"
begin

text \<open>
  The library every component theory builds on: the exceptions of the C++ standard library
  that the code can meet, a state-and-exception result for operations that change an object
  before they throw, the rules for invariants over such operations, the integer casts of the
  code, and checked access to a \<open>std::vector\<close>.
\<close>

named_theorems prog_simps \<open>evaluation of programs with state and exceptions\<close>
named_theorems inv_intros \<open>introduction rules for invariants of programs\<close>

abbreviation strictly_sorted :: "'a::linorder list \<Rightarrow> bool" where
  "strictly_sorted \<equiv> sorted_wrt (<)"

section \<open>Exceptions of the standard library\<close>

datatype std_exn =
    Invalid_argument string
  | Out_of_range string
  | Runtime_error string
  | Length_error string
  | Bad_cast
  | Undefined_behaviour string

text \<open>
  \<open>Undefined_behaviour\<close> is the outcome of a call the C++ standard leaves undefined, such as
  \<open>front()\<close> of an empty container. It is a branch of the model like any other, so that a
  theorem can say that the code never takes it.
\<close>

definition vec_at :: "'a list \<Rightarrow> nat \<Rightarrow> std_exn + 'a" where
  \<comment> \<open>\<open>std::vector::at\<close>\<close>
  "vec_at xs i = (if i < length xs then Inr (xs ! i) else Inl (Out_of_range ''vector::at''))"

definition front_of :: "'a list \<Rightarrow> std_exn + 'a" where
  \<comment> \<open>\<open>front()\<close> of a deque\<close>
  "front_of xs = (case xs of [] \<Rightarrow> Inl (Undefined_behaviour ''front of empty'') | x # _ \<Rightarrow> Inr x)"

definition back_of :: "'a list \<Rightarrow> std_exn + 'a" where
  \<comment> \<open>\<open>back()\<close> of a vector or a deque\<close>
  "back_of xs = (if xs = [] then Inl (Undefined_behaviour ''back of empty'') else Inr (last xs))"

lemma vec_at_Inr [simp]: "i < length xs \<Longrightarrow> vec_at xs i = Inr (xs ! i)"
  by (simp add: vec_at_def)

lemma vec_at_Inl [simp]: "\<not> i < length xs \<Longrightarrow> vec_at xs i = Inl (Out_of_range ''vector::at'')"
  by (simp add: vec_at_def)

lemma front_of_simps [simp]:
  "front_of [] = Inl (Undefined_behaviour ''front of empty'')"
  "front_of (x # xs) = Inr x"
  by (simp_all add: front_of_def)

lemma back_of_simps [simp]:
  "back_of [] = Inl (Undefined_behaviour ''back of empty'')"
  "xs \<noteq> [] \<Longrightarrow> back_of xs = Inr (last xs)"
  by (simp_all add: back_of_def)

section \<open>Programs with state and exceptions\<close>

text \<open>
  A member function that mutates its object takes the object and returns the result or the
  exception together with the object as it is when control leaves the function: a throw does
  not undo the assignments made before it.
\<close>

type_synonym ('s, 'e, 'a) prog = "'s \<Rightarrow> ('e + 'a) \<times> 's"

definition ret :: "'a \<Rightarrow> ('s, 'e, 'a) prog" where
  "ret x = (\<lambda>s. (Inr x, s))"

definition throw :: "'e \<Rightarrow> ('s, 'e, 'a) prog" where
  "throw e = (\<lambda>s. (Inl e, s))"

definition seqM :: "('s, 'e, 'a) prog \<Rightarrow> ('a \<Rightarrow> ('s, 'e, 'b) prog) \<Rightarrow> ('s, 'e, 'b) prog" where
  "seqM m k = (\<lambda>s. case m s of (Inl e, s') \<Rightarrow> (Inl e, s') | (Inr x, s') \<Rightarrow> k x s')"

definition getM :: "('s \<Rightarrow> 'a) \<Rightarrow> ('s, 'e, 'a) prog" where
  "getM f = (\<lambda>s. (Inr (f s), s))"

definition modM :: "('s \<Rightarrow> 's) \<Rightarrow> ('s, 'e, unit) prog" where
  "modM f = (\<lambda>s. (Inr (), f s))"

definition catchM :: "('s, 'e, 'a) prog \<Rightarrow> ('e \<Rightarrow> ('s, 'e, 'a) prog) \<Rightarrow> ('s, 'e, 'a) prog" where
  "catchM m h = (\<lambda>s. case m s of (Inl e, s') \<Rightarrow> h e s' | (Inr x, s') \<Rightarrow> (Inr x, s'))"

definition liftE :: "'e + 'a \<Rightarrow> ('s, 'e, 'a) prog" where
  "liftE r = (\<lambda>s. (r, s))"

lemma liftE_apply [prog_simps, simp]: "liftE r s = (r, s)"
  by (simp add: liftE_def)

lemma ret_apply [prog_simps, simp]: "ret x s = (Inr x, s)"
  by (simp add: ret_def)

lemma throw_apply [prog_simps, simp]: "throw e s = (Inl e, s)"
  by (simp add: throw_def)

lemma getM_apply [prog_simps, simp]: "getM f s = (Inr (f s), s)"
  by (simp add: getM_def)

lemma modM_apply [prog_simps, simp]: "modM f s = (Inr (), f s)"
  by (simp add: modM_def)

lemma seqM_Inl [prog_simps, simp]: "m s = (Inl e, s') \<Longrightarrow> seqM m k s = (Inl e, s')"
  by (simp add: seqM_def)

lemma seqM_Inr [prog_simps, simp]: "m s = (Inr x, s') \<Longrightarrow> seqM m k s = k x s'"
  by (simp add: seqM_def)

lemma catchM_Inl [prog_simps, simp]: "m s = (Inl e, s') \<Longrightarrow> catchM m h s = h e s'"
  by (simp add: catchM_def)

lemma catchM_Inr [prog_simps, simp]: "m s = (Inr x, s') \<Longrightarrow> catchM m h s = (Inr x, s')"
  by (simp add: catchM_def)

lemma seqM_liftE [simp]: "seqM (liftE (Inr x)) k = k x" "seqM (liftE (Inl e)) k = throw e"
  by (simp_all add: seqM_def fun_eq_iff)

lemma seqM_ret [simp]: "seqM (ret x) k = k x"
  by (simp add: seqM_def fun_eq_iff)

lemma seqM_split:
  "seqM m k s = (case m s of (Inl e, s') \<Rightarrow> (Inl e, s') | (Inr x, s') \<Rightarrow> k x s')"
  by (simp add: seqM_def)

lemma seqM_cases:
  assumes "seqM m k s = (r, s')"
  obtains (thrown) e where "m s = (Inl e, s')" "r = Inl e"
  | (next_step) x s1 where "m s = (Inr x, s1)" "k x s1 = (r, s')"
  using assms by (auto simp: seqM_def split: prod.splits sum.splits)

section \<open>Invariants of programs\<close>

text \<open>
  \<open>preserves I m\<close>: however \<open>m\<close> leaves, by a return or by a throw, the invariant still holds.
\<close>

definition preserves :: "('s \<Rightarrow> bool) \<Rightarrow> ('s, 'e, 'a) prog \<Rightarrow> bool" where
  "preserves I m \<longleftrightarrow> (\<forall>s. I s \<longrightarrow> I (snd (m s)))"

lemma preservesI: "(\<And>s. I s \<Longrightarrow> I (snd (m s))) \<Longrightarrow> preserves I m"
  by (simp add: preserves_def)

lemma preservesD: "preserves I m \<Longrightarrow> I s \<Longrightarrow> I (snd (m s))"
  by (simp add: preserves_def)

lemma preserves_ret [inv_intros]: "preserves I (ret x)"
  by (simp add: preserves_def)

lemma preserves_throw [inv_intros]: "preserves I (throw e)"
  by (simp add: preserves_def)

lemma preserves_liftE [inv_intros]: "preserves I (liftE r)"
  by (simp add: preserves_def)

lemma preserves_getM [inv_intros]: "preserves I (getM f)"
  by (simp add: preserves_def)

lemma preserves_seqM [inv_intros]:
  "preserves I m \<Longrightarrow> (\<And>x. preserves I (k x)) \<Longrightarrow> preserves I (seqM m k)"
  by (auto simp: preserves_def seqM_def split: prod.splits sum.splits)

lemma preserves_catchM [inv_intros]:
  "preserves I m \<Longrightarrow> (\<And>e. preserves I (h e)) \<Longrightarrow> preserves I (catchM m h)"
  by (auto simp: preserves_def catchM_def split: prod.splits sum.splits)

lemma preserves_if [inv_intros]:
  "(b \<Longrightarrow> preserves I m) \<Longrightarrow> (\<not> b \<Longrightarrow> preserves I m') \<Longrightarrow> preserves I (if b then m else m')"
  by simp

lemma preserves_option [inv_intros]:
  "preserves I m \<Longrightarrow> (\<And>x. preserves I (k x)) \<Longrightarrow> preserves I (case v of None \<Rightarrow> m | Some x \<Rightarrow> k x)"
  by (simp split: option.split)

lemma preserves_sum [inv_intros]:
  "(\<And>x. preserves I (f x)) \<Longrightarrow> (\<And>y. preserves I (g y)) \<Longrightarrow> preserves I (case r of Inl x \<Rightarrow> f x | Inr y \<Rightarrow> g y)"
  by (simp split: sum.split)

lemma preserves_modM: "(\<And>s. I s \<Longrightarrow> I (f s)) \<Longrightarrow> preserves I (modM f)"
  by (simp add: preserves_def)

section \<open>Pre- and postconditions\<close>

text \<open>
  \<open>triple P m Q E\<close>: started where \<open>P\<close> holds, \<open>m\<close> returns where \<open>Q\<close> holds of the result and the state,
  or throws where \<open>E\<close> holds of the exception and the state.
\<close>

named_theorems triple_rules \<open>rules for pre- and postconditions\<close>

definition triple ::
  "('s \<Rightarrow> bool) \<Rightarrow> ('s, 'e, 'a) prog \<Rightarrow> ('a \<Rightarrow> 's \<Rightarrow> bool) \<Rightarrow> ('e \<Rightarrow> 's \<Rightarrow> bool) \<Rightarrow> bool" where
  "triple P m Q E \<longleftrightarrow> (\<forall>s. P s \<longrightarrow> (case m s of (Inl e, s') \<Rightarrow> E e s' | (Inr x, s') \<Rightarrow> Q x s'))"

lemma tripleI:
  "(\<And>s. P s \<Longrightarrow> case m s of (Inl e, s') \<Rightarrow> E e s' | (Inr x, s') \<Rightarrow> Q x s') \<Longrightarrow> triple P m Q E"
  by (simp add: triple_def)

lemma triple_returns: "triple P m Q E \<Longrightarrow> P s \<Longrightarrow> m s = (Inr x, s') \<Longrightarrow> Q x s'"
  by (auto simp: triple_def dest!: spec [of _ s])

lemma triple_throws: "triple P m Q E \<Longrightarrow> P s \<Longrightarrow> m s = (Inl e, s') \<Longrightarrow> E e s'"
  by (auto simp: triple_def dest!: spec [of _ s])

lemma triple_ret [triple_rules]: "(\<And>s. P s \<Longrightarrow> Q x s) \<Longrightarrow> triple P (ret x) Q E"
  by (simp add: triple_def)

lemma triple_throw [triple_rules]: "(\<And>s. P s \<Longrightarrow> E e s) \<Longrightarrow> triple P (throw e) Q E"
  by (simp add: triple_def)

lemma triple_modM [triple_rules]: "(\<And>s. P s \<Longrightarrow> Q () (f s)) \<Longrightarrow> triple P (modM f) Q E"
  by (simp add: triple_def)

lemma triple_getM [triple_rules]: "(\<And>s. P s \<Longrightarrow> Q (f s) s) \<Longrightarrow> triple P (getM f) Q E"
  by (simp add: triple_def)

lemma triple_liftE:
  "(\<And>s e. P s \<Longrightarrow> r = Inl e \<Longrightarrow> E e s) \<Longrightarrow> (\<And>s x. P s \<Longrightarrow> r = Inr x \<Longrightarrow> Q x s) \<Longrightarrow> triple P (liftE r) Q E"
  by (auto simp: triple_def split: sum.split)

lemma triple_seqM:
  "triple P m R E \<Longrightarrow> (\<And>x. triple (R x) (k x) Q E) \<Longrightarrow> triple P (seqM m k) Q E"
  unfolding triple_def seqM_def by (fastforce split: prod.splits sum.splits)

lemma triple_if [triple_rules]:
  "(b \<Longrightarrow> triple P m Q E) \<Longrightarrow> (\<not> b \<Longrightarrow> triple P m' Q E) \<Longrightarrow> triple P (if b then m else m') Q E"
  by simp

lemma triple_conseq:
  "triple P' m Q' E' \<Longrightarrow> (\<And>s. P s \<Longrightarrow> P' s) \<Longrightarrow> (\<And>x s. Q' x s \<Longrightarrow> Q x s) \<Longrightarrow> (\<And>e s. E' e s \<Longrightarrow> E e s) \<Longrightarrow>
     triple P m Q E"
  unfolding triple_def by (fastforce split: prod.splits sum.splits)

text \<open>The rule for a step that keeps an invariant, whatever it returns.\<close>

abbreviation keeps :: "('s \<Rightarrow> bool) \<Rightarrow> ('e \<Rightarrow> bool) \<Rightarrow> ('s, 'e, 'a) prog \<Rightarrow> bool" where
  "keeps I E m \<equiv> triple I m (\<lambda>_. I) (\<lambda>e _. E e)"

lemma keeps_seqM [triple_rules]:
  "keeps I E m \<Longrightarrow> (\<And>x. keeps I E (k x)) \<Longrightarrow> keeps I E (seqM m k)"
  by (rule triple_seqM)

lemma keeps_liftE [triple_rules]: "(\<And>e. r = Inl e \<Longrightarrow> E e) \<Longrightarrow> keeps I E (liftE r)"
  by (rule triple_liftE)

section \<open>Loops with fuel\<close>

text \<open>
  The contract of a loop that the code ends by a \<open>break\<close>, a \<open>return\<close> or a condition on the clock or the
  library: the body answers \<open>Some\<close> result to stop and \<open>None\<close> to go on. \<open>out\<close> marks that the fuel is
  used up; it is not an outcome of the code.
\<close>

locale fuel_loop =
  fixes loop :: "nat \<Rightarrow> ('s, 'e, 'a) prog"
    and body :: "('s, 'e, 'a option) prog"
    and out :: 'e
  assumes loop_0: "loop 0 = throw out"
    and loop_Suc: "loop (Suc n) = seqM body (\<lambda>r. case r of Some x \<Rightarrow> ret x | None \<Rightarrow> loop n)"
begin

lemma loop_apply:
  "loop (Suc n) s = (case body s of
     (Inl e, s') \<Rightarrow> (Inl e, s') | (Inr (Some x), s') \<Rightarrow> (Inr x, s') | (Inr None, s') \<Rightarrow> loop n s')"
  by (auto simp: loop_Suc seqM_split split: prod.splits sum.splits option.splits)

lemma round_cases:
  obtains (threw) e s' where "body s = (Inl e, s')" "\<And>n. loop (Suc n) s = (Inl e, s')"
  | (stopped) x s' where "body s = (Inr (Some x), s')" "\<And>n. loop (Suc n) s = (Inr x, s')"
  | (again) s' where "body s = (Inr None, s')" "\<And>n. loop (Suc n) s = loop n s'"
proof -
  obtain r s' where body: "body s = (r, s')" by (cases "body s")
  consider e where "r = Inl e" | x where "r = Inr (Some x)" | "r = Inr None"
    by (cases r) auto
  then show ?thesis
    using that body by cases (simp_all add: loop_apply)
qed

text \<open>A run that stops is some rounds that go on and one that does not.\<close>

lemma last_round:
  assumes "loop n s = (Inr x, s')"
  shows "\<exists>k s1. loop k s = (Inl out, s1) \<and> body s1 = (Inr (Some x), s')"
  using assms
proof (induction n arbitrary: s)
  case (Suc n)
  show ?case
  proof (rule round_cases [of s])
    fix y s1 assume "body s = (Inr (Some y), s1)" and "\<And>n. loop (Suc n) s = (Inr y, s1)"
    then show ?thesis using Suc.prems by (intro exI [of _ 0]) (simp add: loop_0)
  next
    fix s1 assume go: "\<And>n. loop (Suc n) s = loop n s1"
    then have "loop n s1 = (Inr x, s')" using Suc.prems by simp
    from Suc.IH [OF this] show ?thesis using go by metis
  qed (use Suc.prems in simp)
qed (simp add: loop_0)

text \<open>A run that did not use up its fuel is the same with more.\<close>

lemma more_fuel: "fst (loop n s) \<noteq> Inl out \<Longrightarrow> n \<le> m \<Longrightarrow> loop m s = loop n s"
proof (induction n arbitrary: m s)
  case (Suc n)
  from Suc.prems(2) obtain k where k: "m = Suc k" "n \<le> k" by (cases m) auto
  show ?case
  proof (rule round_cases [of s])
    fix s' assume go: "\<And>n. loop (Suc n) s = loop n s'"
    then have "fst (loop n s') \<noteq> Inl out" using Suc.prems(1) by simp
    then have "loop k s' = loop n s'" using Suc.IH k(2) by blast
    then show ?thesis by (simp only: k(1) go)
  qed (simp_all only: k(1))
qed (simp add: loop_0)

text \<open>
  Enough fuel: a measure that every round that goes on decreases bounds the number of rounds.
\<close>

lemma enough_fuel:
  assumes again: "\<And>s s'. I s \<Longrightarrow> body s = (Inr None, s') \<Longrightarrow> I s' \<and> \<mu> s' < (\<mu> s :: nat)"
    and no_out: "\<And>s. I s \<Longrightarrow> fst (body s) \<noteq> Inl out"
    and "I s" "\<mu> s < n"
  shows "fst (loop n s) \<noteq> Inl out"
  using assms(3,4)
proof (induction n arbitrary: s)
  case (Suc n)
  show ?case
  proof (rule round_cases [of s])
    fix e s' assume "body s = (Inl e, s')" "\<And>n. loop (Suc n) s = (Inl e, s')"
    then show ?thesis using no_out [OF Suc.prems(1)] by simp
  next
    fix s' assume go: "body s = (Inr None, s')" "\<And>n. loop (Suc n) s = loop n s'"
    then have "I s'" "\<mu> s' < n" using again [OF Suc.prems(1) go(1)] Suc.prems(2) by auto
    then show ?thesis using Suc.IH go(2) by simp
  qed simp
qed simp

text \<open>An invariant of the rounds that go on holds when the fuel is used up.\<close>

lemma rounds_keep:
  assumes keep: "\<And>s s'. I s \<Longrightarrow> body s = (Inr None, s') \<Longrightarrow> I s'"
    and no_out: "\<And>s. fst (body s) \<noteq> Inl out"
  shows "I s \<Longrightarrow> loop n s = (Inl out, s') \<Longrightarrow> I s'"
proof (induction n arbitrary: s)
  case (Suc n)
  show ?case
  proof (rule round_cases [of s])
    fix e s1 assume "body s = (Inl e, s1)" "\<And>n. loop (Suc n) s = (Inl e, s1)"
    then show ?thesis using no_out [of s] Suc.prems by simp
  next
    fix x s1 assume "body s = (Inr (Some x), s1)" "\<And>n. loop (Suc n) s = (Inr x, s1)"
    then show ?thesis using Suc.prems by simp
  next
    fix s1 assume "body s = (Inr None, s1)" "\<And>n. loop (Suc n) s = loop n s1"
    then show ?thesis using Suc.IH [of s1] keep [OF Suc.prems(1)] Suc.prems(2) by simp
  qed
qed (simp add: loop_0)

text \<open>The fuel can be spent in two parts.\<close>

lemma fuel_split:
  assumes no_out: "\<And>s. fst (body s) \<noteq> Inl out"
  shows "loop n s = (Inl out, s') \<Longrightarrow> loop (n + m) s = loop m s'"
proof (induction n arbitrary: s)
  case (Suc n)
  show ?case
  proof (rule round_cases [of s])
    fix e s1 assume "body s = (Inl e, s1)" "\<And>n. loop (Suc n) s = (Inl e, s1)"
    then show ?thesis using no_out [of s] Suc.prems by simp
  next
    fix x s1 assume "body s = (Inr (Some x), s1)" "\<And>n. loop (Suc n) s = (Inr x, s1)"
    then show ?thesis using Suc.prems by simp
  next
    fix s1 assume "body s = (Inr None, s1)" "\<And>n. loop (Suc n) s = loop n s1"
    then show ?thesis using Suc.IH [of s1] Suc.prems by simp
  qed
qed (simp add: loop_0)

lemma loop_settles:
  assumes "fst (loop n s) \<noteq> Inl out"
  shows "\<exists>n. \<forall>fuel\<ge>n. fst (loop fuel s) \<noteq> Inl out \<and> loop fuel s = loop n s"
proof (intro exI allI impI)
  fix fuel assume "n \<le> fuel"
  from more_fuel [OF assms this] show "fst (loop fuel s) \<noteq> Inl out \<and> loop fuel s = loop n s"
    using assms by (simp only: simp_thms not_False_eq_True)
qed

text \<open>The invariant rule.\<close>

lemma loop_triple:
  assumes "triple I body (\<lambda>r s. case r of None \<Rightarrow> I s | Some x \<Rightarrow> Q x s) E"
  shows "triple I (loop n) Q (\<lambda>e s. e = out \<or> E e s)"
proof (induction n)
  case 0
  show ?case by (simp add: loop_0 triple_def)
next
  case (Suc n)
  show ?case
  proof (rule tripleI)
    fix s assume I: "I s"
    show "case loop (Suc n) s of (Inl e, s') \<Rightarrow> e = out \<or> E e s' | (Inr x, s') \<Rightarrow> Q x s'"
    proof (rule round_cases [of s])
      fix e s' assume "body s = (Inl e, s')" "\<And>n. loop (Suc n) s = (Inl e, s')"
      then show ?thesis using triple_throws [OF assms I] by simp
    next
      fix x s' assume "body s = (Inr (Some x), s')" "\<And>n. loop (Suc n) s = (Inr x, s')"
      then show ?thesis using triple_returns [OF assms I] by fastforce
    next
      fix s' assume go: "body s = (Inr None, s')" "\<And>n. loop (Suc n) s = loop n s'"
      then have "I s'" using triple_returns [OF assms I] by fastforce
      then show ?thesis using Suc go(2) by (simp add: triple_def)
    qed
  qed
qed

end

text \<open>
  A program that takes fuel settles in a state when, from some amount on, the fuel is not used up and
  the outcome no longer depends on it.
\<close>

definition settles :: "'e \<Rightarrow> (nat \<Rightarrow> ('s, 'e, 'a) prog) \<Rightarrow> 's \<Rightarrow> bool" where
  "settles out f s \<longleftrightarrow> (\<exists>n. \<forall>fuel\<ge>n. fst (f fuel s) \<noteq> Inl out \<and> f fuel s = f n s)"

lemma settles_const: "fst (m s) \<noteq> Inl out \<Longrightarrow> settles out (\<lambda>_. m) s"
  by (simp add: settles_def)

lemma settles_seqM:
  assumes "settles out m s" "\<And>x s'. settles out (k x) s'"
  shows "settles out (\<lambda>n. seqM (m n) (\<lambda>x. k x n)) s"
proof -
  obtain a where a: "\<And>n. a \<le> n \<Longrightarrow> fst (m n s) \<noteq> Inl out \<and> m n s = m a s"
    using assms(1) unfolding settles_def by blast
  obtain r s' where r: "m a s = (r, s')" by (cases "m a s")
  have m: "m n s = (r, s')" if "a \<le> n" for n using a [OF that] r by metis
  show ?thesis
  proof (cases r)
    case (Inl e)
    have "e \<noteq> out" using a [OF order_refl] r Inl by auto
    then show ?thesis
      unfolding settles_def seqM_split by (intro exI [of _ a]) (simp add: m Inl)
  next
    case (Inr x)
    obtain b where b: "\<And>n. b \<le> n \<Longrightarrow> fst (k x n s') \<noteq> Inl out \<and> k x n s' = k x b s'"
      using assms(2) unfolding settles_def by blast
    have run: "seqM (m n) (\<lambda>x. k x n) s = k x n s'" if "max a b \<le> n" for n
      using m [of n] that by (simp add: seqM_split Inr)
    have "fst (k x n s') \<noteq> Inl out \<and> k x n s' = k x (max a b) s'" if "max a b \<le> n" for n
      using b [of n] b [of "max a b"] that by (metis max.bounded_iff max.cobounded2)
    then show ?thesis
      unfolding settles_def using run by (metis order_refl)
  qed
qed

lemma settles_if:
  "(b \<Longrightarrow> settles out f s) \<Longrightarrow> (\<not> b \<Longrightarrow> settles out g s) \<Longrightarrow> settles out (\<lambda>n. if b then f n else g n) s"
  by (cases b) simp_all

lemma settles_option:
  "settles out f s \<Longrightarrow> (\<And>x. settles out (g x) s) \<Longrightarrow>
     settles out (\<lambda>n. case v of None \<Rightarrow> f n | Some x \<Rightarrow> g x n) s"
  by (cases v) simp_all

lemma settles_sum:
  "(\<And>x. settles out (f x) s) \<Longrightarrow> (\<And>x. settles out (g x) s) \<Longrightarrow>
     settles out (\<lambda>n. case v of Inl x \<Rightarrow> f x n | Inr x \<Rightarrow> g x n) s"
  by (cases v) simp_all

lemma settles_returns:
  assumes settles: "settles out f s" and throws: "\<And>fuel e. fst (f fuel s) = Inl e \<Longrightarrow> e = out"
  shows "\<exists>n r s'. \<forall>fuel\<ge>n. f fuel s = (Inr r, s')"
proof -
  obtain n where n: "\<And>fuel. n \<le> fuel \<Longrightarrow> fst (f fuel s) \<noteq> Inl out \<and> f fuel s = f n s"
    using settles unfolding settles_def by blast
  obtain r where "fst (f n s) = Inr r" using n [of n] throws [of n] by (cases "fst (f n s)") auto
  then have "f n s = (Inr r, snd (f n s))" by (metis prod.collapse)
  then show ?thesis using n by metis
qed

lemma settles_cong: "(\<And>n. f n s = g n s) \<Longrightarrow> settles out g s \<Longrightarrow> settles out f s"
  by (simp add: settles_def)

section \<open>Integer casts\<close>

text \<open>
  The code's signed integers are modelled as \<open>int\<close> values; a conversion to a narrower type is
  the two's complement reduction of C++20, written out.
\<close>

definition to_int32 :: "int \<Rightarrow> int" where
  "to_int32 x = (x + 2 ^ 31) mod 2 ^ 32 - 2 ^ 31"

definition to_int64 :: "int \<Rightarrow> int" where
  "to_int64 x = (x + 2 ^ 63) mod 2 ^ 64 - 2 ^ 63"

definition INT_MAX :: int where
  "INT_MAX = 2 ^ 31 - 1"

definition INT64_MAX :: int where
  "INT64_MAX = 2 ^ 63 - 1"

lemma to_int32_id: "- (2 ^ 31) \<le> x \<Longrightarrow> x < 2 ^ 31 \<Longrightarrow> to_int32 x = x"
  by (simp add: to_int32_def)

lemma to_int64_id: "- (2 ^ 63) \<le> x \<Longrightarrow> x < 2 ^ 63 \<Longrightarrow> to_int64 x = x"
  by (simp add: to_int64_def)

lemma to_int32_range: "- (2 ^ 31) \<le> to_int32 x \<and> to_int32 x < 2 ^ 31"
proof -
  have "0 \<le> (x + 2 ^ 31) mod 2 ^ 32" "(x + 2 ^ 31) mod 2 ^ 32 < (2 ^ 32 :: int)"
    by simp_all
  then show ?thesis by (simp add: to_int32_def)
qed

end
