(* ===== verification/Min_Heap.thy ===== *)
theory Min_Heap
  imports Prelude "HOL-Library.Multiset"
begin

text \<open>
  The template \<open>Heap<T>\<close> of \<open>addons/UnorderedOffsetCommitQueue.h\<close>: a binary min-heap stored in
  a vector. Every \<open>data.at(i)\<close> is a checked access whose exception is a result of the model;
  the lemmas show that \<open>push\<close> never throws, that \<open>pop_front\<close> throws on an empty heap only,
  and that the vector refines a multiset with access to its minimum. The locale \<open>min_queue\<close>
  is the contract of the class; \<open>UnorderedOffsetCommitQueue\<close> is its client.
\<close>

section \<open>The operations\<close>

definition swap_at :: "'a list \<Rightarrow> nat \<Rightarrow> nat \<Rightarrow> 'a list" where
  "swap_at xs i j = xs[i := xs ! j, j := xs ! i]"

definition parent_index :: "nat \<Rightarrow> nat" where
  "parent_index i = (i + 1) div 2 - 1"

lemma parent_index_less [simp]: "0 < i \<Longrightarrow> parent_index i < i"
  by (auto simp: parent_index_def)

lemma parent_index_0 [simp]: "parent_index 0 = 0"
  by (simp add: parent_index_def)

lemma length_swap_at [simp]: "length (swap_at xs i j) = length xs"
  by (simp add: swap_at_def)

function sift_up :: "nat \<Rightarrow> 'a::linorder list \<Rightarrow> std_exn + 'a list" where
  "sift_up indexCurrent data =
     (if 0 < indexCurrent then
        (let indexParent = parent_index indexCurrent in
         case vec_at data indexCurrent of
           Inl e \<Rightarrow> Inl e
         | Inr current \<Rightarrow>
             (case vec_at data indexParent of
                Inl e \<Rightarrow> Inl e
              | Inr parent \<Rightarrow>
                  if \<not> (current < parent) then Inr data
                  else sift_up indexParent (swap_at data indexCurrent indexParent)))
      else Inr data)"
  by pat_completeness auto
termination
  by (relation "measure fst") auto

definition heap_push :: "'a::linorder \<Rightarrow> 'a list \<Rightarrow> std_exn + 'a list" where
  "heap_push t data = sift_up (length (data @ [t]) - 1) (data @ [t])"

definition heap_front :: "'a list \<Rightarrow> std_exn + 'a" where
  "heap_front data = vec_at data 0"

definition min_child :: "nat \<Rightarrow> 'a::linorder list \<Rightarrow> std_exn + nat" where
  "min_child indexCurrent data =
     (let indexRightChild = (indexCurrent + 1) * 2; indexLeftChild = indexRightChild - 1 in
      if length data \<le> indexRightChild then Inr indexLeftChild
      else (case vec_at data indexLeftChild of
              Inl e \<Rightarrow> Inl e
            | Inr l \<Rightarrow> (case vec_at data indexRightChild of
                  Inl e \<Rightarrow> Inl e
                | Inr r \<Rightarrow> Inr (if l < r then indexLeftChild else indexRightChild))))"

lemma min_child_Inr:
  "min_child i data = Inr c \<Longrightarrow>
     (c = 2 * i + 1 \<or> c = 2 * i + 2 \<and> 2 * i + 2 < length data)"
  by (auto simp: min_child_def Let_def vec_at_def split: if_splits)

function sift_down :: "nat \<Rightarrow> 'a::linorder list \<Rightarrow> std_exn + 'a list" where
  "sift_down indexCurrent data =
     (if length data \<le> (indexCurrent + 1) * 2 - 1 then Inr data
      else (case min_child indexCurrent data of
              Inl e \<Rightarrow> Inl e
            | Inr indexMinChild \<Rightarrow>
                (case vec_at data indexMinChild of
                   Inl e \<Rightarrow> Inl e
                 | Inr child \<Rightarrow>
                     (case vec_at data indexCurrent of
                        Inl e \<Rightarrow> Inl e
                      | Inr current \<Rightarrow>
                          if \<not> (child < current) then Inr data
                          else sift_down indexMinChild (swap_at data indexCurrent indexMinChild)))))"
  by pat_completeness auto
termination
  by (relation "measure (\<lambda>(i, data). length data - i)") (auto dest!: min_child_Inr)

definition heap_pop_front :: "'a::linorder list \<Rightarrow> std_exn + 'a list" where
  "heap_pop_front data =
     (case back_of data of
        Inl e \<Rightarrow> Inl e
      | Inr b \<Rightarrow>
          (case vec_at data 0 of
             Inl e \<Rightarrow> Inl e
           | Inr _ \<Rightarrow>
               (let data' = butlast (data[0 := b])
                in if data' = [] then Inr data' else sift_down 0 data')))"

declare sift_up.simps [simp del] sift_down.simps [simp del]

section \<open>The heap order\<close>

definition heap_ok :: "'a::linorder list \<Rightarrow> bool" where
  "heap_ok xs \<longleftrightarrow> (\<forall>i<length xs. 0 < i \<longrightarrow> xs ! parent_index i \<le> xs ! i)"

text \<open>While an element moves, the order holds everywhere but at its index.\<close>

definition heap_but_up :: "nat \<Rightarrow> 'a::linorder list \<Rightarrow> bool" where
  "heap_but_up k xs \<longleftrightarrow>
     (\<forall>i<length xs. 0 < i \<longrightarrow>
        (i \<noteq> k \<longrightarrow> xs ! parent_index i \<le> xs ! i) \<and>
        (parent_index i = k \<longrightarrow> 0 < k \<longrightarrow> xs ! parent_index k \<le> xs ! i))"

definition heap_but_down :: "nat \<Rightarrow> 'a::linorder list \<Rightarrow> bool" where
  "heap_but_down k xs \<longleftrightarrow>
     (\<forall>i<length xs. 0 < i \<longrightarrow>
        (parent_index i \<noteq> k \<longrightarrow> xs ! parent_index i \<le> xs ! i) \<and>
        (parent_index i = k \<longrightarrow> 0 < k \<longrightarrow> xs ! parent_index k \<le> xs ! i))"

lemma mset_swap_at [simp]:
  "i < length xs \<Longrightarrow> j < length xs \<Longrightarrow> mset (swap_at xs i j) = mset xs"
  unfolding swap_at_def by (rule mset_swap)

lemma nth_swap_at:
  "i < length xs \<Longrightarrow> j < length xs \<Longrightarrow> n < length xs \<Longrightarrow>
     swap_at xs i j ! n = (if n = j then xs ! i else if n = i then xs ! j else xs ! n)"
  by (auto simp: swap_at_def nth_list_update)

lemma heap_first_le:
  assumes "heap_ok xs" "i < length xs"
  shows "xs ! 0 \<le> xs ! i"
  using assms(2)
proof (induction i rule: less_induct)
  case (less i)
  show ?case
  proof (cases "i = 0")
    case False
    then have "parent_index i < i" by simp
    with less have "xs ! 0 \<le> xs ! parent_index i" by auto
    also have "\<dots> \<le> xs ! i" using assms(1) less.prems False by (auto simp: heap_ok_def)
    finally show ?thesis .
  qed simp
qed

lemma heap_but_up_step:
  assumes "heap_but_up k xs" "k < length xs" "0 < k" "xs ! k < xs ! parent_index k"
  shows "heap_but_up (parent_index k) (swap_at xs k (parent_index k))"
proof -
  let ?p = "parent_index k"
  let ?ys = "swap_at xs k ?p"
  have p: "?p < k" "?p < length xs"
    using assms(2,3) parent_index_less [OF assms(3)] by linarith+
  have nth: "?ys ! n = (if n = ?p then xs ! k else if n = k then xs ! ?p else xs ! n)"
    if "n < length xs" for n
    using nth_swap_at [of k xs ?p n] assms(2) p that by simp
  show ?thesis
    unfolding heap_but_up_def
  proof (intro allI impI conjI)
    fix i assume i: "i < length ?ys" "0 < i"
    have pi: "parent_index i < length xs" "parent_index i \<noteq> i"
      using i parent_index_less [OF i(2)] by auto
    { assume "i \<noteq> ?p"
      then show "?ys ! parent_index i \<le> ?ys ! i"
        using assms i pi p by (auto simp: nth heap_but_up_def) }
    { assume "parent_index i = ?p" "0 < ?p"
      moreover have "xs ! parent_index ?p \<le> xs ! ?p"
        using assms(1) p \<open>0 < ?p\<close> by (auto simp: heap_but_up_def)
      moreover have "xs ! ?p \<le> xs ! i" if "i \<noteq> k"
        using assms(1) i \<open>parent_index i = ?p\<close> that by (auto simp: heap_but_up_def)
      ultimately show "?ys ! parent_index ?p \<le> ?ys ! i"
        using i p pi parent_index_less [OF \<open>0 < ?p\<close>] by (auto simp: nth) }
  qed
qed

lemma heap_but_up_done:
  "heap_but_up k xs \<Longrightarrow> \<not> (0 < k \<and> xs ! k < xs ! parent_index k) \<Longrightarrow> heap_ok xs"
  by (auto simp: heap_but_up_def heap_ok_def)

lemma sift_up_correct:
  assumes "heap_but_up k xs" "k < length xs"
  shows "\<exists>ys. sift_up k xs = Inr ys \<and> heap_ok ys \<and> mset ys = mset xs"
  using assms
proof (induction k xs rule: sift_up.induct)
  case (1 k xs)
  show ?case
  proof (cases "0 < k \<and> xs ! k < xs ! parent_index k")
    case True
    then have p: "parent_index k < length xs"
      using 1(3) parent_index_less [of k] by linarith
    let ?ys = "swap_at xs k (parent_index k)"
    have "\<exists>zs. sift_up (parent_index k) ?ys = Inr zs \<and> heap_ok zs \<and> mset zs = mset ?ys"
      using True 1(2,3) p heap_but_up_step [of k xs]
      by (intro 1(1)) auto
    with True 1(3) p show ?thesis
      by (auto simp: sift_up.simps [of k xs] Let_def)
  next
    case False
    then have "heap_ok xs" using heap_but_up_done [OF 1(2)] by blast
    moreover have "parent_index k < length xs"
      using 1(3) by (cases "k = 0") (auto intro: less_trans [OF parent_index_less])
    ultimately show ?thesis using False 1(3)
      by (auto simp: sift_up.simps [of k xs] Let_def)
  qed
qed

lemma heap_push_correct:
  assumes "heap_ok xs"
  shows "\<exists>ys. heap_push x xs = Inr ys \<and> heap_ok ys \<and> mset ys = add_mset x (mset xs)"
proof -
  have "heap_but_up (length xs) (xs @ [x])"
    unfolding heap_but_up_def
  proof (intro allI impI conjI)
    fix i assume i: "i < length (xs @ [x])" "0 < i"
    have "parent_index i < i" using i(2) by simp
    then show "i \<noteq> length xs \<Longrightarrow> (xs @ [x]) ! parent_index i \<le> (xs @ [x]) ! i"
      using assms i less_trans [of "parent_index i" i "length xs"]
      by (auto simp: heap_ok_def nth_append)
    show "parent_index i = length xs \<Longrightarrow> (xs @ [x]) ! parent_index (length xs) \<le> (xs @ [x]) ! i"
      using \<open>parent_index i < i\<close> i(1) by simp
  qed
  from sift_up_correct [OF this] show ?thesis by (auto simp: heap_push_def)
qed

lemma heap_but_down_step:
  assumes "heap_but_down k xs" "c < length xs" "0 < c" "parent_index c = k" "xs ! c < xs ! k"
    and least: "\<And>i. i < length xs \<Longrightarrow> 0 < i \<Longrightarrow> parent_index i = k \<Longrightarrow> xs ! c \<le> xs ! i"
  shows "heap_but_down c (swap_at xs k c)"
proof -
  let ?ys = "swap_at xs k c"
  have k: "k < c" "k < length xs"
    using assms(2,3,4) parent_index_less [of c] by auto
  have nth: "?ys ! n = (if n = c then xs ! k else if n = k then xs ! c else xs ! n)"
    if "n < length xs" for n
    using nth_swap_at [of k xs c n] assms(2) k that by simp
  have pc: "xs ! parent_index k \<le> xs ! c" if "0 < k"
    using assms(1-4) that by (auto simp: heap_but_down_def)
  show ?thesis
    unfolding heap_but_down_def
  proof (intro allI impI conjI)
    fix i assume i: "i < length ?ys" "0 < i"
    have pi: "parent_index i < length xs" "parent_index i \<noteq> i"
      using i parent_index_less [OF i(2)] by auto
    { assume "parent_index i \<noteq> c"
      then show "?ys ! parent_index i \<le> ?ys ! i"
        using assms(1,3,4,5) i pi k least [of i] pc by (auto simp: nth heap_but_down_def) }
    { assume "parent_index i = c" "0 < c"
      then have "xs ! c \<le> xs ! i" "i \<noteq> k" "i \<noteq> c"
        using assms(1,4) i pi k parent_index_less [OF i(2)] by (auto simp: heap_but_down_def)
      then show "?ys ! parent_index c \<le> ?ys ! i"
        using i k assms(4) by (simp add: nth) }
  qed
qed

lemma children_of:
  "0 < i \<Longrightarrow> parent_index i = k \<longleftrightarrow> (i = 2 * k + 1 \<or> i = 2 * k + 2)"
  unfolding parent_index_def by presburger

lemma min_child_total:
  assumes "\<not> length xs \<le> (k + 1) * 2 - 1"
  obtains c where "min_child k xs = Inr c" "c < length xs" "0 < c" "parent_index c = k"
    "\<forall>i<length xs. 0 < i \<longrightarrow> parent_index i = k \<longrightarrow> xs ! c \<le> xs ! i"
proof (cases "2 * k + 2 < length xs")
  case False
  then have "min_child k xs = Inr (2 * k + 1)" by (simp add: min_child_def Let_def)
  moreover have "xs ! (2 * k + 1) \<le> xs ! i"
    if "i < length xs" "0 < i" "parent_index i = k" for i
    using that False by (auto simp: children_of)
  ultimately show ?thesis
    using that [of "2 * k + 1"] assms by (auto simp: children_of)
next
  case True
  define c where "c = (if xs ! (2 * k + 1) < xs ! (2 * k + 2) then 2 * k + 1 else 2 * k + 2)"
  have "min_child k xs = Inr c"
    using True by (simp add: min_child_def Let_def c_def mult.commute)
  moreover have "xs ! c \<le> xs ! i"
    if "i < length xs" "0 < i" "parent_index i = k" for i
    using that by (auto simp: children_of c_def)
  ultimately show ?thesis
    using that [of c] True by (auto simp: children_of c_def)
qed

lemma heap_but_down_done:
  assumes "heap_but_down k xs"
    and "\<And>i. i < length xs \<Longrightarrow> 0 < i \<Longrightarrow> parent_index i = k \<Longrightarrow> xs ! k \<le> xs ! i"
  shows "heap_ok xs"
  unfolding heap_ok_def
proof (intro allI impI)
  fix i assume i: "i < length xs" "0 < i"
  show "xs ! parent_index i \<le> xs ! i"
    using assms i by (cases "parent_index i = k") (auto simp: heap_but_down_def)
qed

lemma sift_down_correct:
  assumes "heap_but_down k xs" "k < length xs"
  shows "\<exists>ys. sift_down k xs = Inr ys \<and> heap_ok ys \<and> mset ys = mset xs"
  using assms
proof (induction k xs rule: sift_down.induct)
  case (1 k xs)
  show ?case
  proof (cases "length xs \<le> (k + 1) * 2 - 1")
    case True
    then have "heap_ok xs"
      by (intro heap_but_down_done [OF 1(2)]) (auto simp: children_of)
    with True show ?thesis by (simp add: sift_down.simps [of k xs])
  next
    case False
    then obtain c where c: "min_child k xs = Inr c" "c < length xs" "0 < c" "parent_index c = k"
      "\<forall>i<length xs. 0 < i \<longrightarrow> parent_index i = k \<longrightarrow> xs ! c \<le> xs ! i"
      by (rule min_child_total)
    show ?thesis
    proof (cases "xs ! c < xs ! k")
      case True
      have "\<exists>zs. sift_down c (swap_at xs k c) = Inr zs \<and> heap_ok zs \<and> mset zs = mset (swap_at xs k c)"
        using False True c 1(2,3) heap_but_down_step [of k xs c]
        by (intro 1(1)) auto
      with False True c 1(3) show ?thesis
        by (auto simp: sift_down.simps [of k xs])
    next
      case False': False
      have "heap_ok xs"
        using c(5) False' by (intro heap_but_down_done [OF 1(2)]) force
      with False False' c 1(3) show ?thesis
        by (simp add: sift_down.simps [of k xs])
    qed
  qed
qed

lemma heap_front_min:
  assumes "heap_ok xs" "xs \<noteq> []"
  shows "heap_front xs = Inr (Min_mset (mset xs))"
proof -
  have "Min_mset (mset xs) = xs ! 0"
    using assms heap_first_le [OF assms(1)]
    by (intro Min_eqI) (auto simp: in_set_conv_nth)
  with assms(2) show ?thesis by (simp add: heap_front_def)
qed

lemma heap_pop_front_correct:
  assumes "heap_ok xs" "xs \<noteq> []"
  shows "\<exists>ys. heap_pop_front xs = Inr ys \<and> heap_ok ys \<and> mset ys = mset xs - {#Min_mset (mset xs)#}"
proof -
  let ?zs = "butlast (xs[0 := last xs])"
  have min: "Min_mset (mset xs) = xs ! 0"
    using heap_front_min [OF assms] assms(2) by (simp add: heap_front_def)
  have zs: "mset ?zs = mset xs - {#xs ! 0#}"
  proof (cases "length xs = 1")
    case True
    then show ?thesis by (cases xs) auto
  next
    case False
    with assms(2) obtain x ys y where xs: "xs = x # ys @ [y]"
      by (metis append_butlast_last_id length_Cons list.size(3) neq_Nil_conv One_nat_def)
    then show ?thesis by (simp add: butlast_append)
  qed
  show ?thesis
  proof (cases "?zs = []")
    case True
    with assms(2) min zs show ?thesis
      by (auto simp: heap_pop_front_def heap_ok_def Let_def)
  next
    case False
    have nth: "?zs ! i = (if i = 0 then last xs else xs ! i)" if "i < length ?zs" for i
      using that assms(2) by (auto simp: nth_butlast nth_list_update)
    have "heap_but_down 0 ?zs"
      unfolding heap_but_down_def
    proof (intro allI impI conjI)
      fix i assume i: "i < length ?zs" "0 < i"
      have "parent_index i < i" using i(2) by simp
      then have "parent_index i < length ?zs" using i(1) by (rule less_trans)
      then show "parent_index i \<noteq> 0 \<Longrightarrow> ?zs ! parent_index i \<le> ?zs ! i"
        using i assms(1) nth [of i] nth [of "parent_index i"] by (auto simp: heap_ok_def)
    qed simp
    then obtain ys where "sift_down 0 ?zs = Inr ys" "heap_ok ys" "mset ys = mset ?zs"
      using sift_down_correct [of 0 ?zs] False by blast
    with assms(2) False min zs show ?thesis
      by (auto simp: heap_pop_front_def Let_def)
  qed
qed

section \<open>Termination bounds and exceptions\<close>

lemma length_sift_down: "sift_down k xs = Inr ys \<Longrightarrow> length ys = length xs"
proof (induction k xs rule: sift_down.induct)
  case (1 k xs)
  show ?case
  proof (cases "length xs \<le> (k + 1) * 2 - 1")
    case True
    with 1(2) show ?thesis by (simp add: sift_down.simps [of k xs])
  next
    case False
    then obtain c where c: "min_child k xs = Inr c" "c < length xs" "0 < c" "parent_index c = k"
      by (rule min_child_total)
    show ?thesis
    proof (cases "xs ! c < xs ! k")
      case True
      have "length ys = length (swap_at xs k c)"
        using False True c 1(2) by (intro 1(1)) (auto simp: sift_down.simps [of k xs])
      then show ?thesis by simp
    next
      case False': False
      with False c 1(2) show ?thesis by (simp add: sift_down.simps [of k xs])
    qed
  qed
qed

lemma length_heap_pop_front: "heap_pop_front xs = Inr ys \<Longrightarrow> length ys < length xs"
  by (cases "xs = []")
     (auto simp: heap_pop_front_def Let_def split: if_splits dest!: length_sift_down)

section \<open>The contract\<close>

locale min_queue =
  fixes no_elems :: 'q
    and front :: "'q \<Rightarrow> std_exn + 'a::linorder"
    and push :: "'a \<Rightarrow> 'q \<Rightarrow> std_exn + 'q"
    and pop :: "'q \<Rightarrow> std_exn + 'q"
    and ok :: "'q \<Rightarrow> bool"
    and elems :: "'q \<Rightarrow> 'a multiset"
  assumes elems_empty: "elems q = {#} \<longleftrightarrow> q = no_elems"
    and ok_empty: "ok no_elems"
    and front_min: "ok q \<Longrightarrow> q \<noteq> no_elems \<Longrightarrow> front q = Inr (Min_mset (elems q))"
    and push_spec: "ok q \<Longrightarrow> \<exists>q'. push x q = Inr q' \<and> ok q' \<and> elems q' = add_mset x (elems q)"
    and pop_spec: "ok q \<Longrightarrow> q \<noteq> no_elems \<Longrightarrow>
      \<exists>q'. pop q = Inr q' \<and> ok q' \<and> elems q' = elems q - {#Min_mset (elems q)#}"
begin

lemma min_in: "q \<noteq> no_elems \<Longrightarrow> Min_mset (elems q) \<in># elems q"
  using elems_empty [of q] Min_in [of "set_mset (elems q)"] by simp

lemma pop_push_least:
  assumes "ok q" "\<And>y. y \<in># elems q \<Longrightarrow> x \<le> y"
  obtains q' q'' where "push x q = Inr q'" "front q' = Inr x" "pop q' = Inr q''"
    "elems q'' = elems q" "ok q''"
proof -
  obtain q' where q': "push x q = Inr q'" "ok q'" "elems q' = add_mset x (elems q)"
    using push_spec [OF assms(1)] by blast
  then have ne: "q' \<noteq> no_elems" using elems_empty [of q'] by auto
  have m: "Min_mset (elems q') = x"
    using assms(2) q'(3) by (intro Min_eqI) auto
  obtain q'' where "pop q' = Inr q''" "elems q'' = elems q' - {#Min_mset (elems q')#}" "ok q''"
    using pop_spec [OF q'(2) ne] by blast
  with that q' front_min [OF q'(2) ne] m show ?thesis by simp
qed

lemma pop_front_mono:
  assumes "ok q" "q \<noteq> no_elems" "pop q = Inr q'" "q' \<noteq> no_elems"
    and "front q = Inr a" "front q' = Inr b"
  shows "a \<le> b"
proof -
  have "ok q'" "elems q' = elems q - {#Min_mset (elems q)#}"
    using pop_spec [OF assms(1,2)] assms(3) by auto
  then have "b = Min_mset (elems q')" "a = Min_mset (elems q)" "Min_mset (elems q') \<in># elems q"
    using front_min assms min_in [OF assms(4)] by (auto dest: in_diffD)
  then show ?thesis by simp
qed

end

interpretation hq: min_queue "[] :: 'a::linorder list" heap_front heap_push heap_pop_front heap_ok mset
proof unfold_locales
  show "heap_ok ([] :: 'a list)" by (simp add: heap_ok_def)
next
  fix q :: "'a list"
  assume "heap_ok q" "q \<noteq> []"
  then show "heap_front q = Inr (Min_mset (mset q))"
    and "\<exists>q'. heap_pop_front q = Inr q' \<and> heap_ok q' \<and> mset q' = mset q - {#Min_mset (mset q)#}"
    by (rule heap_front_min, rule heap_pop_front_correct)
qed (simp_all add: heap_push_correct)

end
