(* ===== verification/Std_Strings.thy ===== *)
theory Std_Strings
  imports Prelude
begin

text \<open>
  The string routines of the C++ standard library that the code calls: \<open>std::to_string\<close>,
  \<open>std::stoi\<close>, the padding of \<open>std::setw\<close>, hexadecimal output of a byte, and joining with
  a separator the way the code's \<open>for_each\<close> loops do it.
\<close>

section \<open>Decimal output\<close>

definition digit_char :: "nat \<Rightarrow> char" where
  "digit_char d = char_of (48 + d)"

fun show_nat :: "nat \<Rightarrow> string" where
  "show_nat n = (if n < 10 then [digit_char n] else show_nat (n div 10) @ [digit_char (n mod 10)])"

declare show_nat.simps [simp del]

definition show_int :: "int \<Rightarrow> string" where
  \<comment> \<open>\<open>std::to_string\<close> of a signed integer\<close>
  "show_int i = (if i < 0 then CHR ''-'' # show_nat (nat (- i)) else show_nat (nat i))"

section \<open>Decimal input\<close>

definition is_digit :: "char \<Rightarrow> bool" where
  "is_digit c \<longleftrightarrow> 48 \<le> (of_char c :: nat) \<and> of_char c \<le> (57 :: nat)"

definition is_space :: "char \<Rightarrow> bool" where
  "is_space c \<longleftrightarrow> (of_char c :: nat) = 32 \<or> (9 \<le> (of_char c :: nat) \<and> of_char c \<le> (13 :: nat))"

definition digit_value :: "char \<Rightarrow> nat" where
  "digit_value c = of_char c - 48"

definition digits_value :: "string \<Rightarrow> nat" where
  "digits_value ds = foldl (\<lambda>acc c. acc * 10 + digit_value c) 0 ds"

definition split_sign :: "string \<Rightarrow> bool \<times> string" where
  "split_sign s = (case s of
       [] \<Rightarrow> (False, [])
     | c # cs \<Rightarrow> (if c = CHR ''-'' then (True, cs) else if c = CHR ''+'' then (False, cs) else (False, s)))"

definition stoi :: "string \<Rightarrow> std_exn + int" where
  \<comment> \<open>\<open>std::stoi\<close>: \<open>strtol\<close> to the base 10, what follows the digits is ignored\<close>
  "stoi s =
     (let (neg, body) = split_sign (dropWhile is_space s);
          ds = takeWhile is_digit body;
          v = (if neg then - int (digits_value ds) else int (digits_value ds))
      in if ds = [] then Inl (Invalid_argument ''stoi'')
         else if v < - (2 ^ 31) \<or> 2 ^ 31 \<le> v then Inl (Out_of_range ''stoi'')
         else Inr v)"

definition stoull :: "string \<Rightarrow> std_exn + nat" where
  \<comment> \<open>\<open>std::stoull\<close>: a minus sign negates modulo \<open>2 ^ 64\<close>\<close>
  "stoull s =
     (let (neg, body) = split_sign (dropWhile is_space s);
          ds = takeWhile is_digit body;
          n = digits_value ds
      in if ds = [] then Inl (Invalid_argument ''stoull'')
         else if 2 ^ 64 \<le> n then Inl (Out_of_range ''stoull'')
         else Inr (if neg then (2 ^ 64 - n) mod 2 ^ 64 else n))"

lemma of_char_digit: "d < 10 \<Longrightarrow> of_char (digit_char d) = 48 + d"
  by (simp add: digit_char_def)

lemma digit_value_char [simp]: "d < 10 \<Longrightarrow> digit_value (digit_char d) = d"
  by (simp add: digit_value_def of_char_digit)

lemma is_digit_char [simp]: "d < 10 \<Longrightarrow> is_digit (digit_char d)"
  by (simp add: is_digit_def of_char_digit)

lemma show_nat_digits: "\<forall>c\<in>set (show_nat n). is_digit c"
proof (induction n rule: show_nat.induct)
  case (1 n)
  then show ?case by (subst show_nat.simps) auto
qed

lemma show_nat_nonempty [simp]: "show_nat n \<noteq> []"
  by (subst show_nat.simps) simp

lemma digits_value_snoc: "digits_value (ds @ [c]) = digits_value ds * 10 + digit_value c"
  by (simp add: digits_value_def)

lemma digits_value_show_nat [simp]: "digits_value (show_nat n) = n"
proof (induction n rule: show_nat.induct)
  case (1 n)
  show ?case
  proof (cases "n < 10")
    case True
    then show ?thesis by (subst show_nat.simps) (simp add: digits_value_def)
  next
    case False
    with 1 show ?thesis by (subst show_nat.simps) (simp add: digits_value_snoc)
  qed
qed

lemma show_nat_inject [simp]: "show_nat m = show_nat n \<longleftrightarrow> m = n"
  by (metis digits_value_show_nat)

lemma digit_not_sign: "is_digit c \<Longrightarrow> c \<noteq> CHR ''-'' \<and> c \<noteq> CHR ''+'' \<and> \<not> is_space c"
  by (auto simp: is_digit_def is_space_def)

lemma show_nat_Cons:
  obtains c cs where "show_nat n = c # cs" "is_digit c" "\<forall>d\<in>set cs. is_digit d"
  using show_nat_digits [of n] show_nat_nonempty [of n]
  by (cases "show_nat n") auto

lemma stoi_show_nat:
  assumes "int n < 2 ^ 31"
  shows "stoi (show_nat n) = Inr (int n)"
proof -
  obtain c cs where s: "show_nat n = c # cs" "is_digit c" "\<forall>d\<in>set cs. is_digit d"
    by (rule show_nat_Cons)
  have "split_sign (dropWhile is_space (show_nat n)) = (False, show_nat n)"
    using digit_not_sign [OF s(2)] by (simp add: s(1) split_sign_def)
  moreover have "takeWhile is_digit (show_nat n) = show_nat n"
    using show_nat_digits by (simp add: takeWhile_eq_all_conv)
  ultimately show ?thesis using assms by (simp add: stoi_def Let_def del: takeWhile_eq_all_conv)
qed

lemma stoi_minus_show_nat:
  assumes "int n \<le> 2 ^ 31"
  shows "stoi (CHR ''-'' # show_nat n) = Inr (- int n)"
proof -
  have "split_sign (dropWhile is_space (CHR ''-'' # show_nat n)) = (True, show_nat n)"
    by (simp add: split_sign_def is_space_def)
  moreover have "takeWhile is_digit (show_nat n) = show_nat n"
    using show_nat_digits by (simp add: takeWhile_eq_all_conv)
  ultimately show ?thesis using assms
    by (simp add: stoi_def Let_def del: dropWhile.simps takeWhile_eq_all_conv)
qed

text \<open>What \<open>std::to_string\<close> prints, \<open>std::stoi\<close> reads back.\<close>

lemma stoi_show_int: "- (2 ^ 31) \<le> i \<Longrightarrow> i < 2 ^ 31 \<Longrightarrow> stoi (show_int i) = Inr i"
  by (auto simp: show_int_def stoi_show_nat stoi_minus_show_nat)

lemma show_int_nonempty [simp]: "show_int i \<noteq> []"
  by (simp add: show_int_def)

section \<open>Padding and hexadecimal\<close>

definition pad_left :: "nat \<Rightarrow> char \<Rightarrow> string \<Rightarrow> string" where
  \<comment> \<open>\<open>std::setfill(c) << std::setw(n)\<close>\<close>
  "pad_left n c s = replicate (n - length s) c @ s"

definition hex_digit :: "nat \<Rightarrow> char" where
  "hex_digit d = (if d < 10 then digit_char d else char_of (87 + d))"

definition hex2 :: "char \<Rightarrow> string" where
  \<comment> \<open>a byte in hexadecimal, width 2, filled with zeros\<close>
  "hex2 c = [hex_digit (of_char c div 16), hex_digit (of_char c mod 16)]"

definition is_print :: "char \<Rightarrow> bool" where
  \<comment> \<open>\<open>std::isprint\<close> in the C locale\<close>
  "is_print c \<longleftrightarrow> 32 \<le> (of_char c :: nat) \<and> of_char c \<le> (126 :: nat)"

section \<open>Joining\<close>

text \<open>
  The loops of the code append a separator when what has been printed so far is not empty,
  rather than when an element came before: \<open>ret.append(ret.empty() ? "" : ",").append(x)\<close>.
\<close>

definition join_step :: "string \<Rightarrow> string \<Rightarrow> string \<Rightarrow> string" where
  "join_step sep acc x = acc @ (if acc = [] then [] else sep) @ x"

definition join_nonempty :: "string \<Rightarrow> string list \<Rightarrow> string" where
  "join_nonempty sep xs = foldl (join_step sep) [] xs"

fun intercalate :: "string \<Rightarrow> string list \<Rightarrow> string" where
  "intercalate sep [] = []"
| "intercalate sep [x] = x"
| "intercalate sep (x # y # xs) = x @ sep @ intercalate sep (y # xs)"

lemma foldl_join_step:
  "acc \<noteq> [] \<Longrightarrow> foldl (join_step sep) acc xs = intercalate sep (acc # xs)"
proof (induction xs arbitrary: acc)
  case (Cons x xs)
  from Cons.prems have "join_step sep acc x = acc @ sep @ x"
    by (simp add: join_step_def)
  with Cons.IH [of "acc @ sep @ x"] Cons.prems
  have "foldl (join_step sep) acc (x # xs) = intercalate sep ((acc @ sep @ x) # xs)"
    by simp
  also have "\<dots> = intercalate sep (acc # x # xs)"
    by (cases xs) simp_all
  finally show ?case .
qed simp

lemma join_nonempty_eq:
  "[] \<notin> set xs \<Longrightarrow> join_nonempty sep xs = intercalate sep xs"
  by (cases xs) (auto simp: join_nonempty_def join_step_def foldl_join_step)

lemma join_nonempty_skips: "join_nonempty sep ([] # xs) = join_nonempty sep xs"
  by (simp add: join_nonempty_def join_step_def)

end
