(* ===== verification/Offset_Queue.thy ===== *)
theory Offset_Queue
  imports Min_Heap Std_Strings
begin

text \<open>
  \<open>UnorderedOffsetCommitQueue\<close> of \<open>addons/UnorderedOffsetCommitQueue.h\<close>: handlers of records
  acknowledge offsets in any order, the queue works out the offset that is safe to commit. The
  specification is in terms of the whole history, the offsets waited for and those
  acknowledged: the offset to commit is one past the longest prefix of the waited offsets that
  is acknowledged completely. The queue is a client of the heap through the interface
  \<open>min_queue\<close>.
\<close>

section \<open>State and operations\<close>

definition INVALID_OFFSET :: int where
  "INVALID_OFFSET = - 1"

record offset_queue =
  offsetsReceived :: "int list"
  offsetsToCommit :: "int list"
  toCommit :: int
  committed :: int
  partitionInfo :: string

definition default_queue :: offset_queue where
  "default_queue = \<lparr>offsetsReceived = [], offsetsToCommit = [], toCommit = INVALID_OFFSET,
     committed = INVALID_OFFSET, partitionInfo = []\<rparr>"

definition make_queue :: "string \<Rightarrow> int \<Rightarrow> offset_queue" where
  "make_queue topic part = default_queue\<lparr>partitionInfo :=
     ''topic['' @ topic @ ''], paritition['' @ show_int part @ '']''\<rparr>"

definition queue_size :: "offset_queue \<Rightarrow> nat" where
  "queue_size q = length (offsetsReceived q)"

definition waitOffset :: "int \<Rightarrow> offset_queue \<Rightarrow> offset_queue" where
  "waitOffset offset q =
     (if offset < 0 \<or> (offsetsReceived q \<noteq> [] \<and> offset \<le> last (offsetsReceived q)) then q
      else q\<lparr>offsetsReceived := offsetsReceived q @ [offset]\<rparr>)"

text \<open>
  The \<open>do .. while\<close> loop of \<open>ackOffset\<close>. Each round removes an element of the heap or leaves
  the loop. \<open>expectedOffset + 1\<close> is a 64-bit addition.
\<close>

function ack_loop :: "offset_queue \<Rightarrow> std_exn + offset_queue" where
  "ack_loop q =
     (case heap_front (offsetsToCommit q) of
        Inl e \<Rightarrow> Inl e
      | Inr minOffsetToCommit \<Rightarrow>
          (case front_of (offsetsReceived q) of
             Inl e \<Rightarrow> Inl e
           | Inr expectedOffset \<Rightarrow>
               if minOffsetToCommit = expectedOffset then
                 (case heap_pop_front (offsetsToCommit q) of
                    Inl e \<Rightarrow> Inl e
                  | Inr heap \<Rightarrow>
                      (let q' = q\<lparr>toCommit := to_int64 (expectedOffset + 1), offsetsToCommit := heap,
                                  offsetsReceived := tl (offsetsReceived q)\<rparr>
                       in if heap \<noteq> [] then ack_loop q' else Inr q'))
               else if minOffsetToCommit < expectedOffset then
                 (case heap_pop_front (offsetsToCommit q) of
                    Inl e \<Rightarrow> Inl e
                  | Inr heap \<Rightarrow>
                      (let q' = q\<lparr>offsetsToCommit := heap\<rparr>
                       in if heap \<noteq> [] then ack_loop q' else Inr q'))
               else Inr q))"
  by pat_completeness auto
termination
  by (relation "measure (\<lambda>q. length (offsetsToCommit q))") (auto dest: length_heap_pop_front)

declare ack_loop.simps [simp del]

definition ackOffset :: "int \<Rightarrow> offset_queue \<Rightarrow> std_exn + offset_queue" where
  "ackOffset offset q =
     (case back_of (offsetsReceived q) of
        Inl e \<Rightarrow> Inl e
      | Inr maxOffsetReceived \<Rightarrow>
          \<comment> \<open>an offset beyond all received ones is logged, nothing else\<close>
          (case heap_push offset (offsetsToCommit q) of
             Inl e \<Rightarrow> Inl e
           | Inr heap \<Rightarrow> ack_loop (q\<lparr>offsetsToCommit := heap\<rparr>)))"

definition popOffsetToCommit :: "offset_queue \<Rightarrow> int option \<times> offset_queue" where
  "popOffsetToCommit q =
     (if committed q \<noteq> toCommit q then (Some (toCommit q), q\<lparr>committed := toCommit q\<rparr>)
      else (None, q))"

definition lastPoppedOffset :: "offset_queue \<Rightarrow> int option" where
  "lastPoppedOffset q = (if committed q \<noteq> INVALID_OFFSET then Some (committed q) else None)"

section \<open>The loop\<close>

text \<open>
  One call of the loop, over a heap that holds a set \<open>H\<close> of the waiting offsets \<open>R\<close>: the
  longest prefix of \<open>R\<close> inside \<open>H\<close> leaves both containers.
\<close>

lemma ack_loop_spec:
  assumes "heap_ok h" "mset h = mset_set H" "finite H" "H \<noteq> {}" "H \<subseteq> set R" "strictly_sorted R"
    and "offsetsReceived q = R" "offsetsToCommit q = h"
  shows "\<exists>h'. ack_loop q = Inr (q\<lparr>
       toCommit := (if hd R \<in> H then to_int64 (last (takeWhile (\<lambda>x. x \<in> H) R) + 1) else toCommit q),
       offsetsToCommit := h', offsetsReceived := dropWhile (\<lambda>x. x \<in> H) R\<rparr>) \<and>
     heap_ok h' \<and> mset h' = mset_set (H - set (takeWhile (\<lambda>x. x \<in> H) R))"
  using assms
proof (induction R arbitrary: q h H)
  case Nil
  then show ?case by simp
next
  case (Cons r R)
  have set_h: "set h = H" using Cons.prems(2,3) by (metis finite_set_mset_mset_set set_mset_mset)
  have h: "h \<noteq> []" using Cons.prems(4) set_h by auto
  have front: "heap_front h = Inr (Min H)"
    using hq.front_min [OF Cons.prems(1) h] set_h by simp
  have r: "\<forall>x\<in>set R. r < x" "strictly_sorted R" "r \<notin> set R"
    using Cons.prems(6) by auto
  have le: "\<forall>x\<in>H. r \<le> x" using Cons.prems(5) r by fastforce
  show ?case
  proof (cases "r \<in> H")
    case False
    then have "r < Min H"
      using le Cons.prems(3,4) by (metis Min_in order_le_less)
    then have "ack_loop q = Inr q"
      using front Cons.prems(7,8) by (simp add: ack_loop.simps [of q])
    with False Cons.prems show ?thesis by (intro exI [of _ h]) simp
  next
    case True
    then have min: "Min H = r" using le Cons.prems(3) by (intro Min_eqI) auto
    obtain h1 where h1: "heap_pop_front h = Inr h1" "heap_ok h1" "mset h1 = mset_set (H - {r})"
      using hq.pop_spec [OF Cons.prems(1) h] Cons.prems(2,3) set_h min True
      by (auto simp: mset_set_Diff)
    define q1 where "q1 = q\<lparr>toCommit := to_int64 (r + 1), offsetsToCommit := h1, offsetsReceived := R\<rparr>"
    have step: "ack_loop q = (if h1 \<noteq> [] then ack_loop q1 else Inr q1)"
      using front min h1(1) Cons.prems(7,8) by (simp add: ack_loop.simps [of q] q1_def Let_def)
    have same: "takeWhile (\<lambda>x. x \<in> H) R = takeWhile (\<lambda>x. x \<in> H - {r}) R"
      "dropWhile (\<lambda>x. x \<in> H) R = dropWhile (\<lambda>x. x \<in> H - {r}) R"
      using r(3) by (auto intro: takeWhile_cong dropWhile_cong)
    show ?thesis
    proof (cases "H = {r}")
      case True
      then have "h1 = []" using h1(3) by simp
      with True show ?thesis
        using step h1 Cons.prems(7,8) same by (intro exI [of _ h1]) (cases R; auto simp: q1_def)
    next
      case False
      with True have ne: "H - {r} \<noteq> {}" by auto
      have sub: "H - {r} \<subseteq> set R" using Cons.prems(5) by auto
      have h1_ne: "h1 \<noteq> []" using h1(3) ne Cons.prems(3) by (metis finite_Diff mset_set_empty_iff mset_zero_iff)
      obtain R1 R2 where R: "R = R1 # R2" using sub ne by (cases R) auto
      from Cons.IH [OF h1(2,3) _ ne sub r(2), of q1] obtain h' where h':
        "ack_loop q1 = Inr (q1\<lparr>
           toCommit := (if hd R \<in> H - {r} then to_int64 (last (takeWhile (\<lambda>x. x \<in> H - {r}) R) + 1) else toCommit q1),
           offsetsToCommit := h', offsetsReceived := dropWhile (\<lambda>x. x \<in> H - {r}) R\<rparr>)"
        "heap_ok h'" "mset h' = mset_set (H - {r} - set (takeWhile (\<lambda>x. x \<in> H - {r}) R))"
        using Cons.prems(3) by (auto simp: q1_def)
      have "H - {r} - set (takeWhile (\<lambda>x. x \<in> H) R) = H - set (takeWhile (\<lambda>x. x \<in> H) (r # R))"
        using True by auto
      with h' True step h1_ne same show ?thesis
        by (intro exI [of _ h']) (auto simp: q1_def R)
    qed
  qed
qed

section \<open>Histories\<close>

datatype queue_op = Wait int | Ack int | Pop

definition queue_step :: "queue_op \<Rightarrow> offset_queue \<Rightarrow> std_exn + offset_queue" where
  "queue_step op q = (case op of
       Wait offset \<Rightarrow> Inr (waitOffset offset q)
     | Ack offset \<Rightarrow> ackOffset offset q
     | Pop \<Rightarrow> Inr (snd (popOffsetToCommit q)))"

fun run_queue :: "queue_op list \<Rightarrow> offset_queue \<Rightarrow> std_exn + offset_queue" where
  "run_queue [] q = Inr q"
| "run_queue (op # ops) q = (case queue_step op q of Inl e \<Rightarrow> Inl e | Inr q' \<Rightarrow> run_queue ops q')"

text \<open>
  A history: \<open>W\<close> is what was waited for, \<open>A\<close> what was acknowledged. A wait is ignored when the offset is
  negative or, as with a record delivered again, not above the last one that was waited for while some
  offset is not acknowledged.
\<close>

definition ignored :: "int list \<Rightarrow> int list \<Rightarrow> int \<Rightarrow> bool" where
  "ignored W A offset \<longleftrightarrow> offset < 0 \<or> list_ex (\<lambda>w. w \<notin> set A) W \<and> offset \<le> last W"

fun history :: "int list \<Rightarrow> int list \<Rightarrow> queue_op list \<Rightarrow> int list \<times> int list" where
  "history W A [] = (W, A)"
| "history W A (Wait offset # ops) = history (if ignored W A offset then W else W @ [offset]) A ops"
| "history W A (Ack offset # ops) = history W (A @ [offset]) ops"
| "history W A (Pop # ops) = history W A ops"

abbreviation waited :: "queue_op list \<Rightarrow> int list" where
  "waited ops \<equiv> fst (history [] [] ops)"

abbreviation acked :: "queue_op list \<Rightarrow> int list" where
  "acked ops \<equiv> snd (history [] [] ops)"

text \<open>
  The use the class asks for: an offset that is not ignored is above all those waited for before, and each is
  acknowledged once, after it was waited for.
\<close>

fun history_ok :: "int list \<Rightarrow> int list \<Rightarrow> queue_op list \<Rightarrow> bool" where
  "history_ok W A [] = True"
| "history_ok W A (Wait offset # ops) =
     (if ignored W A offset then history_ok W A ops
      else offset < INT64_MAX \<and> list_all (\<lambda>w. w < offset) W \<and> history_ok (W @ [offset]) A ops)"
| "history_ok W A (Ack offset # ops) =
     (offset \<in> set W \<and> offset \<notin> set A \<and> history_ok W (A @ [offset]) ops)"
| "history_ok W A (Pop # ops) = history_ok W A ops"

definition safe_offset :: "int list \<Rightarrow> int list \<Rightarrow> int" where
  \<comment> \<open>the specification: one past the longest acknowledged prefix\<close>
  "safe_offset W A =
     (let done_prefix = takeWhile (\<lambda>x. x \<in> set A) W
      in if done_prefix = [] then INVALID_OFFSET else last done_prefix + 1)"

definition queue_rep :: "int list \<Rightarrow> int list \<Rightarrow> offset_queue \<Rightarrow> bool" where
  "queue_rep W A q \<longleftrightarrow>
     strictly_sorted W \<and> list_all (\<lambda>w. 0 \<le> w \<and> w < INT64_MAX) W \<and> set A \<subseteq> set W \<and>
     offsetsReceived q = dropWhile (\<lambda>x. x \<in> set A) W \<and>
     heap_ok (offsetsToCommit q) \<and>
     mset (offsetsToCommit q) = mset_set (set A - set (takeWhile (\<lambda>x. x \<in> set A) W)) \<and>
     toCommit q = safe_offset W A \<and>
     INVALID_OFFSET \<le> committed q \<and> committed q \<le> toCommit q"

lemma queue_rep_default: "queue_rep [] [] default_queue"
  by (simp add: queue_rep_def default_queue_def heap_ok_def safe_offset_def)

lemma queue_rep_pop: "queue_rep W A q \<Longrightarrow> queue_rep W A (snd (popOffsetToCommit q))"
  by (auto simp: queue_rep_def popOffsetToCommit_def)

lemma takeWhile_snoc_notin:
  "\<not> P x \<Longrightarrow> takeWhile P (xs @ [x]) = takeWhile P xs \<and> dropWhile P (xs @ [x]) = dropWhile P xs @ [x]"
  by (induction xs) auto

lemma queue_rep_wait:
  assumes "queue_rep W A q" "0 \<le> x" "x < INT64_MAX" "list_all (\<lambda>w. w < x) W"
  shows "queue_rep (W @ [x]) A (waitOffset x q)"
proof -
  have "x \<notin> set A" using assms(1,4) by (auto simp: queue_rep_def list_all_iff)
  moreover have "\<forall>w\<in>set (offsetsReceived q). w < x"
    using assms(1,4) by (auto simp: queue_rep_def list_all_iff dest: set_dropWhileD)
  then have "waitOffset x q = q\<lparr>offsetsReceived := offsetsReceived q @ [x]\<rparr>"
    using assms(2) last_in_set [of "offsetsReceived q"] by (fastforce simp: waitOffset_def)
  ultimately show ?thesis
    using assms by (auto simp: queue_rep_def takeWhile_snoc_notin safe_offset_def
        sorted_wrt_append list_all_iff)
qed

lemma last_dropWhile: "dropWhile P xs \<noteq> [] \<Longrightarrow> last (dropWhile P xs) = last xs"
  by (induction xs) (auto split: if_splits)

lemma queue_rep_ignored:
  assumes "queue_rep W A q" "ignored W A x"
  shows "waitOffset x q = q"
proof (cases "x < 0")
  case False
  then have late: "list_ex (\<lambda>w. w \<notin> set A) W" "x \<le> last W" using assms(2) by (auto simp: ignored_def)
  then have "dropWhile (\<lambda>y. y \<in> set A) W \<noteq> []" by (auto simp: list_ex_iff)
  then show ?thesis using assms(1) late(2) by (simp add: waitOffset_def queue_rep_def last_dropWhile)
qed (simp add: waitOffset_def)

text \<open>The waited offsets split at the first one that is not acknowledged.\<close>

lemma takeWhile_more:
  assumes "\<And>x. x \<in> set xs \<Longrightarrow> P x \<Longrightarrow> Q x"
  shows "takeWhile Q xs = takeWhile P xs @ takeWhile Q (dropWhile P xs)"
    and "dropWhile Q xs = dropWhile Q (dropWhile P xs)"
  using assms by (induction xs) auto

lemma queue_rep_ack:
  assumes rep: "queue_rep W A q" and x: "x \<in> set W" "x \<notin> set A"
  shows "\<exists>q'. ackOffset x q = Inr q' \<and> queue_rep W (A @ [x]) q'"
proof -
  define P where "P = takeWhile (\<lambda>y. y \<in> set A) W"
  define R where "R = dropWhile (\<lambda>y. y \<in> set A) W"
  define H where "H = insert x (set A - set P)"
  define T where "T = takeWhile (\<lambda>y. y \<in> H) R"
  have split_W: "W = P @ R" by (simp add: P_def R_def)
  have "strictly_sorted (P @ R)" using rep split_W by (simp add: queue_rep_def)
  then have sorted: "strictly_sorted R" "\<forall>p\<in>set P. \<forall>r\<in>set R. p < r"
    unfolding sorted_wrt_append by blast+
  have PA: "set P \<subseteq> set A" by (auto simp: P_def dest: set_takeWhileD)
  have xR: "x \<in> set R" using x split_W PA by auto
  have sub: "H \<subseteq> set R" and H: "finite H" "H \<noteq> {}"
    using rep split_W xR by (auto simp: queue_rep_def H_def)
  have q: "offsetsReceived q = R" "heap_ok (offsetsToCommit q)"
      "mset (offsetsToCommit q) = mset_set (set A - set P)" "toCommit q = safe_offset W A"
    using rep by (simp_all add: queue_rep_def P_def R_def)
  obtain h where h: "heap_push x (offsetsToCommit q) = Inr h" "heap_ok h" "mset h = mset_set H"
    using hq.push_spec [OF q(2), of x] q(3) x by (auto simp: H_def)
  have "offsetsReceived q \<noteq> []" using q(1) xR by auto
  then have ack: "ackOffset x q = ack_loop (q\<lparr>offsetsToCommit := h\<rparr>)"
    using h(1) by (simp add: ackOffset_def)
  have "\<exists>h'. ack_loop (q\<lparr>offsetsToCommit := h\<rparr>) = Inr (q\<lparr>
       toCommit := (if hd R \<in> H then to_int64 (last T + 1) else toCommit q),
       offsetsToCommit := h', offsetsReceived := dropWhile (\<lambda>y. y \<in> H) R\<rparr>) \<and>
     heap_ok h' \<and> mset h' = mset_set (H - set T)"
    using ack_loop_spec [OF h(2,3) H sub sorted(1), of "q\<lparr>offsetsToCommit := h\<rparr>"] q(1)
    by (auto simp: T_def)
  then obtain h' where h': "ackOffset x q = Inr (q\<lparr>
       toCommit := (if hd R \<in> H then to_int64 (last T + 1) else toCommit q),
       offsetsToCommit := h', offsetsReceived := dropWhile (\<lambda>y. y \<in> H) R\<rparr>)"
     "heap_ok h'" "mset h' = mset_set (H - set T)"
    unfolding ack by blast
  have R_in: "(y \<in> H) = (y \<in> set (A @ [x]))" if "y \<in> set R" for y
    using that sorted(2) by (auto simp: H_def)
  have cong: "takeWhile (\<lambda>y. y \<in> set (A @ [x])) R = T"
    "dropWhile (\<lambda>y. y \<in> set (A @ [x])) R = dropWhile (\<lambda>y. y \<in> H) R"
    using R_in unfolding T_def by (auto intro!: takeWhile_cong dropWhile_cong)
  have split: "takeWhile (\<lambda>y. y \<in> set (A @ [x])) W = P @ T"
    "dropWhile (\<lambda>y. y \<in> set (A @ [x])) W = dropWhile (\<lambda>y. y \<in> H) R"
    using takeWhile_more [of W "\<lambda>y. y \<in> set A" "\<lambda>y. y \<in> set (A @ [x])"] cong
    by (simp_all add: P_def R_def)
  have hd_T: "hd R \<in> H \<longleftrightarrow> T \<noteq> []" using xR by (cases R) (auto simp: T_def)
  have range: "to_int64 (last T + 1) = last T + 1" if "T \<noteq> []"
  proof -
    have "last T \<in> set W"
      using last_in_set [OF that] split_W by (auto simp: T_def dest: set_takeWhileD)
    then show ?thesis using rep
      by (intro to_int64_id) (auto simp: queue_rep_def list_all_iff INT64_MAX_def)
  qed
  have left: "set (A @ [x]) - set (P @ T) = H - set T" using xR sorted(2) by (auto simp: H_def)
  have commit: "safe_offset W (A @ [x]) = (if hd R \<in> H then to_int64 (last T + 1) else toCommit q)"
    using hd_T range unfolding safe_offset_def split q(4) by (simp add: P_def [symmetric])
  have "toCommit q \<le> last T + 1" if "T \<noteq> []"
  proof (cases "P = []")
    case False
    have "last P < last T"
      using last_in_set [OF False] last_in_set [OF that] sorted(2) by (auto simp: T_def dest: set_takeWhileD)
    then show ?thesis using False q(4) by (simp add: safe_offset_def P_def [symmetric])
  next
    case True
    have "last T \<in> set W" using last_in_set [OF that] split_W by (auto simp: T_def dest: set_takeWhileD)
    then have "0 \<le> last T" using rep by (auto simp: queue_rep_def list_all_iff)
    then show ?thesis using True q(4) by (simp add: safe_offset_def P_def [symmetric] INVALID_OFFSET_def)
  qed
  then have mono: "toCommit q \<le> (if hd R \<in> H then to_int64 (last T + 1) else toCommit q)"
    using hd_T range by auto
  have "queue_rep W (A @ [x]) (q\<lparr>
       toCommit := (if hd R \<in> H then to_int64 (last T + 1) else toCommit q),
       offsetsToCommit := h', offsetsReceived := dropWhile (\<lambda>y. y \<in> H) R\<rparr>)"
    using rep x(1) h'(2,3) mono unfolding queue_rep_def split left commit by auto
  with h'(1) show ?thesis by blast
qed

lemma run_queue_rep:
  "queue_rep W A q \<Longrightarrow> history_ok W A ops \<Longrightarrow>
     \<exists>q'. run_queue ops q = Inr q' \<and> queue_rep (fst (history W A ops)) (snd (history W A ops)) q'"
proof (induction ops arbitrary: W A q)
  case (Cons op ops)
  show ?case
  proof (cases op)
    case (Wait x)
    show ?thesis
    proof (cases "ignored W A x")
      case True
      with Wait Cons queue_rep_ignored [of W A q x] show ?thesis by (auto simp: queue_step_def)
    next
      case False
      then have "0 \<le> x" by (simp add: ignored_def)
      with Wait False Cons.prems Cons.IH [OF queue_rep_wait [of W A q x]] show ?thesis
        by (auto simp: queue_step_def)
    qed
  next
    case (Ack x)
    with Cons.prems obtain q' where "ackOffset x q = Inr q'" "queue_rep W (A @ [x]) q'"
      using queue_rep_ack [of W A q x] by auto
    with Ack Cons.prems Cons.IH [of W "A @ [x]" q'] show ?thesis
      by (auto simp: queue_step_def)
  next
    case Pop
    with Cons.prems Cons.IH [OF queue_rep_pop [of W A q]] show ?thesis
      by (auto simp: queue_step_def)
  qed
qed simp

section \<open>Popping, and acknowledgements the class does not expect\<close>

lemma safe_offset_least:
  assumes "strictly_sorted W" "w \<in> set W" "w \<notin> set A"
  shows "safe_offset W A \<le> w \<or> safe_offset W A = INVALID_OFFSET"
proof (cases "takeWhile (\<lambda>x. x \<in> set A) W = []")
  case False
  let ?P = "takeWhile (\<lambda>x. x \<in> set A) W" and ?R = "dropWhile (\<lambda>x. x \<in> set A) W"
  have "strictly_sorted (?P @ ?R)" using assms(1) by simp
  then have "\<forall>p\<in>set ?P. \<forall>r\<in>set ?R. p < r" unfolding sorted_wrt_append by blast
  moreover have "w \<in> set ?R"
    using assms(2,3) by (metis Un_iff set_append set_takeWhileD takeWhile_dropWhile_id)
  moreover have "last ?P \<in> set ?P" using False by (rule last_in_set)
  ultimately have "last ?P < w" by blast
  then show ?thesis using False by (simp add: safe_offset_def Let_def)
qed (simp add: safe_offset_def)

lemma safe_offset_acked:
  "safe_offset W A \<noteq> INVALID_OFFSET \<Longrightarrow> safe_offset W A - 1 \<in> set A \<inter> set W"
  using last_in_set [of "takeWhile (\<lambda>x. x \<in> set A) W"] set_takeWhileD [of _ "\<lambda>x. x \<in> set A" W]
  by (auto simp: safe_offset_def Let_def split: if_splits)

lemma heap_push_Nil [simp]: "heap_push x [] = Inr [x]"
  by (simp add: heap_push_def sift_up.simps)

lemma heap_pop_singleton [simp]: "heap_pop_front [x] = Inr []"
  by (simp add: heap_pop_front_def)

lemma heap_front_Cons [simp]: "heap_front (x # xs) = Inr x"
  by (simp add: heap_front_def)

lemma heap_pop_pair: "x \<le> y \<Longrightarrow> heap_pop_front [x, y] = Inr [y]"
  by (simp add: heap_pop_front_def Let_def sift_down.simps)

lemma heap_push_pair: "heap_push x [y] = (if x < y then Inr [x, y] else Inr [y, x])"
  by (simp add: heap_push_def sift_up.simps parent_index_def swap_at_def)

section \<open>Properties\<close>

text \<open>C1. Refinement: over every history in which offsets are waited for in increasing order, apart from
  offsets that are delivered again and ignored, and each is acknowledged once, in any order, the queue returns without an exception, and the offset
  it has ready to commit is one past the longest prefix of the waited offsets whose members are
  all acknowledged; the waiting list is the rest of them.\<close>

theorem offset_queue_commits_prefix:
  assumes "history_ok [] [] ops"
  shows "\<exists>q. run_queue ops default_queue = Inr q \<and>
    toCommit q = safe_offset (waited ops) (acked ops) \<and>
    offsetsReceived q = dropWhile (\<lambda>x. x \<in> set (acked ops)) (waited ops)"
  using run_queue_rep [OF queue_rep_default assms] by (auto simp: queue_rep_def)

theorem offset_queue_commits_prefix_witness:
  "\<exists>q. run_queue [Wait 1, Wait 2, Wait 5, Ack 5, Wait 5, Ack 1, Pop, Wait 7, Ack 2] default_queue = Inr q \<and>
     toCommit q = safe_offset [1, 2, 5, 7] [5, 1, 2] \<and> offsetsReceived q = [7]"
  using offset_queue_commits_prefix [of "[Wait 1, Wait 2, Wait 5, Ack 5, Wait 5, Ack 1, Pop, Wait 7, Ack 2]"]
  by (simp add: INT64_MAX_def ignored_def)

text \<open>C5. Safety of committing: whenever a pop hands out an offset, it is larger than the one
  popped before, every waited offset below it has been acknowledged, and the offset just below it
  is one of them; a consumer that commits it neither goes back nor skips a record that was not
  handled.\<close>

theorem popped_offset_safe:
  assumes "history_ok [] [] ops" "run_queue ops default_queue = Inr q"
    and "popOffsetToCommit q = (Some c, q')"
  shows "committed q < c \<and> lastPoppedOffset q' = Some c \<and>
    c - 1 \<in> set (acked ops) \<inter> set (waited ops) \<and>
    (\<forall>w\<in>set (waited ops). w < c \<longrightarrow> w \<in> set (acked ops))"
proof -
  have rep: "queue_rep (waited ops) (acked ops) q"
    using run_queue_rep [OF queue_rep_default assms(1)] assms(2) by auto
  have c: "c = toCommit q" "committed q \<noteq> toCommit q" "q' = q\<lparr>committed := toCommit q\<rparr>"
    using assms(3) by (auto simp: popOffsetToCommit_def split: if_splits)
  then have "committed q < c" "c \<noteq> INVALID_OFFSET" "c = safe_offset (waited ops) (acked ops)"
    using rep by (auto simp: queue_rep_def)
  moreover have "strictly_sorted (waited ops)" using rep by (simp add: queue_rep_def)
  ultimately show ?thesis
    using c safe_offset_acked [of "waited ops" "acked ops"] safe_offset_least [of "waited ops"]
    by (fastforce simp: lastPoppedOffset_def)
qed

theorem popped_offset_safe_witness:
  "\<exists>q q'. popOffsetToCommit q = (Some 3, q') \<and> committed q < 3 \<and> lastPoppedOffset q' = Some 3"
proof -
  let ?ops = "[Wait 1, Wait 2, Wait 9, Ack 2, Ack 1]"
  have ok: "history_ok [] [] ?ops" by (simp add: INT64_MAX_def ignored_def)
  obtain q where q: "run_queue ?ops default_queue = Inr q" "toCommit q = safe_offset (waited ?ops) (acked ?ops)"
    "queue_rep (waited ?ops) (acked ?ops) q"
    using run_queue_rep [OF queue_rep_default ok] by (auto simp: queue_rep_def)
  have "committed q = INVALID_OFFSET"
    using q(1) by (auto simp: queue_step_def waitOffset_def ackOffset_def ack_loop.simps default_queue_def
        heap_push_pair heap_pop_pair to_int64_def INVALID_OFFSET_def Let_def)
  then have "popOffsetToCommit q = (Some 3, q\<lparr>committed := 3\<rparr>)"
    using q(2) by (simp add: popOffsetToCommit_def safe_offset_def INVALID_OFFSET_def ignored_def)
  with popped_offset_safe [OF ok q(1) this] show ?thesis by blast
qed

text \<open>C8. Functional correctness of the heap: \<open>push\<close> never throws and adds its element,
  \<open>front\<close> of a non-empty heap is the least element, \<open>pop_front\<close> removes exactly it, and both
  keep the order of the vector.\<close>

theorem heap_refines_multiset:
  assumes "heap_ok xs"
  shows "(\<exists>ys. heap_push x xs = Inr ys \<and> heap_ok ys \<and> mset ys = add_mset x (mset xs)) \<and>
    (xs = [] \<or> heap_front xs = Inr (Min_mset (mset xs)) \<and>
      (\<exists>ys. heap_pop_front xs = Inr ys \<and> heap_ok ys \<and> mset ys = mset xs - {#Min_mset (mset xs)#}))"
  using hq.push_spec [OF assms, of x] hq.front_min [OF assms] hq.pop_spec [OF assms] by blast

theorem heap_refines_multiset_witness:
  "heap_ok [1, 3, 2 :: int] \<and> heap_front [1, 3, 2 :: int] = Inr (Min_mset {#1, 3, 2#})"
proof -
  have "heap_ok [1, 3, 2 :: int]"
    by (simp add: heap_ok_def parent_index_def less_Suc_eq All_less_Suc)
  with heap_refines_multiset [OF this, of 0] show ?thesis by simp
qed

text \<open>Error behaviour: an acknowledgement below the offset the queue expects next, such as a
  duplicate, changes nothing but the arrangement of the heap.\<close>

lemma stale_ack_ignored:
  assumes "heap_ok (offsetsToCommit q)" "offsetsReceived q = r # rs" "x < r"
    and "\<forall>y\<in>set (offsetsToCommit q). r < y"
  shows "\<exists>heap. ackOffset x q = Inr (q\<lparr>offsetsToCommit := heap\<rparr>) \<and>
    mset heap = mset (offsetsToCommit q)"
proof -
  have least: "x \<le> y" if "y \<in># mset (offsetsToCommit q)" for y
    using that assms(3,4) by force
  obtain h h' where h: "heap_push x (offsetsToCommit q) = Inr h" "heap_front h = Inr x"
    and h': "heap_pop_front h = Inr h'" "mset h' = mset (offsetsToCommit q)" "heap_ok h'"
    using hq.pop_push_least [OF assms(1) least] by blast
  have stop: "ack_loop (q\<lparr>offsetsToCommit := h'\<rparr>) = Inr (q\<lparr>offsetsToCommit := h'\<rparr>)" if "h' \<noteq> []"
  proof -
    have "heap_front h' = Inr (Min (set h'))" using hq.front_min [OF h'(3) that] by simp
    moreover have "r < Min (set h')"
      using that assms(4) by (simp add: mset_eq_setD [OF h'(2), symmetric])
    ultimately show ?thesis
      using assms(2) by (simp add: ack_loop.simps [of "q\<lparr>offsetsToCommit := h'\<rparr>"])
  qed
  have "ackOffset x q = Inr (q\<lparr>offsetsToCommit := h'\<rparr>)"
    using assms(2,3) h h'(1) stop by (simp add: ackOffset_def ack_loop.simps [of "q\<lparr>offsetsToCommit := h\<rparr>"] Let_def)
  with h'(2) show ?thesis by blast
qed

text \<open>Error behaviour: the misuses the comments call a runtime error or an inconsistent error
  are not survived. Acknowledging the last waiting offset twice, or an offset beyond all those
  received followed by the waiting one, reads the front or back of an empty deque, which is
  undefined.\<close>

lemma misused_ack_undefined:
  assumes "0 \<le> x" "x < y"
  shows "run_queue [Wait x, Ack x, Ack x] default_queue = Inl (Undefined_behaviour ''back of empty'') \<and>
    run_queue [Wait x, Ack y, Ack x] default_queue = Inl (Undefined_behaviour ''front of empty'')"
  using assms
  by (simp add: queue_step_def waitOffset_def ackOffset_def ack_loop.simps default_queue_def
      heap_push_pair heap_pop_pair Let_def)

end
