(* ===== verification/Errors.thy ===== *)
theory Errors
  imports Prelude Std_Strings
begin

text \<open>
  \<open>Error.h\<close>, \<open>KafkaException.h\<close> and the parts of librdkafka every component refers to: the
  response codes, the opaque error object with its accessors, and a record of the constants and
  pure functions of the library, which is a parameter of the definitions that use it.
\<close>

section \<open>Response codes and the library's constants\<close>

text \<open>
  The enumerators the code names; every other code of the library is \<open>RD_KAFKA_RESP_ERR_other\<close>.
  \<open>RD_KAFKA_RESP_ERR_NO_ERROR\<close> is the one whose integer value is zero.
\<close>

datatype rd_kafka_resp_err_t =
    RD_KAFKA_RESP_ERR_NO_ERROR
  | RD_KAFKA_RESP_ERR__PARTITION_EOF
  | RD_KAFKA_RESP_ERR__TIMED_OUT
  | RD_KAFKA_RESP_ERR__INVALID_ARG
  | RD_KAFKA_RESP_ERR__FAIL
  | RD_KAFKA_RESP_ERR__FATAL
  | RD_KAFKA_RESP_ERR__STATE
  | RD_KAFKA_RESP_ERR__OUTDATED
  | RD_KAFKA_RESP_ERR__NO_OFFSET
  | RD_KAFKA_RESP_ERR__QUEUE_FULL
  | RD_KAFKA_RESP_ERR__UNKNOWN_TOPIC
  | RD_KAFKA_RESP_ERR__UNKNOWN_PARTITION
  | RD_KAFKA_RESP_ERR__MSG_TIMED_OUT
  | RD_KAFKA_RESP_ERR__ASSIGN_PARTITIONS
  | RD_KAFKA_RESP_ERR__REVOKE_PARTITIONS
  | RD_KAFKA_RESP_ERR_other int

record rdkafka_lib =
  rd_kafka_err2str :: "rd_kafka_resp_err_t \<Rightarrow> string"
  resp_err_int :: "rd_kafka_resp_err_t \<Rightarrow> int"
  RD_KAFKA_OFFSET_INVALID :: int
  RD_KAFKA_OFFSET_BEGINNING :: int
  RD_KAFKA_OFFSET_END :: int
  RD_KAFKA_PARTITION_UA :: int

text \<open>
  The constants as \<open>rdkafka.h\<close> documents them, with a table of texts; the witnesses evaluate the
  definitions at it, no definition or property fixes them.
\<close>

definition rdkafka_h :: rdkafka_lib where
  "rdkafka_h = \<lparr>rd_kafka_err2str = (\<lambda>c. if c = RD_KAFKA_RESP_ERR_NO_ERROR then ''Success'' else ''Failure''),
     resp_err_int = (\<lambda>c. if c = RD_KAFKA_RESP_ERR_NO_ERROR then 0 else - 1),
     RD_KAFKA_OFFSET_INVALID = - 1001, RD_KAFKA_OFFSET_BEGINNING = - 2, RD_KAFKA_OFFSET_END = - 1,
     RD_KAFKA_PARTITION_UA = - 1\<rparr>"

text \<open>What a \<open>rd_kafka_error_t\<close> object answers to its accessors.\<close>

record rk_error =
  rd_kafka_error_code :: rd_kafka_resp_err_t
  rd_kafka_error_string :: string
  rd_kafka_error_is_fatal :: bool
  rd_kafka_error_is_retriable :: bool
  rd_kafka_error_txn_requires_abort :: bool

section \<open>The class \<open>Error\<close>\<close>

record Error =
  rkError :: "rk_error option"
  respErr :: rd_kafka_resp_err_t
  messageOpt :: "string option"
  isFatalFlag :: bool
  txnAbortFlag :: bool
  isRetriableOpt :: "bool option"

definition Error_default :: Error where
  "Error_default = \<lparr>rkError = None, respErr = RD_KAFKA_RESP_ERR_NO_ERROR, messageOpt = None,
     isFatalFlag = False, txnAbortFlag = False, isRetriableOpt = None\<rparr>"

definition Error_rich :: "rk_error option \<Rightarrow> Error" where
  \<comment> \<open>\<open>Error(rd_kafka_error_t*)\<close>; a null pointer is no error\<close>
  "Error_rich e = Error_default\<lparr>rkError := e\<rparr>"

definition Error_code :: "rd_kafka_resp_err_t \<Rightarrow> Error" where
  "Error_code c = Error_default\<lparr>respErr := c\<rparr>"

definition Error_message :: "rd_kafka_resp_err_t \<Rightarrow> string \<Rightarrow> Error" where
  "Error_message c m = Error_default\<lparr>respErr := c, messageOpt := Some m\<rparr>"

definition Error_fatal :: "rd_kafka_resp_err_t \<Rightarrow> string \<Rightarrow> bool \<Rightarrow> Error" where
  "Error_fatal c m fatal = Error_default\<lparr>respErr := c, messageOpt := Some m, isFatalFlag := fatal\<rparr>"

definition error_value :: "Error \<Rightarrow> rd_kafka_resp_err_t" where
  "error_value e = (case rkError e of Some r \<Rightarrow> rd_kafka_error_code r | None \<Rightarrow> respErr e)"

definition error_set :: "Error \<Rightarrow> bool" where
  \<comment> \<open>\<open>operator bool\<close>\<close>
  "error_set e \<longleftrightarrow> error_value e \<noteq> RD_KAFKA_RESP_ERR_NO_ERROR"

definition error_message :: "rdkafka_lib \<Rightarrow> Error \<Rightarrow> string" where
  "error_message L e = (case messageOpt e of
       Some m \<Rightarrow> m
     | None \<Rightarrow> (case rkError e of Some r \<Rightarrow> rd_kafka_error_string r | None \<Rightarrow> rd_kafka_err2str L (respErr e)))"

definition error_isFatal :: "Error \<Rightarrow> bool" where
  "error_isFatal e = (case rkError e of Some r \<Rightarrow> rd_kafka_error_is_fatal r | None \<Rightarrow> isFatalFlag e)"

definition error_isRetriable :: "Error \<Rightarrow> bool option" where
  "error_isRetriable e =
     (case rkError e of Some r \<Rightarrow> Some (rd_kafka_error_is_retriable r) | None \<Rightarrow> isRetriableOpt e)"

definition error_transactionRequiresAbort :: "Error \<Rightarrow> bool" where
  "error_transactionRequiresAbort e =
     (case rkError e of Some r \<Rightarrow> rd_kafka_error_txn_requires_abort r | None \<Rightarrow> False)"

definition Error_copy :: "Error \<Rightarrow> Error" where
  \<comment> \<open>the copy constructor and the assignment from another object\<close>
  "Error_copy e = \<lparr>rkError = None, respErr = error_value e, messageOpt = messageOpt e,
     isFatalFlag = error_isFatal e, txnAbortFlag = error_transactionRequiresAbort e,
     isRetriableOpt = error_isRetriable e\<rparr>"

definition error_toString :: "rdkafka_lib \<Rightarrow> Error \<Rightarrow> string" where
  "error_toString L e =
     rd_kafka_err2str L (error_value e) @ '' ['' @ show_int (resp_err_int L (error_value e)) @ '']'' @
     (if error_isFatal e then '' fatal'' else []) @
     (if error_transactionRequiresAbort e then '' | transaction-requires-abort'' else []) @
     (case error_isRetriable e of None \<Rightarrow> [] | Some r \<Rightarrow> '' | '' @ (if r then ''retriable'' else ''non-retriable'')) @
     (case messageOpt e of None \<Rightarrow> [] | Some m \<Rightarrow> '' | '' @ m)"

lemmas error_defs = Error_default_def Error_rich_def Error_code_def Error_message_def Error_fatal_def
  error_value_def error_set_def error_isFatal_def error_isRetriable_def
  error_transactionRequiresAbort_def

lemma error_value_simps [simp]:
  "error_value Error_default = RD_KAFKA_RESP_ERR_NO_ERROR"
  "error_value (Error_code c) = c"
  "error_value (Error_message c m) = c"
  "error_value (Error_fatal c m f) = c"
  "error_value (Error_rich None) = RD_KAFKA_RESP_ERR_NO_ERROR"
  "error_value (Error_rich (Some r)) = rd_kafka_error_code r"
  by (simp_all add: error_defs)

lemma error_value_copy [simp]: "error_value (Error_copy e) = error_value e"
  by (simp add: Error_copy_def error_value_def)

lemma error_set_copy [simp]: "error_set (Error_copy e) = error_set e"
  by (simp add: error_set_def)

lemma Error_copy_code [simp]: "Error_copy (Error_code c) = Error_code c"
  by (simp add: Error_copy_def error_defs)

lemma Error_copy_message [simp]: "Error_copy (Error_message c m) = Error_message c m"
  by (simp add: Error_copy_def error_defs)

lemma Error_copy_fatal [simp]: "Error_copy (Error_fatal c m f) = Error_fatal c m f"
  by (simp add: Error_copy_def error_defs)

lemma error_set_code [simp]: "error_set (Error_code c) \<longleftrightarrow> c \<noteq> RD_KAFKA_RESP_ERR_NO_ERROR"
  by (simp add: error_set_def)

lemma error_set_default [simp]: "\<not> error_set Error_default" "\<not> error_set (Error_rich None)"
  by (simp_all add: error_set_def)

section \<open>Exceptions\<close>

text \<open>
  \<open>Out_of_fuel\<close> is no exception of the code: it is the outcome of a loop the model stops because
  its fuel is used up, so that a theorem can say that enough fuel never ends there.
\<close>

datatype exn = KafkaException Error | StdException std_exn | Out_of_fuel

definition throw_error :: "Error \<Rightarrow> exn" where
  \<comment> \<open>\<open>KAFKA_THROW_ERROR\<close>: the exception holds a copy of the error\<close>
  "throw_error e = KafkaException (Error_copy e)"

definition throw_if :: "Error \<Rightarrow> ('s, exn, unit) prog" where
  \<comment> \<open>\<open>KAFKA_THROW_IF_WITH_ERROR\<close>\<close>
  "throw_if e = (if error_set e then throw (throw_error e) else ret ())"

definition kafka_exception_what :: "rdkafka_lib \<Rightarrow> string \<Rightarrow> string \<Rightarrow> nat \<Rightarrow> Error \<Rightarrow> string" where
  "kafka_exception_what L localTime filename lineno e =
     localTime @ '': '' @ error_toString L e @ '' ('' @ filename @ '':'' @ show_nat lineno @ '')''"

definition lift_std :: "std_exn + 'a \<Rightarrow> exn + 'a" where
  "lift_std r = (case r of Inl e \<Rightarrow> Inl (StdException e) | Inr x \<Rightarrow> Inr x)"

lemma throw_if_apply [prog_simps, simp]:
  "throw_if e s = (if error_set e then (Inl (throw_error e), s) else (Inr (), s))"
  by (simp add: throw_if_def)

lemma preserves_throw_if [inv_intros]: "preserves I (throw_if e)"
  by (simp add: preserves_def)

section \<open>Properties\<close>

text \<open>Copying an error, as every throw does, keeps its code, its fatal flag and its retriable
  flag; its message is the detailed one if there is one and the text of the code otherwise; and
  copying again changes nothing but the flag no accessor reads.\<close>

lemma error_copy_keeps:
  "error_value (Error_copy e) = error_value e \<and> error_isFatal (Error_copy e) = error_isFatal e \<and>
   error_isRetriable (Error_copy e) = error_isRetriable e \<and>
   error_message L (Error_copy e) =
     (case messageOpt e of Some m \<Rightarrow> m | None \<Rightarrow> rd_kafka_err2str L (error_value e)) \<and>
   Error_copy (Error_copy e) = (Error_copy e)\<lparr>txnAbortFlag := False\<rparr>"
  by (cases "rkError e")
     (auto simp: Error_copy_def error_value_def error_isFatal_def error_isRetriable_def
       error_transactionRequiresAbort_def error_message_def split: option.split)

text \<open>The copy loses what only the rich error knows: the accessor for the abortable-transaction
  flag does not read the field the assignment fills, so no copied error, and so no thrown exception,
  ever asks for the transaction to be aborted, and the library's message is replaced by the text of
  the code.\<close>

lemma error_copy_loses_abort:
  "\<not> error_transactionRequiresAbort (Error_copy e) \<and>
   error_message L (Error_copy (Error_rich (Some r))) = rd_kafka_err2str L (rd_kafka_error_code r) \<and>
   error_transactionRequiresAbort (Error_rich (Some r)) = rd_kafka_error_txn_requires_abort r"
  by (simp add: Error_copy_def error_defs error_message_def)

end
