(* ===== verification/Ordered_Containers.thy ===== *)
theory Ordered_Containers
  imports Prelude
begin

text \<open>
  \<open>std::set\<close> and \<open>std::map\<close> as the code uses them: containers that are iterated in the order
  of their keys. A set is a strictly sorted list, a map an association list with strictly
  sorted keys, so that a range-based \<open>for\<close> over the container is a recursion over the list.
  The operations are those of the code: \<open>insert\<close>/\<open>emplace\<close>, \<open>operator[]\<close> on the left of an
  assignment, \<open>erase\<close> and \<open>find\<close>. The locale \<open>ordered_map\<close> is the interface the client
  theories rely on.
\<close>

section \<open>Sets\<close>

fun oset_insert :: "'a::linorder \<Rightarrow> 'a list \<Rightarrow> 'a list" where
  "oset_insert x [] = [x]"
| "oset_insert x (y # ys) =
     (if x < y then x # y # ys else if x = y then y # ys else y # oset_insert x ys)"

definition oset_erase :: "'a \<Rightarrow> 'a list \<Rightarrow> 'a list" where
  "oset_erase x xs = filter (\<lambda>y. y \<noteq> x) xs"

definition oset_of_list :: "'a::linorder list \<Rightarrow> 'a list" where
  "oset_of_list xs = foldl (\<lambda>acc x. oset_insert x acc) [] xs"

lemma set_oset_insert [simp]: "set (oset_insert x xs) = insert x (set xs)"
  by (induction xs) auto

lemma sorted_oset_insert [simp]: "strictly_sorted xs \<Longrightarrow> strictly_sorted (oset_insert x xs)"
  by (induction xs) auto

lemma set_oset_erase [simp]: "set (oset_erase x xs) = set xs - {x}"
  by (auto simp: oset_erase_def)

lemma sorted_oset_erase [simp]: "strictly_sorted xs \<Longrightarrow> strictly_sorted (oset_erase x xs)"
  by (auto simp: oset_erase_def sorted_wrt_filter)

lemma foldl_oset_insert_set:
  "set (foldl (\<lambda>acc x. oset_insert x acc) acc xs) = set acc \<union> set xs"
  by (induction xs arbitrary: acc) auto

lemma foldl_oset_insert_sorted:
  "strictly_sorted acc \<Longrightarrow> strictly_sorted (foldl (\<lambda>acc x. oset_insert x acc) acc xs)"
  by (induction xs arbitrary: acc) auto

lemma set_oset_of_list [simp]: "set (oset_of_list xs) = set xs"
  by (simp add: oset_of_list_def foldl_oset_insert_set)

lemma sorted_oset_of_list [simp]: "strictly_sorted (oset_of_list xs)"
  by (simp add: oset_of_list_def foldl_oset_insert_sorted)

lemma strictly_sorted_eqI:
  "strictly_sorted xs \<Longrightarrow> strictly_sorted ys \<Longrightarrow> set xs = set ys \<Longrightarrow> xs = ys"
  by (metis strict_sorted_equal)

lemma oset_of_list_sorted [simp]: "strictly_sorted xs \<Longrightarrow> oset_of_list xs = xs"
  by (rule strictly_sorted_eqI) simp_all

section \<open>Maps\<close>

type_synonym ('k, 'v) omap = "('k \<times> 'v) list"

fun omap_put :: "'k::linorder \<Rightarrow> 'v \<Rightarrow> ('k, 'v) omap \<Rightarrow> ('k, 'v) omap" where
  "omap_put k v [] = [(k, v)]"
| "omap_put k v ((k', v') # m) =
     (if k < k' then (k, v) # (k', v') # m
      else if k = k' then (k, v) # m
      else (k', v') # omap_put k v m)"

definition omap_find :: "'k \<Rightarrow> ('k, 'v) omap \<Rightarrow> 'v option" where
  "omap_find k m = map_of m k"

definition omap_emplace :: "'k::linorder \<Rightarrow> 'v \<Rightarrow> ('k, 'v) omap \<Rightarrow> ('k, 'v) omap" where
  "omap_emplace k v m = (case omap_find k m of None \<Rightarrow> omap_put k v m | Some _ \<Rightarrow> m)"

definition omap_erase :: "'k \<Rightarrow> ('k, 'v) omap \<Rightarrow> ('k, 'v) omap" where
  "omap_erase k m = filter (\<lambda>kv. fst kv \<noteq> k) m"

definition omap_ok :: "('k::linorder, 'v) omap \<Rightarrow> bool" where
  "omap_ok m \<longleftrightarrow> strictly_sorted (map fst m)"

lemma omap_ok_Nil [simp]: "omap_ok []"
  by (simp add: omap_ok_def)

lemma keys_omap_put [simp]: "map fst (omap_put k v m) = oset_insert k (map fst m)"
  by (induction k v m rule: omap_put.induct) auto

lemma omap_ok_put [simp]: "omap_ok m \<Longrightarrow> omap_ok (omap_put k v m)"
  by (simp add: omap_ok_def)

lemma omap_ok_erase [simp]: "omap_ok m \<Longrightarrow> omap_ok (omap_erase k m)"
  by (simp add: omap_ok_def omap_erase_def sorted_wrt_map sorted_wrt_filter)

lemma omap_ok_emplace [simp]: "omap_ok m \<Longrightarrow> omap_ok (omap_emplace k v m)"
  by (simp add: omap_emplace_def split: option.split)

lemma omap_ok_Cons:
  "omap_ok ((k, v) # m) \<longleftrightarrow> omap_ok m \<and> (\<forall>k'\<in>fst ` set m. k < k')"
  by (auto simp: omap_ok_def)

lemma omap_find_put [simp]: "omap_find k' (omap_put k v m) = (if k' = k then Some v else omap_find k' m)"
  by (induction k v m rule: omap_put.induct) (auto simp: omap_find_def)

lemma omap_find_erase [simp]:
  "omap_find k' (omap_erase k m) = (if k' = k then None else omap_find k' m)"
  by (induction m) (auto simp: omap_find_def omap_erase_def)

lemma omap_find_emplace [simp]:
  "omap_find k' (omap_emplace k v m) =
     (if k' = k then Some (case omap_find k m of None \<Rightarrow> v | Some w \<Rightarrow> w) else omap_find k' m)"
  by (simp add: omap_emplace_def split: option.split)

lemma omap_find_Nil [simp]: "omap_find k [] = None"
  by (simp add: omap_find_def)

lemma omap_find_Cons [simp]: "omap_find k ((k', v) # m) = (if k = k' then Some v else omap_find k m)"
  by (auto simp: omap_find_def)

lemma omap_find_None: "omap_find k m = None \<longleftrightarrow> k \<notin> fst ` set m"
  by (simp add: omap_find_def map_of_eq_None_iff)

lemma omap_ok_distinct: "omap_ok m \<Longrightarrow> distinct (map fst m)"
  unfolding omap_ok_def using strict_sorted_iff by blast

lemma omap_find_in: "omap_ok m \<Longrightarrow> (k, v) \<in> set m \<Longrightarrow> omap_find k m = Some v"
  by (simp add: omap_find_def omap_ok_distinct)

lemma omap_find_Some_in: "omap_find k m = Some v \<Longrightarrow> (k, v) \<in> set m"
  unfolding omap_find_def by (rule map_of_SomeD)

lemma omap_eqI:
  assumes "omap_ok m" "omap_ok m'" "\<And>k. omap_find k m = omap_find k m'"
  shows "m = m'"
proof -
  have keys: "map fst m = map fst m'"
  proof (rule strictly_sorted_eqI)
    show "strictly_sorted (map fst m)" "strictly_sorted (map fst m')"
      using assms by (simp_all add: omap_ok_def)
    show "set (map fst m) = set (map fst m')"
      using assms(3) omap_find_None by (metis list.set_map subsetI subset_antisym)
  qed
  have by_keys: "n = map (\<lambda>k. (k, the (omap_find k n))) (map fst n)" if "omap_ok n" for n :: "('a, 'b) omap"
    using that by (auto simp: omap_find_in intro!: map_idI [symmetric])
  show ?thesis
    using by_keys [OF assms(1)] by_keys [OF assms(2)] keys assms(3) by simp
qed

text \<open>Building a map by assigning a list of entries in order: the last assignment wins.\<close>

definition omap_of_list :: "('k::linorder \<times> 'v) list \<Rightarrow> ('k, 'v) omap" where
  "omap_of_list kvs = foldl (\<lambda>m kv. omap_put (fst kv) (snd kv) m) [] kvs"

lemma foldl_omap_put_ok:
  "omap_ok m \<Longrightarrow> omap_ok (foldl (\<lambda>m kv. omap_put (fst kv) (snd kv) m) m kvs)"
  by (induction kvs arbitrary: m) auto

lemma foldl_omap_put_find:
  "omap_find k (foldl (\<lambda>m kv. omap_put (fst kv) (snd kv) m) m kvs) =
     (case map_of (rev kvs) k of None \<Rightarrow> omap_find k m | Some v \<Rightarrow> Some v)"
  by (induction kvs arbitrary: m) (auto simp: map_add_def split: option.splits)

lemma omap_ok_of_list [simp]: "omap_ok (omap_of_list kvs)"
  by (simp add: omap_of_list_def foldl_omap_put_ok)

lemma omap_find_of_list: "omap_find k (omap_of_list kvs) = map_of (rev kvs) k"
  by (simp add: omap_of_list_def foldl_omap_put_find split: option.split)

lemma omap_of_list_id [simp]:
  assumes "omap_ok m"
  shows "omap_of_list m = m"
proof (rule omap_eqI)
  have "map_of (rev m) = map_of m"
    using omap_ok_distinct [OF assms] by (simp add: map_of_inject_set rev_map [symmetric])
  then show "omap_find k (omap_of_list m) = omap_find k m" for k
    by (metis omap_find_of_list omap_find_def)
qed (simp_all add: assms)

section \<open>The interface of a map\<close>

locale ordered_map =
  fixes empty_map :: 'm
    and find :: "'k \<Rightarrow> 'm \<Rightarrow> 'v option"
    and put :: "'k \<Rightarrow> 'v \<Rightarrow> 'm \<Rightarrow> 'm"
    and erase :: "'k \<Rightarrow> 'm \<Rightarrow> 'm"
    and ok :: "'m \<Rightarrow> bool"
  assumes ok_empty: "ok empty_map"
    and find_empty: "find k empty_map = None"
    and ok_put: "ok m \<Longrightarrow> ok (put k v m)"
    and ok_erase: "ok m \<Longrightarrow> ok (erase k m)"
    and find_put: "ok m \<Longrightarrow> find k' (put k v m) = (if k' = k then Some v else find k' m)"
    and find_erase: "ok m \<Longrightarrow> find k' (erase k m) = (if k' = k then None else find k' m)"
    and ext: "ok m \<Longrightarrow> ok m' \<Longrightarrow> (\<And>k. find k m = find k m') \<Longrightarrow> m = m'"
begin

lemma put_put: "ok m \<Longrightarrow> put k v (put k w m) = put k v m"
  by (rule ext) (auto simp: ok_put find_put)

lemma put_commute: "ok m \<Longrightarrow> k \<noteq> k' \<Longrightarrow> put k v (put k' w m) = put k' w (put k v m)"
  by (rule ext) (auto simp: ok_put find_put)

lemma erase_put: "ok m \<Longrightarrow> erase k (put k v m) = erase k m"
  by (rule ext) (auto simp: ok_put ok_erase find_put find_erase)

lemma put_same: "ok m \<Longrightarrow> find k m = Some v \<Longrightarrow> put k v m = m"
  by (rule ext) (auto simp: ok_put find_put)

lemma erase_absent: "ok m \<Longrightarrow> find k m = None \<Longrightarrow> erase k m = m"
  by (rule ext) (auto simp: ok_erase find_erase)

end

interpretation om: ordered_map "[] :: ('k::linorder, 'v) omap" omap_find omap_put omap_erase omap_ok
  by unfold_locales (auto intro: omap_eqI)

end
