(* ===== verification/Client_Properties.thy ===== *)
theory Client_Properties
  imports Errors Ordered_Containers
begin

text \<open>
  \<open>Properties.h\<close>, \<open>Interceptors.h\<close>, \<open>ClientCommon.h\<close> and the keys of \<open>ClientConfig.h\<close>,
  \<open>ProducerConfig.h\<close> and \<open>ConsumerConfig.h\<close>: the configuration map with its typed values, the
  check of a key against the type of its value, and the masked printed form.
\<close>

section \<open>Configuration keys\<close>

definition ENABLE_MANUAL_EVENTS_POLL :: string where
  "ENABLE_MANUAL_EVENTS_POLL = ''enable.manual.events.poll''"

definition LOG_CB :: string where "LOG_CB = ''log_cb''"

definition ERROR_CB :: string where "ERROR_CB = ''error_cb''"

definition STATS_CB :: string where "STATS_CB = ''stats_cb''"

definition OAUTHBEARER_TOKEN_REFRESH_CB :: string where
  "OAUTHBEARER_TOKEN_REFRESH_CB = ''oauthbearer_token_refresh_cb''"

definition INTERCEPTORS :: string where "INTERCEPTORS = ''interceptors''"

definition BOOTSTRAP_SERVERS :: string where "BOOTSTRAP_SERVERS = ''bootstrap.servers''"

definition CLIENT_ID :: string where "CLIENT_ID = ''client.id''"

definition LOG_LEVEL :: string where "LOG_LEVEL = ''log_level''"

definition SASL_USERNAME :: string where "SASL_USERNAME = ''sasl.username''"

definition SASL_PASSWORD :: string where "SASL_PASSWORD = ''sasl.password''"

definition SASL_OAUTHBEARER_CLIENT_SECRET :: string where
  "SASL_OAUTHBEARER_CLIENT_SECRET = ''sasl.oauthbearer.client.secret''"

definition GROUP_ID :: string where "GROUP_ID = ''group.id''"

definition ENABLE_AUTO_COMMIT :: string where "ENABLE_AUTO_COMMIT = ''enable.auto.commit''"

definition MAX_POLL_RECORDS :: string where "MAX_POLL_RECORDS = ''max.poll.records''"

definition PARTITIONER :: string where "PARTITIONER = ''partitioner''"

definition ENABLE_IDEMPOTENCE :: string where "ENABLE_IDEMPOTENCE = ''enable.idempotence''"

definition MAX_IN_FLIGHT :: string where "MAX_IN_FLIGHT = ''max.in.flight''"

definition ACKS :: string where "ACKS = ''acks''"

lemmas config_keys = ENABLE_MANUAL_EVENTS_POLL_def LOG_CB_def ERROR_CB_def STATS_CB_def
  OAUTHBEARER_TOKEN_REFRESH_CB_def INTERCEPTORS_def BOOTSTRAP_SERVERS_def CLIENT_ID_def LOG_LEVEL_def
  SASL_USERNAME_def SASL_PASSWORD_def SASL_OAUTHBEARER_CLIENT_SECRET_def GROUP_ID_def
  ENABLE_AUTO_COMMIT_def MAX_POLL_RECORDS_def PARTITIONER_def ENABLE_IDEMPOTENCE_def MAX_IN_FLIGHT_def ACKS_def

section \<open>Callbacks and interceptors\<close>

text \<open>
  A \<open>std::function\<close> is a handle that the code stores, tests for emptiness and calls; \<open>None\<close> is
  the empty function. What a call does is the user's code: a call is an event of the model.
\<close>

type_synonym callback = "nat option"

record Interceptors =
  threadStartCb :: callback
  threadExitCb :: callback
  brokerStateChangeCb :: callback
  interceptors_valid :: bool

definition Interceptors_default :: Interceptors where
  "Interceptors_default =
     \<lparr>threadStartCb = None, threadExitCb = None, brokerStateChangeCb = None, interceptors_valid = False\<rparr>"

definition onThreadStart :: "callback \<Rightarrow> Interceptors \<Rightarrow> Interceptors" where
  "onThreadStart cb i = i\<lparr>interceptors_valid := True, threadStartCb := cb\<rparr>"

definition onThreadExit :: "callback \<Rightarrow> Interceptors \<Rightarrow> Interceptors" where
  "onThreadExit cb i = i\<lparr>interceptors_valid := True, threadExitCb := cb\<rparr>"

definition onBrokerStateChange :: "callback \<Rightarrow> Interceptors \<Rightarrow> Interceptors" where
  "onBrokerStateChange cb i = i\<lparr>interceptors_valid := True, brokerStateChangeCb := cb\<rparr>"

definition interceptors_empty :: "Interceptors \<Rightarrow> bool" where
  "interceptors_empty i \<longleftrightarrow> \<not> interceptors_valid i"

record SaslOauthbearerToken =
  token_value :: string
  mdLifetime :: int
  mdPrincipalName :: string
  extensions :: "(string, string) omap"

section \<open>Values\<close>

datatype value_object =
    StringObj string
  | LogCallbackObj callback
  | ErrorCallbackObj callback
  | StatsCallbackObj callback
  | OauthbearerObj callback
  | InterceptorsObj Interceptors

record ValueType =
  expectedKey :: string
  value_obj :: value_object

definition expected_key_of :: "value_object \<Rightarrow> string" where
  "expected_key_of v = (case v of
       StringObj _ \<Rightarrow> []
     | LogCallbackObj _ \<Rightarrow> ''log_cb''
     | ErrorCallbackObj _ \<Rightarrow> ''error_cb''
     | StatsCallbackObj _ \<Rightarrow> ''stats_cb''
     | OauthbearerObj _ \<Rightarrow> ''oauthbearer_token_refresh_cb''
     | InterceptorsObj _ \<Rightarrow> ''interceptors'')"

definition ValueType_of :: "value_object \<Rightarrow> ValueType" where
  \<comment> \<open>the converting constructors\<close>
  "ValueType_of v = \<lparr>expectedKey = expected_key_of v, value_obj = v\<rparr>"

definition nonStringValueKeys :: "string list" where
  "nonStringValueKeys =
     [''log_cb'', ''error_cb'', ''stats_cb'', ''oauthbearer_token_refresh_cb'', ''interceptors'']"

definition validate :: "string \<Rightarrow> ValueType \<Rightarrow> exn + ValueType" where
  "validate key v =
     (if (expectedKey v = [] \<and> list_ex (\<lambda>k. k = key) nonStringValueKeys) \<or>
         (expectedKey v \<noteq> [] \<and> key \<noteq> expectedKey v)
      then Inl (StdException (Runtime_error (''Invalid key/value for configuration: '' @ key)))
      else Inr v)"

text \<open>The name \<open>typeid(T).name()\<close> of a callback type is the compiler's, a parameter.\<close>

datatype callback_type =
  LogCallbackT | ErrorCallbackT | StatsCallbackT | OauthbearerTokenRefreshCallbackT | InterceptorsT

definition value_toString :: "(callback_type \<Rightarrow> string) \<Rightarrow> ValueType \<Rightarrow> string" where
  "value_toString typeid v = (case value_obj v of
       StringObj s \<Rightarrow> s
     | LogCallbackObj _ \<Rightarrow> typeid LogCallbackT
     | ErrorCallbackObj _ \<Rightarrow> typeid ErrorCallbackT
     | StatsCallbackObj _ \<Rightarrow> typeid StatsCallbackT
     | OauthbearerObj _ \<Rightarrow> typeid OauthbearerTokenRefreshCallbackT
     | InterceptorsObj _ \<Rightarrow> typeid InterceptorsT)"

definition value_eq :: "(callback_type \<Rightarrow> string) \<Rightarrow> ValueType \<Rightarrow> ValueType \<Rightarrow> bool" where
  "value_eq typeid v w \<longleftrightarrow> value_toString typeid v = value_toString typeid w"

text \<open>\<open>getValue<T>\<close>: a \<open>dynamic_cast\<close> of a reference, which throws when the type differs.\<close>

definition as_string :: "value_object \<Rightarrow> std_exn + string" where
  "as_string v = (case v of StringObj s \<Rightarrow> Inr s | _ \<Rightarrow> Inl Bad_cast)"

definition as_LogCallback :: "value_object \<Rightarrow> std_exn + callback" where
  "as_LogCallback v = (case v of LogCallbackObj cb \<Rightarrow> Inr cb | _ \<Rightarrow> Inl Bad_cast)"

definition as_ErrorCallback :: "value_object \<Rightarrow> std_exn + callback" where
  "as_ErrorCallback v = (case v of ErrorCallbackObj cb \<Rightarrow> Inr cb | _ \<Rightarrow> Inl Bad_cast)"

definition as_StatsCallback :: "value_object \<Rightarrow> std_exn + callback" where
  "as_StatsCallback v = (case v of StatsCallbackObj cb \<Rightarrow> Inr cb | _ \<Rightarrow> Inl Bad_cast)"

definition as_Oauthbearer :: "value_object \<Rightarrow> std_exn + callback" where
  "as_Oauthbearer v = (case v of OauthbearerObj cb \<Rightarrow> Inr cb | _ \<Rightarrow> Inl Bad_cast)"

definition as_Interceptors :: "value_object \<Rightarrow> std_exn + Interceptors" where
  "as_Interceptors v = (case v of InterceptorsObj i \<Rightarrow> Inr i | _ \<Rightarrow> Inl Bad_cast)"

section \<open>Properties\<close>

type_synonym Properties = "(string, ValueType) omap"

fun validate_all :: "(string \<times> ValueType) list \<Rightarrow> exn + unit" where
  "validate_all [] = Inr ()"
| "validate_all ((k, v) # kvs) = (case validate k v of Inl e \<Rightarrow> Inl e | Inr _ \<Rightarrow> validate_all kvs)"

definition Properties_of_map :: "(string, ValueType) omap \<Rightarrow> exn + Properties" where
  "Properties_of_map kvMap = (case validate_all kvMap of Inl e \<Rightarrow> Inl e | Inr _ \<Rightarrow> Inr kvMap)"

definition props_put_value :: "string \<Rightarrow> ValueType \<Rightarrow> (Properties, exn, unit) prog" where
  \<comment> \<open>the value is checked before \<open>operator[]\<close> makes the entry\<close>
  "props_put_value key v = (\<lambda>p. case validate key v of
       Inl e \<Rightarrow> (Inl e, p)
     | Inr v' \<Rightarrow> (Inr (), omap_put key v' p))"

definition props_put :: "string \<Rightarrow> value_object \<Rightarrow> (Properties, exn, unit) prog" where
  "props_put key v = props_put_value key (ValueType_of v)"

definition props_remove :: "string \<Rightarrow> Properties \<Rightarrow> Properties" where
  "props_remove key p = omap_erase key p"

definition props_contains :: "string \<Rightarrow> Properties \<Rightarrow> bool" where
  "props_contains key p \<longleftrightarrow> omap_find key p \<noteq> None"

definition props_get :: "(value_object \<Rightarrow> std_exn + 'a) \<Rightarrow> string \<Rightarrow> Properties \<Rightarrow> exn + 'a" where
  \<comment> \<open>\<open>get<T>\<close>, with the cast to \<open>T\<close> as the argument\<close>
  "props_get cast key p = (case omap_find key p of
       None \<Rightarrow> Inl (throw_error (Error_message RD_KAFKA_RESP_ERR__INVALID_ARG
                 (''Failed to get \"'' @ key @ ''\" from Properties!'')))
     | Some v \<Rightarrow> lift_std (cast (value_obj v)))"

definition props_getProperty :: "string \<Rightarrow> Properties \<Rightarrow> exn + string option" where
  "props_getProperty key p =
     (if \<not> props_contains key p then Inr None
      else case props_get as_string key p of
          Inr s \<Rightarrow> Inr (Some s)
        | Inl (StdException Bad_cast) \<Rightarrow> Inr None
        | Inl e \<Rightarrow> Inl e)"

definition props_eraseProperty :: "string \<Rightarrow> Properties \<Rightarrow> Properties" where
  "props_eraseProperty key p = omap_erase key p"

definition props_eq :: "(callback_type \<Rightarrow> string) \<Rightarrow> Properties \<Rightarrow> Properties \<Rightarrow> bool" where
  "props_eq typeid p q \<longleftrightarrow> list_all2 (\<lambda>kv kw. fst kv = fst kw \<and> value_eq typeid (snd kv) (snd kw)) p q"

text \<open>
  The sensitive keys are those the regular expression
  \<open>.+\.password|.+\.username|.+secret|.+key|.+pem\<close> matches as a whole; the dot matches every
  character but the two line terminators.
\<close>

definition sensitive_suffixes :: "string list" where
  "sensitive_suffixes = [''.password'', ''.username'', ''secret'', ''key'', ''pem'']"

definition regex_dot :: "char \<Rightarrow> bool" where
  "regex_dot c \<longleftrightarrow> c \<noteq> CHR 0x0A \<and> c \<noteq> CHR 0x0D"

definition isSensitive :: "string \<Rightarrow> bool" where
  "isSensitive key \<longleftrightarrow> list_ex (\<lambda>suf.
     length suf < length key \<and> drop (length key - length suf) key = suf \<and>
     list_all regex_dot (take (length key - length suf) key)) sensitive_suffixes"

definition props_toString :: "(callback_type \<Rightarrow> string) \<Rightarrow> Properties \<Rightarrow> string" where
  "props_toString typeid p =
     foldl (\<lambda>acc kv. acc @ (if acc = [] then [] else ''|'') @ fst kv @ ''='' @
       (if isSensitive (fst kv) then ''*'' else value_toString typeid (snd kv))) [] p"

section \<open>The typed map\<close>

text \<open>
  The specification: a partial map from keys to values in which a callback key holds a value of its
  own callback type and every other key a string.
\<close>

definition key_fits :: "string \<Rightarrow> value_object \<Rightarrow> bool" where
  "key_fits k v \<longleftrightarrow> (if expected_key_of v = [] then k \<notin> set nonStringValueKeys else k = expected_key_of v)"

definition props_ok :: "Properties \<Rightarrow> bool" where
  "props_ok p \<longleftrightarrow> omap_ok p \<and> (\<forall>kv\<in>set p. snd kv = ValueType_of (value_obj (snd kv)) \<and>
     key_fits (fst kv) (value_obj (snd kv)))"

definition props_abs :: "Properties \<Rightarrow> string \<rightharpoonup> value_object" where
  "props_abs p = (\<lambda>k. map_option value_obj (omap_find k p))"

datatype props_op = Put string value_object | Remove string

definition props_step :: "props_op \<Rightarrow> Properties \<Rightarrow> Properties" where
  "props_step op p = (case op of Put k v \<Rightarrow> snd (props_put k v p) | Remove k \<Rightarrow> props_remove k p)"

definition spec_step :: "props_op \<Rightarrow> (string \<rightharpoonup> value_object) \<Rightarrow> (string \<rightharpoonup> value_object)" where
  "spec_step op m = (case op of
       Put k v \<Rightarrow> if key_fits k v then m(k \<mapsto> v) else m
     | Remove k \<Rightarrow> m(k := None))"

definition prop_string :: "string \<Rightarrow> Properties \<Rightarrow> string option" where
  "prop_string key p = (case omap_find key p of
       Some v \<Rightarrow> (case value_obj v of StringObj s \<Rightarrow> Some s | _ \<Rightarrow> None)
     | None \<Rightarrow> None)"

lemma expectedKey_of [simp]: "expectedKey (ValueType_of v) = expected_key_of v"
  "value_obj (ValueType_of v) = v"
  by (simp_all add: ValueType_of_def)

lemma validate_of:
  "validate k (ValueType_of v) =
     (if key_fits k v then Inr (ValueType_of v)
      else Inl (StdException (Runtime_error (''Invalid key/value for configuration: '' @ k))))"
  by (auto simp: validate_def key_fits_def list_ex_iff)

lemma props_put_apply [prog_simps]:
  "props_put k v p =
     (if key_fits k v then (Inr (), omap_put k (ValueType_of v) p)
      else (Inl (StdException (Runtime_error (''Invalid key/value for configuration: '' @ k))), p))"
  by (simp add: props_put_def props_put_value_def validate_of)

lemma set_omap_put: "x \<in> set (omap_put k v m) \<Longrightarrow> x = (k, v) \<or> x \<in> set m"
  by (induction k v m rule: omap_put.induct) (auto split: if_splits)

lemma props_ok_Nil [simp]: "props_ok []"
  by (simp add: props_ok_def)

lemma props_ok_put [simp]: "props_ok p \<Longrightarrow> key_fits k v \<Longrightarrow> props_ok (omap_put k (ValueType_of v) p)"
  by (auto simp: props_ok_def dest!: set_omap_put)

lemma props_ok_erase [simp]: "props_ok p \<Longrightarrow> props_ok (omap_erase k p)"
  by (auto simp: props_ok_def) (auto simp: omap_erase_def)

lemma props_ok_omap [simp]: "props_ok p \<Longrightarrow> omap_ok p"
  by (simp add: props_ok_def)

lemma props_ok_find: "props_ok p \<Longrightarrow> omap_find k p = Some v \<Longrightarrow> key_fits k (value_obj v)"
  using omap_find_Some_in unfolding props_ok_def by fastforce

lemma props_ok_value: "props_ok p \<Longrightarrow> (k, v) \<in> set p \<Longrightarrow> v = ValueType_of (value_obj v) \<and> key_fits k (value_obj v)"
  unfolding props_ok_def by fastforce

lemma getProperty_eq: "props_getProperty k p = Inr (prop_string k p)"
  by (auto simp: props_getProperty_def props_contains_def props_get_def prop_string_def lift_std_def
      as_string_def split: option.splits value_object.splits)

lemma prop_string_put [simp]:
  "prop_string k (omap_put k' (ValueType_of (StringObj s)) p) = (if k = k' then Some s else prop_string k p)"
  by (simp add: prop_string_def)

lemma expected_key_nonempty: "expected_key_of v = [] \<longleftrightarrow> (\<exists>s. v = StringObj s)"
  by (cases v) (simp_all add: expected_key_of_def)

lemma key_fits_string: "key_fits k (StringObj s) \<longleftrightarrow> k \<notin> set nonStringValueKeys"
  by (simp add: key_fits_def expected_key_of_def)

lemma props_step_ok: "props_ok p \<Longrightarrow> props_ok (props_step op p)"
  by (cases op) (simp_all add: props_step_def props_put_apply props_remove_def)

lemma props_step_abs: "props_ok p \<Longrightarrow> props_abs (props_step op p) = spec_step op (props_abs p)"
  by (cases op)
     (auto simp: props_step_def spec_step_def props_put_apply props_remove_def props_abs_def fun_eq_iff)

lemma props_run:
  "props_ok p \<Longrightarrow> props_ok (fold props_step ops p) \<and>
     props_abs (fold props_step ops p) = fold spec_step ops (props_abs p)"
  by (induction ops arbitrary: p) (simp_all add: props_step_ok props_step_abs)

lemma props_ok_typed:
  assumes "props_ok p" "omap_find k p = Some v"
  shows "k = ''log_cb'' \<Longrightarrow> \<exists>cb. value_obj v = LogCallbackObj cb"
    and "k = ''error_cb'' \<Longrightarrow> \<exists>cb. value_obj v = ErrorCallbackObj cb"
    and "k = ''stats_cb'' \<Longrightarrow> \<exists>cb. value_obj v = StatsCallbackObj cb"
    and "k = ''oauthbearer_token_refresh_cb'' \<Longrightarrow> \<exists>cb. value_obj v = OauthbearerObj cb"
    and "k = ''interceptors'' \<Longrightarrow> \<exists>i. value_obj v = InterceptorsObj i"
    and "k \<notin> set nonStringValueKeys \<Longrightarrow> \<exists>s. value_obj v = StringObj s"
  using props_ok_find [OF assms]
  by (cases "value_obj v"; simp add: key_fits_def expected_key_of_def nonStringValueKeys_def)+

lemma no_bad_cast:
  "(\<And>v. omap_find k p = Some v \<Longrightarrow> cast (value_obj v) \<noteq> Inl Bad_cast) \<Longrightarrow>
     props_get cast k p \<noteq> Inl (StdException Bad_cast)"
  by (auto simp: props_get_def lift_std_def throw_error_def split: option.splits sum.splits)

lemma callback_key_reads:
  assumes "props_ok p"
  shows "props_get as_LogCallback ''log_cb'' p \<noteq> Inl (StdException Bad_cast)"
    and "props_get as_ErrorCallback ''error_cb'' p \<noteq> Inl (StdException Bad_cast)"
    and "props_get as_StatsCallback ''stats_cb'' p \<noteq> Inl (StdException Bad_cast)"
    and "props_get as_Oauthbearer ''oauthbearer_token_refresh_cb'' p \<noteq> Inl (StdException Bad_cast)"
    and "props_get as_Interceptors ''interceptors'' p \<noteq> Inl (StdException Bad_cast)"
proof -
  note typed = props_ok_typed [OF assms]
  show "props_get as_LogCallback ''log_cb'' p \<noteq> Inl (StdException Bad_cast)"
    by (rule no_bad_cast) (auto dest: typed(1) simp: as_LogCallback_def)
  show "props_get as_ErrorCallback ''error_cb'' p \<noteq> Inl (StdException Bad_cast)"
    by (rule no_bad_cast) (auto dest: typed(2) simp: as_ErrorCallback_def)
  show "props_get as_StatsCallback ''stats_cb'' p \<noteq> Inl (StdException Bad_cast)"
    by (rule no_bad_cast) (auto dest: typed(3) simp: as_StatsCallback_def)
  show "props_get as_Oauthbearer ''oauthbearer_token_refresh_cb'' p \<noteq> Inl (StdException Bad_cast)"
    by (rule no_bad_cast) (auto dest: typed(4) simp: as_Oauthbearer_def)
  show "props_get as_Interceptors ''interceptors'' p \<noteq> Inl (StdException Bad_cast)"
    by (rule no_bad_cast) (auto dest: typed(5) simp: as_Interceptors_def)
qed

lemma string_key_read:
  assumes "props_ok p" "k \<notin> set nonStringValueKeys"
  shows "props_get as_string k p \<noteq> Inl (StdException Bad_cast)"
    and "prop_string k p = (if props_contains k p then
       Some (case props_get as_string k p of Inr s \<Rightarrow> s | Inl _ \<Rightarrow> []) else None)"
  using props_ok_typed(6) [OF assms(1) _ assms(2)]
  by (auto simp: props_get_def prop_string_def props_contains_def as_string_def lift_std_def throw_error_def
      split: option.splits)

lemma callback_key_string: "props_ok p \<Longrightarrow> k \<in> set nonStringValueKeys \<Longrightarrow> prop_string k p = None"
  using props_ok_find [of p k]
  by (auto simp: prop_string_def key_fits_string split: option.splits value_object.splits)

section \<open>Properties of the configuration map\<close>

text \<open>C17. Refinement: whatever sequence of \<open>put\<close> and \<open>remove\<close> calls is made from the empty
  configuration, the map stays sorted and well typed, and reads as the partial map that takes
  exactly the puts whose value has the type of its key, the last one winning; a rejected put
  throws and changes nothing.\<close>

theorem properties_refine_typed_map:
  "props_ok (fold props_step ops []) \<and>
   props_abs (fold props_step ops []) = fold spec_step ops Map.empty \<and>
   props_put k v p = (if key_fits k v then (Inr (), omap_put k (ValueType_of v) p)
     else (Inl (StdException (Runtime_error (''Invalid key/value for configuration: '' @ k))), p))"
proof (intro conjI)
  show "props_ok (fold props_step ops [])"
    using props_run [of "[]" ops] by simp
  show "props_abs (fold props_step ops []) = fold spec_step ops Map.empty"
    using props_run [of "[]" ops] by (simp add: props_abs_def)
qed (simp_all add: props_put_apply)

text \<open>C40. Type safety of the reads: in a well-typed configuration the typed \<open>get\<close> of a callback key
  and of a string key never fails its cast, so the only exception of \<open>get\<close> is the one for a key
  that is absent, and \<open>getProperty\<close> never throws and answers exactly for the string values.\<close>

theorem typed_reads_never_bad_cast:
  assumes "props_ok p"
  shows "props_get as_LogCallback ''log_cb'' p \<noteq> Inl (StdException Bad_cast) \<and>
    props_get as_ErrorCallback ''error_cb'' p \<noteq> Inl (StdException Bad_cast) \<and>
    props_get as_StatsCallback ''stats_cb'' p \<noteq> Inl (StdException Bad_cast) \<and>
    props_get as_Oauthbearer ''oauthbearer_token_refresh_cb'' p \<noteq> Inl (StdException Bad_cast) \<and>
    props_get as_Interceptors ''interceptors'' p \<noteq> Inl (StdException Bad_cast) \<and>
    (k \<in> set nonStringValueKeys \<or> props_get as_string k p \<noteq> Inl (StdException Bad_cast)) \<and>
    props_getProperty k p = Inr (if k \<in> set nonStringValueKeys \<or> \<not> props_contains k p then None
       else Some (case props_get as_string k p of Inr s \<Rightarrow> s | Inl _ \<Rightarrow> []))"
proof (intro conjI)
  show "k \<in> set nonStringValueKeys \<or> props_get as_string k p \<noteq> Inl (StdException Bad_cast)"
    using string_key_read [OF assms] by blast
  show "props_getProperty k p = Inr (if k \<in> set nonStringValueKeys \<or> \<not> props_contains k p then None
       else Some (case props_get as_string k p of Inr s \<Rightarrow> s | Inl _ \<Rightarrow> []))"
    using string_key_read [OF assms] callback_key_string [OF assms]
    by (auto simp: getProperty_eq prop_string_def props_contains_def)
qed (rule callback_key_reads [OF assms])+

theorem typed_reads_never_bad_cast_witness:
  "props_get as_Interceptors ''interceptors'' (omap_put ''interceptors'' (ValueType_of (InterceptorsObj Interceptors_default)) [])
     \<noteq> Inl (StdException Bad_cast)"
  using typed_reads_never_bad_cast [of "omap_put ''interceptors'' (ValueType_of (InterceptorsObj Interceptors_default)) []" "''client.id''"]
    props_ok_put [of "[]" "''interceptors''" "InterceptorsObj Interceptors_default"]
  by (simp add: key_fits_def expected_key_of_def)

definition redact :: "(string \<times> ValueType \<Rightarrow> ValueType) \<Rightarrow> Properties \<Rightarrow> Properties" where
  "redact f p = map (\<lambda>kv. (fst kv, if isSensitive (fst kv) then f kv else snd kv)) p"

lemma foldl_map_cong:
  "(\<And>acc x. x \<in> set xs \<Longrightarrow> f acc (g x) = f acc x) \<Longrightarrow> foldl f acc (map g xs) = foldl f acc xs"
  by (induction xs arbitrary: acc) simp_all

text \<open>C39. Confidentiality: the printed configuration is a function of the keys and of the values
  that are not sensitive; replacing the value of every sensitive key by any other one, chosen per
  entry, prints the same, and the passwords, user names and client secrets of the configuration keys are
  sensitive.\<close>

theorem printed_properties_hide_secrets:
  "props_toString typeid (redact f p) = props_toString typeid p \<and>
   isSensitive SASL_PASSWORD \<and> isSensitive SASL_USERNAME \<and> isSensitive SASL_OAUTHBEARER_CLIENT_SECRET \<and>
   \<not> isSensitive BOOTSTRAP_SERVERS"
proof (intro conjI)
  show "props_toString typeid (redact f p) = props_toString typeid p"
    unfolding props_toString_def redact_def by (rule foldl_map_cong) simp
qed (simp_all add: isSensitive_def sensitive_suffixes_def regex_dot_def config_keys)

definition same_strings :: "Properties \<Rightarrow> Properties \<Rightarrow> bool" where
  "same_strings p q \<longleftrightarrow> (\<forall>k. props_contains k p = props_contains k q \<and> prop_string k p = prop_string k q)"

lemma value_eq_iff:
  "key_fits k (value_obj v) \<Longrightarrow> key_fits k (value_obj w) \<Longrightarrow>
     value_eq typeid v w \<longleftrightarrow> (case value_obj v of StringObj s \<Rightarrow> value_obj w = StringObj s | _ \<Rightarrow> True)"
  by (cases "value_obj v"; cases "value_obj w")
     (auto simp: value_eq_def value_toString_def key_fits_def expected_key_of_def nonStringValueKeys_def)

lemma keys_eq_of_contains:
  assumes "omap_ok p" "omap_ok q" "\<And>k. props_contains k p = props_contains k q"
  shows "map fst p = map fst q"
proof (rule strictly_sorted_eqI)
  show "set (map fst p) = set (map fst q)"
    using assms(3) by (auto simp: props_contains_def omap_find_None image_iff set_eq_iff)
qed (use assms in \<open>simp_all add: omap_ok_def\<close>)

lemma find_nth: "omap_ok p \<Longrightarrow> i < length p \<Longrightarrow> omap_find (fst (p ! i)) p = Some (snd (p ! i))"
  by (rule omap_find_in) simp_all

lemma prop_string_nth:
  "omap_ok p \<Longrightarrow> i < length p \<Longrightarrow>
     prop_string (fst (p ! i)) p = (case value_obj (snd (p ! i)) of StringObj s \<Rightarrow> Some s | _ \<Rightarrow> None)"
  by (simp add: prop_string_def find_nth)

lemma value_eq_strings:
  assumes "key_fits k (value_obj v)" "key_fits k (value_obj w)"
  shows "value_eq typeid v w \<longleftrightarrow>
    (case value_obj v of StringObj s \<Rightarrow> Some s | _ \<Rightarrow> None) = (case value_obj w of StringObj s \<Rightarrow> Some s | _ \<Rightarrow> None)"
  using assms
  by (cases "value_obj v"; cases "value_obj w")
     (auto simp: value_eq_def value_toString_def key_fits_def expected_key_of_def nonStringValueKeys_def)

lemma props_eq_nth:
  assumes "props_ok p" "props_ok q"
  shows "props_eq typeid p q \<longleftrightarrow> map fst p = map fst q \<and>
    (\<forall>i<length p. prop_string (fst (p ! i)) p = prop_string (fst (p ! i)) q)"
proof (cases "map fst p = map fst q")
  case True
  then have len: "length p = length q" and keys: "\<And>i. i < length p \<Longrightarrow> fst (q ! i) = fst (p ! i)"
    by (metis length_map) (metis True length_map nth_map)
  have fits: "key_fits (fst (p ! i)) (value_obj (snd (p ! i)))" "key_fits (fst (p ! i)) (value_obj (snd (q ! i)))"
    if "i < length p" for i
    using props_ok_find [OF assms(1) find_nth, of i] props_ok_find [OF assms(2) find_nth, of i] that len keys
    by (simp_all add: assms)
  have "value_eq typeid (snd (p ! i)) (snd (q ! i)) \<longleftrightarrow> prop_string (fst (p ! i)) p = prop_string (fst (p ! i)) q"
    if "i < length p" for i
    using value_eq_strings [OF fits [OF that]] prop_string_nth [of p i] prop_string_nth [of q i] that len keys [OF that]
    by (simp add: assms)
  then show ?thesis using True len keys by (simp add: props_eq_def list_all2_conv_all_nth)
next
  case False
  then show ?thesis
    by (auto simp: props_eq_def list_all2_conv_all_nth list_eq_iff_nth_eq)
qed

text \<open>Equality of configurations: two well-typed configurations are equal exactly when they have
  the same keys and the same string values; which callbacks they hold is not compared.\<close>

lemma properties_equality:
  assumes "props_ok p" "props_ok q"
  shows "props_eq typeid p q \<longleftrightarrow> same_strings p q"
proof
  assume eq: "props_eq typeid p q"
  note nth = props_eq_nth [OF assms, THEN iffD1, OF eq]
  have "props_contains k p = props_contains k q" for k
    using nth by (metis list.set_map omap_find_None props_contains_def)
  moreover have "prop_string k p = prop_string k q" for k
  proof (cases "k \<in> set (map fst p)")
    case True
    then obtain i where "i < length p" "k = fst (p ! i)"
      by (auto simp: in_set_conv_nth)
    then show ?thesis using nth by simp
  next
    case False
    then have "k \<notin> set (map fst q)" using nth by metis
    with False have "omap_find k p = None" "omap_find k q = None"
      by (simp_all add: omap_find_None)
    then show ?thesis by (simp add: prop_string_def)
  qed
  ultimately show "same_strings p q" by (simp add: same_strings_def)
next
  assume "same_strings p q"
  then show "props_eq typeid p q"
    using props_eq_nth [OF assms] keys_eq_of_contains [of p q] assms
    by (simp add: same_strings_def)
qed

end
