(* ===== verification/Kafka_Types.thy ===== *)
theory Kafka_Types
  imports Errors Ordered_Containers
begin

text \<open>
  \<open>Types.h\<close>, \<open>Header.h\<close>, \<open>Timestamp.h\<close> and the conversions of \<open>RdKafkaHelper.h\<close>: topics,
  partitions and offsets with their sets and maps, byte buffers, the strings printed for them, and
  the translation to and from librdkafka's topic-partition lists.
\<close>

section \<open>Topics, partitions, offsets\<close>

type_synonym Topic = string
type_synonym Partition = int
type_synonym Offset = int
type_synonym Topics = "Topic list"
type_synonym TopicPartition = "Topic \<times> Partition"
type_synonym TopicPartitions = "TopicPartition list"
type_synonym TopicPartitionOffset = "Topic \<times> Partition \<times> Offset"
type_synonym TopicPartitionOffsets = "(TopicPartition, Offset) omap"

definition Topics_toString :: "Topics \<Rightarrow> string" where
  "Topics_toString topics = join_nonempty '','' topics"

definition TopicPartition_toString :: "TopicPartition \<Rightarrow> string" where
  "TopicPartition_toString tp = fst tp @ ''-'' @ show_int (snd tp)"

definition TopicPartitions_toString :: "TopicPartitions \<Rightarrow> string" where
  "TopicPartitions_toString tps =
     foldl (\<lambda>acc tp. acc @ (if acc = [] then [] else '','') @ fst tp @ ''-'' @ show_int (snd tp)) [] tps"

definition TopicPartitionOffset_toString :: "TopicPartitionOffset \<Rightarrow> string" where
  "TopicPartitionOffset_toString tpo =
     (case tpo of (t, p, off) \<Rightarrow> t @ ''-'' @ show_int p @ '':'' @ show_int off)"

definition TopicPartitionOffsets_toString :: "TopicPartitionOffsets \<Rightarrow> string" where
  "TopicPartitionOffsets_toString tpos =
     foldl (\<lambda>acc tp_o. acc @ (if acc = [] then [] else '','') @
       fst (fst tp_o) @ ''-'' @ show_int (snd (fst tp_o)) @ '':'' @ show_int (snd tp_o)) [] tpos"

lemma foldl_join_map:
  "foldl (\<lambda>acc x. acc @ (if acc = [] then [] else sep) @ f x) acc xs = foldl (join_step sep) acc (map f xs)"
  by (induction xs arbitrary: acc) (simp_all add: join_step_def)

lemma TopicPartitions_toString_eq:
  "TopicPartitions_toString tps = intercalate '','' (map TopicPartition_toString tps)"
proof -
  have "TopicPartitions_toString tps = join_nonempty '','' (map TopicPartition_toString tps)"
    unfolding TopicPartitions_toString_def join_nonempty_def
    using foldl_join_map [of "'',''" TopicPartition_toString "[]" tps]
    by (simp add: TopicPartition_toString_def)
  then show ?thesis by (simp add: join_nonempty_eq TopicPartition_toString_def image_iff)
qed

lemma TopicPartitionOffsets_toString_eq:
  "TopicPartitionOffsets_toString tpos =
     intercalate '','' (map (\<lambda>tp_o. TopicPartitionOffset_toString (fst (fst tp_o), snd (fst tp_o), snd tp_o)) tpos)"
proof -
  let ?f = "\<lambda>tp_o :: TopicPartition \<times> Offset. TopicPartitionOffset_toString (fst (fst tp_o), snd (fst tp_o), snd tp_o)"
  have "TopicPartitionOffsets_toString tpos = join_nonempty '','' (map ?f tpos)"
    unfolding TopicPartitionOffsets_toString_def join_nonempty_def
    using foldl_join_map [of "'',''" ?f "[]" tpos] by (simp add: TopicPartitionOffset_toString_def)
  then show ?thesis by (simp add: join_nonempty_eq TopicPartitionOffset_toString_def image_iff)
qed

section \<open>Buffers\<close>

text \<open>
  A view of bytes; \<open>None\<close> is the null pointer (of size 0), which \<open>toString\<close> tells from an empty
  buffer.
\<close>

type_synonym ConstBuffer = "string option"

definition NullBuffer :: ConstBuffer where
  "NullBuffer = None"

definition buffer_size :: "ConstBuffer \<Rightarrow> nat" where
  "buffer_size b = (case b of None \<Rightarrow> 0 | Some bytes \<Rightarrow> length bytes)"

definition print_char :: "char \<Rightarrow> string" where
  "print_char c = (if is_print c then [c] else ''[0x'' @ hex2 c @ '']'')"

definition buffer_toString :: "ConstBuffer \<Rightarrow> string" where
  "buffer_toString b = (case b of
       None \<Rightarrow> ''[null]''
     | Some bytes \<Rightarrow> if bytes = [] then ''[empty]'' else concat (map print_char bytes))"

lemma buffer_toString_nonempty [simp]: "buffer_toString b \<noteq> []"
proof (cases b)
  case (Some bytes)
  then show ?thesis by (cases bytes) (auto simp: buffer_toString_def print_char_def)
qed (simp add: buffer_toString_def)

section \<open>Headers\<close>

record Header =
  header_key :: string
  header_value :: ConstBuffer

type_synonym Headers = "Header list"

definition Header_toString :: "Header \<Rightarrow> string" where
  "Header_toString h =
     (if header_key h = [] then ''[null]'' else header_key h) @ '':'' @ buffer_toString (header_value h)"

definition Headers_toString :: "Headers \<Rightarrow> string" where
  "Headers_toString headers = join_nonempty '','' (map Header_toString headers)"

lemma Headers_toString_eq: "Headers_toString headers = intercalate '','' (map Header_toString headers)"
  unfolding Headers_toString_def by (rule join_nonempty_eq) (auto simp: Header_toString_def)

section \<open>Timestamps\<close>

datatype TimestampType = NotAvailable | CreateTime | LogAppendTime

datatype rd_kafka_timestamp_type_t =
    RD_KAFKA_TIMESTAMP_NOT_AVAILABLE | RD_KAFKA_TIMESTAMP_CREATE_TIME | RD_KAFKA_TIMESTAMP_LOG_APPEND_TIME

record Timestamp =
  msSinceEpoch :: int
  timestamp_type :: TimestampType

definition convertType :: "rd_kafka_timestamp_type_t \<Rightarrow> TimestampType" where
  "convertType tstype =
     (if tstype = RD_KAFKA_TIMESTAMP_CREATE_TIME then CreateTime
      else if tstype = RD_KAFKA_TIMESTAMP_LOG_APPEND_TIME then LogAppendTime else NotAvailable)"

definition Timestamp_of_rk :: "int \<Rightarrow> rd_kafka_timestamp_type_t \<Rightarrow> Timestamp" where
  "Timestamp_of_rk v t = \<lparr>msSinceEpoch = v, timestamp_type = convertType t\<rparr>"

definition TimestampType_toString :: "TimestampType \<Rightarrow> string" where
  "TimestampType_toString t = (case t of
       CreateTime \<Rightarrow> ''CreateTime'' | LogAppendTime \<Rightarrow> ''LogAppendTime'' | NotAvailable \<Rightarrow> [])"

text \<open>
  The local time down to the second is \<open>put_time(localtime_r(..), "%F %T")\<close>, a parameter. \<open>v % 1000\<close>
  truncates towards zero, so it is negative before the epoch.
\<close>

definition c_mod :: "int \<Rightarrow> int \<Rightarrow> int" where
  "c_mod a b = sgn a * (\<bar>a\<bar> mod \<bar>b\<bar>)"

definition TimestampValue_toString :: "(int \<Rightarrow> string) \<Rightarrow> int \<Rightarrow> string" where
  "TimestampValue_toString localSeconds v =
     localSeconds v @ ''.'' @ pad_left 3 CHR ''0'' (show_int (c_mod v 1000))"

definition Timestamp_toString :: "(int \<Rightarrow> string) \<Rightarrow> Timestamp \<Rightarrow> string" where
  "Timestamp_toString localSeconds ts =
     (let typeString = TimestampType_toString (timestamp_type ts);
          timeString = TimestampValue_toString localSeconds (msSinceEpoch ts)
      in if typeString = [] then timeString else typeString @ ''['' @ timeString @ '']'')"

section \<open>librdkafka's topic-partition lists\<close>

record rd_kafka_topic_partition_t =
  rktp_topic :: string
  rktp_partition :: int
  rktp_offset :: int
  rktp_err :: rd_kafka_resp_err_t

type_synonym rd_kafka_topic_partition_list_t = "rd_kafka_topic_partition_t list"

definition c_str :: "string \<Rightarrow> string" where
  \<comment> \<open>what a C API reads of \<open>s.c_str()\<close>\<close>
  "c_str s = takeWhile (\<lambda>c. c \<noteq> CHR 0x00) s"

definition elems_of :: "rd_kafka_topic_partition_list_t option \<Rightarrow> rd_kafka_topic_partition_list_t" where
  \<comment> \<open>a null list has no elements\<close>
  "elems_of l = (case l of None \<Rightarrow> [] | Some es \<Rightarrow> es)"

definition getTopicPartitionOffsets :: "rd_kafka_topic_partition_list_t option \<Rightarrow> TopicPartitionOffsets" where
  "getTopicPartitionOffsets rk_tpos =
     foldl (\<lambda>acc e. omap_put (rktp_topic e, rktp_partition e) (rktp_offset e) acc) [] (elems_of rk_tpos)"

definition getTopics :: "rd_kafka_topic_partition_list_t option \<Rightarrow> Topics" where
  "getTopics rk_topics = foldl (\<lambda>acc e. oset_insert (rktp_topic e) acc) [] (elems_of rk_topics)"

definition getTopicPartitions :: "rd_kafka_topic_partition_list_t option \<Rightarrow> TopicPartitions" where
  "getTopicPartitions rk_tpos =
     foldl (\<lambda>acc e. oset_insert (rktp_topic e, rktp_partition e) acc) [] (elems_of rk_tpos)"

definition rktp_of :: "TopicPartition \<times> Offset \<Rightarrow> rd_kafka_topic_partition_t" where
  "rktp_of tp_o = \<lparr>rktp_topic = c_str (fst (fst tp_o)), rktp_partition = snd (fst tp_o),
     rktp_offset = snd tp_o, rktp_err = RD_KAFKA_RESP_ERR_NO_ERROR\<rparr>"

definition createRkTopicPartitionList :: "TopicPartitionOffsets \<Rightarrow> rd_kafka_topic_partition_list_t" where
  "createRkTopicPartitionList tpos = map rktp_of tpos"

definition createRkList_of_tps :: "rdkafka_lib \<Rightarrow> TopicPartitions \<Rightarrow> rd_kafka_topic_partition_list_t" where
  "createRkList_of_tps L tps =
     createRkTopicPartitionList (foldl (\<lambda>acc tp. omap_put tp (RD_KAFKA_OFFSET_INVALID L) acc) [] tps)"

definition createRkList_of_topics :: "rdkafka_lib \<Rightarrow> Topics \<Rightarrow> rd_kafka_topic_partition_list_t" where
  "createRkList_of_topics L topics =
     createRkTopicPartitionList
       (foldl (\<lambda>acc topic. omap_put (topic, RD_KAFKA_PARTITION_UA L) (RD_KAFKA_OFFSET_INVALID L) acc) [] topics)"

datatype rd_kafka_thread_type_t = RD_KAFKA_THREAD_MAIN | RD_KAFKA_THREAD_BACKGROUND | RD_KAFKA_THREAD_BROKER

definition thread_type_toString :: "rd_kafka_thread_type_t \<Rightarrow> string" where
  "thread_type_toString t = (case t of
       RD_KAFKA_THREAD_MAIN \<Rightarrow> ''main''
     | RD_KAFKA_THREAD_BACKGROUND \<Rightarrow> ''background''
     | RD_KAFKA_THREAD_BROKER \<Rightarrow> ''broker'')"

text \<open>The loops are the constructions of the container library.\<close>

lemma getTopicPartitionOffsets_eq:
  "getTopicPartitionOffsets l =
     omap_of_list (map (\<lambda>e. ((rktp_topic e, rktp_partition e), rktp_offset e)) (elems_of l))"
  by (simp add: getTopicPartitionOffsets_def omap_of_list_def foldl_map)

lemma getTopicPartitions_eq:
  "getTopicPartitions l = oset_of_list (map (\<lambda>e. (rktp_topic e, rktp_partition e)) (elems_of l))"
  by (simp add: getTopicPartitions_def oset_of_list_def foldl_map)

lemma getTopics_eq: "getTopics l = oset_of_list (map rktp_topic (elems_of l))"
  by (simp add: getTopics_def oset_of_list_def foldl_map)

lemma createRkList_of_tps_eq:
  "createRkList_of_tps L tps =
     createRkTopicPartitionList (omap_of_list (map (\<lambda>tp. (tp, RD_KAFKA_OFFSET_INVALID L)) tps))"
  by (simp add: createRkList_of_tps_def omap_of_list_def foldl_map)

lemma createRkList_of_topics_eq:
  "createRkList_of_topics L topics = createRkTopicPartitionList (omap_of_list
     (map (\<lambda>t. ((t, RD_KAFKA_PARTITION_UA L), RD_KAFKA_OFFSET_INVALID L)) topics))"
  by (simp add: createRkList_of_topics_def omap_of_list_def foldl_map)

lemma omap_ok_map_keys: "strictly_sorted (map f xs) \<Longrightarrow> omap_ok (map (\<lambda>x. (f x, g x)) xs)"
  by (simp add: omap_ok_def comp_def)

lemma createRkList_of_tps_sorted [simp]:
  "strictly_sorted tps \<Longrightarrow>
     createRkList_of_tps L tps = map (\<lambda>tp. rktp_of (tp, RD_KAFKA_OFFSET_INVALID L)) tps"
  using omap_ok_map_keys [of "\<lambda>x. x" tps "\<lambda>_. RD_KAFKA_OFFSET_INVALID L"]
  by (simp add: createRkList_of_tps_eq createRkTopicPartitionList_def comp_def)

lemma sorted_getTopicPartitions [simp]: "strictly_sorted (getTopicPartitions l)"
  by (simp add: getTopicPartitions_eq)

lemma sorted_getTopics [simp]: "strictly_sorted (getTopics l)"
  by (simp add: getTopics_eq)

definition no_nul :: "string \<Rightarrow> bool" where
  "no_nul s \<longleftrightarrow> CHR 0x00 \<notin> set s"

lemma c_str_no_nul [simp]: "no_nul s \<Longrightarrow> c_str s = s"
  by (auto simp: c_str_def no_nul_def takeWhile_eq_all_conv)

lemma getTopicPartitionOffsets_create:
  assumes "omap_ok tpos" "\<forall>tp_o\<in>set tpos. no_nul (fst (fst tp_o))"
  shows "getTopicPartitionOffsets (Some (createRkTopicPartitionList tpos)) = tpos"
proof -
  have "map (\<lambda>e. ((rktp_topic e, rktp_partition e), rktp_offset e)) (createRkTopicPartitionList tpos) = tpos"
    using assms(2) unfolding createRkTopicPartitionList_def map_map
    by (intro map_idI) (auto simp: rktp_of_def)
  then show ?thesis
    using omap_of_list_id [OF assms(1)] by (simp add: getTopicPartitionOffsets_eq elems_of_def)
qed

lemma getTopicPartitions_create:
  assumes "strictly_sorted tps" "\<forall>tp\<in>set tps. no_nul (fst tp)"
  shows "getTopicPartitions (Some (createRkList_of_tps L tps)) = tps"
proof -
  have "map (\<lambda>e. (rktp_topic e, rktp_partition e)) (createRkList_of_tps L tps) = tps"
    using assms by (auto simp: rktp_of_def comp_def intro!: map_idI)
  then show ?thesis using assms(1) by (simp add: getTopicPartitions_eq elems_of_def)
qed

section \<open>Properties\<close>

text \<open>C38. Round trip with librdkafka: a map of offsets, a set of topic-partitions and a set of
  topics come back unchanged from the lists built for the library, for topic names without a NUL
  byte, which \<open>c_str()\<close> would cut.\<close>

theorem rk_list_roundtrip:
  assumes "omap_ok tpos" "\<forall>tp_o\<in>set tpos. no_nul (fst (fst tp_o))"
    and "strictly_sorted tps" "\<forall>tp\<in>set tps. no_nul (fst tp)"
    and "strictly_sorted topics" "\<forall>t\<in>set topics. no_nul t"
  shows "getTopicPartitionOffsets (Some (createRkTopicPartitionList tpos)) = tpos \<and>
    getTopicPartitions (Some (createRkList_of_tps L tps)) = tps \<and>
    getTopics (Some (createRkList_of_topics L topics)) = topics"
proof -
  have "strictly_sorted (map (\<lambda>t. (t, RD_KAFKA_PARTITION_UA L)) topics)"
    using assms(5) by (simp add: sorted_wrt_map)
  then have "createRkList_of_topics L topics =
      map (\<lambda>t. rktp_of ((t, RD_KAFKA_PARTITION_UA L), RD_KAFKA_OFFSET_INVALID L)) topics"
    by (simp add: createRkList_of_topics_eq createRkTopicPartitionList_def omap_ok_map_keys comp_def)
  then have "map rktp_topic (createRkList_of_topics L topics) = topics"
    using assms(6) by (auto simp: rktp_of_def comp_def intro!: map_idI)
  then have "getTopics (Some (createRkList_of_topics L topics)) = topics"
    using assms(5) by (simp add: getTopics_eq elems_of_def)
  with assms(1-4) show ?thesis
    by (simp add: getTopicPartitionOffsets_create getTopicPartitions_create del: createRkList_of_tps_sorted)
qed

theorem rk_list_roundtrip_witness:
  "getTopicPartitionOffsets (Some (createRkTopicPartitionList [((''t'', 0), 5), ((''t'', 1), 7)])) =
     [((''t'', 0), 5), ((''t'', 1), 7)]"
  using rk_list_roundtrip [of "[((''t'', 0), 5), ((''t'', 1), 7)]" "[]" "[]"]
  by (simp add: omap_ok_def no_nul_def)

text \<open>Printing: the strings printed for sets of topic-partitions, for offset maps and for
  headers are the printed elements separated by commas, although the loops decide on the comma by
  looking at the text so far; only a set of topics whose first name is empty loses its comma.\<close>

lemma toString_separates:
  "TopicPartitions_toString tps = intercalate '','' (map TopicPartition_toString tps) \<and>
   TopicPartitionOffsets_toString tpos = intercalate '',''
     (map (\<lambda>tp_o. TopicPartitionOffset_toString (fst (fst tp_o), snd (fst tp_o), snd tp_o)) tpos) \<and>
   Headers_toString headers = intercalate '','' (map Header_toString headers) \<and>
   Topics_toString ([] # topics) = Topics_toString topics"
  by (simp add: TopicPartitions_toString_eq TopicPartitionOffsets_toString_eq Headers_toString_eq
      Topics_toString_def join_nonempty_skips)

end
