(* ===== verification/Log_Buffer.thy ===== *)
theory Log_Buffer
  imports Kafka_Types
begin

text \<open>
  \<open>Log.h\<close>: the level names and the fixed-size line buffer. The text a \<open>snprintf\<close> call formats is
  an argument; what the code does with it (how much is stored, where the write pointer goes) is
  modelled on the bytes of the array.
\<close>

section \<open>Levels\<close>

datatype Level = Emerg | Alert | Crit | Err | Warning | Notice | Info | Debug

definition level_int :: "Level \<Rightarrow> int" where
  "level_int l = (case l of Emerg \<Rightarrow> 0 | Alert \<Rightarrow> 1 | Crit \<Rightarrow> 2 | Err \<Rightarrow> 3
     | Warning \<Rightarrow> 4 | Notice \<Rightarrow> 5 | Info \<Rightarrow> 6 | Debug \<Rightarrow> 7)"

definition levelNames :: "string list" where
  "levelNames = [''EMERG'', ''ALERT'', ''CRIT'', ''ERR'', ''WARNING'', ''NOTICE'', ''INFO'', ''DEBUG'', ''INVALID'']"

definition levelString :: "nat \<Rightarrow> std_exn + string" where
  "levelString level = vec_at levelNames (min level (length levelNames - 1))"

definition size_t_of_int :: "int \<Rightarrow> nat" where
  \<comment> \<open>\<open>static_cast<std::size_t>\<close> of an \<open>int\<close>\<close>
  "size_t_of_int i = nat (i mod 2 ^ 64)"

definition DefaultLogger :: "string \<Rightarrow> int \<Rightarrow> string \<Rightarrow> std_exn + string" where
  \<comment> \<open>the line written to \<open>std::cout\<close>\<close>
  "DefaultLogger currentTime level msg = (case levelString (size_t_of_int level) of
       Inl e \<Rightarrow> Inl e
     | Inr name \<Rightarrow> Inr (''['' @ currentTime @ '']'' @ name @ '' '' @ msg @ [CHR 0x0A]))"

section \<open>The buffer\<close>

record log_buffer =
  buf :: string
  wptr :: nat

definition buffer_clear :: "log_buffer \<Rightarrow> log_buffer" where
  "buffer_clear b = b\<lparr>buf := (buf b)[0 := CHR 0x00], wptr := 0\<rparr>"

definition buffer_capacity :: "nat \<Rightarrow> log_buffer \<Rightarrow> nat" where
  "buffer_capacity max_capacity b = max_capacity - wptr b"

definition snprintf_at :: "nat \<Rightarrow> nat \<Rightarrow> string \<Rightarrow> string \<Rightarrow> string" where
  \<comment> \<open>\<open>snprintf(bytes + at, cap, ..)\<close> producing \<open>t\<close>\<close>
  "snprintf_at at cap t bytes =
     (if cap = 0 then bytes
      else let stored = take (cap - 1) t @ [CHR 0x00]
           in take at bytes @ stored @ drop (at + length stored) bytes)"

definition buffer_print :: "nat \<Rightarrow> string \<Rightarrow> log_buffer \<Rightarrow> std_exn + log_buffer" where
  "buffer_print max_capacity t b =
     (if buf b ! 0 \<noteq> CHR 0x00 \<and> wptr b = 0 then Inl (Undefined_behaviour ''assertion in LogBuffer::print'')
      else
        let b' = b\<lparr>buf := snprintf_at (wptr b) (buffer_capacity max_capacity b) t (buf b)\<rparr>
        in Inr (if 0 < length t then b'\<lparr>wptr := min (wptr b' + length t) (max_capacity - 1)\<rparr> else b'))"

definition buffer_c_str :: "log_buffer \<Rightarrow> string" where
  "buffer_c_str b = c_str (buf b)"

fun buffer_prints :: "nat \<Rightarrow> string list \<Rightarrow> log_buffer \<Rightarrow> std_exn + log_buffer" where
  "buffer_prints max_capacity [] b = Inr b"
| "buffer_prints max_capacity (t # ts) b = (case buffer_print max_capacity t b of
       Inl e \<Rightarrow> Inl e
     | Inr b' \<Rightarrow> buffer_prints max_capacity ts b')"

definition LOG_BUFFER_SIZE :: nat where
  "LOG_BUFFER_SIZE = 1024"

text \<open>\<open>GlobalLogger::doLog\<close>: what the logger, if there is one, is called with.\<close>

definition GlobalLogger_doLog ::
  "bool \<Rightarrow> log_buffer \<Rightarrow> int \<Rightarrow> string \<Rightarrow> nat \<Rightarrow> string \<Rightarrow> std_exn + (int \<times> string \<times> nat \<times> string) option" where
  "GlobalLogger_doLog logCb_set fresh level filename lineno t =
     (if \<not> logCb_set then Inr None
      else case buffer_print LOG_BUFFER_SIZE t (buffer_clear fresh) of
          Inl e \<Rightarrow> Inl e
        | Inr b \<Rightarrow> Inr (Some (level, filename, lineno, buffer_c_str b)))"

section \<open>The buffer holds the prefix that fits\<close>

definition buffer_holds :: "nat \<Rightarrow> string \<Rightarrow> log_buffer \<Rightarrow> bool" where
  "buffer_holds max_capacity content b \<longleftrightarrow>
     length (buf b) = max_capacity \<and> wptr b = min (length content) (max_capacity - 1) \<and>
     take (wptr b + 1) (buf b) = take (max_capacity - 1) content @ [CHR 0x00]"

lemma buffer_holds_clear:
  "0 < max_capacity \<Longrightarrow> length (buf b) = max_capacity \<Longrightarrow> buffer_holds max_capacity [] (buffer_clear b)"
  by (cases "buf b") (simp_all add: buffer_holds_def buffer_clear_def)

lemma c_str_prefix: "no_nul xs \<Longrightarrow> c_str (xs @ CHR 0x00 # ys) = xs"
  by (induction xs) (auto simp: c_str_def no_nul_def)

lemma buffer_holds_c_str:
  assumes "buffer_holds max_capacity content b" "no_nul content"
  shows "buffer_c_str b = take (max_capacity - 1) content"
proof -
  from assms(1) have "buf b = take (max_capacity - 1) content @ CHR 0x00 # drop (wptr b + 1) (buf b)"
    unfolding buffer_holds_def by (metis append_Cons append_assoc append_eq_conv_conj append_Nil append_take_drop_id)
  moreover have "no_nul (take (max_capacity - 1) content)"
    using assms(2) by (auto simp: no_nul_def dest: in_set_takeD)
  ultimately show ?thesis
    using c_str_prefix unfolding buffer_c_str_def by metis
qed

lemma buffer_holds_first:
  "buffer_holds max_capacity content b \<Longrightarrow> 0 < max_capacity \<Longrightarrow> wptr b = 0 \<Longrightarrow> buf b ! 0 = CHR 0x00"
  by (cases "buf b") (auto simp: buffer_holds_def min_def split: if_splits)

lemma buffer_print_holds:
  assumes holds: "buffer_holds max_capacity content b" and pos: "0 < max_capacity"
  shows "\<exists>b'. buffer_print max_capacity t b = Inr b' \<and> buffer_holds max_capacity (content @ t) b'"
proof -
  define w where "w = wptr b"
  define cap where "cap = max_capacity - w"
  define stored where "stored = take (cap - 1) t @ [CHR 0x00]"
  define w' where "w' = min (w + length t) (max_capacity - 1)"
  have w: "w = min (length content) (max_capacity - 1)" and len: "length (buf b) = max_capacity"
    and pre: "take (w + 1) (buf b) = take (max_capacity - 1) content @ [CHR 0x00]"
    using holds unfolding buffer_holds_def w_def by blast+
  have cap: "0 < cap" "w + cap = max_capacity" using w pos by (auto simp: cap_def)
  have front: "take w (buf b) = take (max_capacity - 1) content"
  proof -
    have "take w (buf b) = take w (take (w + 1) (buf b))" by (simp add: min_def)
    also have "\<dots> = take w (take (max_capacity - 1) content @ [CHR 0x00])" using pre by simp
    also have "\<dots> = take (max_capacity - 1) content" using w by (simp add: min_def)
    finally show ?thesis .
  qed
  let ?bytes = "take w (buf b) @ stored @ drop (w + length stored) (buf b)"
  have stored_len: "length stored \<le> cap" and w': "w' + 1 = w + length stored"
    using cap by (auto simp: stored_def w'_def)
  have "take (w' + 1) ?bytes = take w (buf b) @ stored"
    using w' w len by simp
  also have "\<dots> = take (max_capacity - 1) (content @ t) @ [CHR 0x00]"
    unfolding front stored_def cap_def using w by (auto simp: min_def)
  finally have bytes: "take (w' + 1) ?bytes = take (max_capacity - 1) (content @ t) @ [CHR 0x00]" .
  have no_assert: "(buf b ! 0 \<noteq> CHR 0x00 \<and> wptr b = 0) = False"
    using buffer_holds_first [OF holds pos] by blast
  have written: "snprintf_at (wptr b) (buffer_capacity max_capacity b) t (buf b) = ?bytes"
    using cap by (simp add: snprintf_at_def buffer_capacity_def stored_def cap_def w_def Let_def)
  have pointer: "0 < length t \<or> wptr b = w'"
    using cap by (auto simp: w'_def w_def)
  have "buffer_print max_capacity t b = Inr (b\<lparr>buf := ?bytes, wptr := w'\<rparr>)"
    using pointer by (auto simp: buffer_print_def no_assert written Let_def w'_def simp del: length_greater_0_conv)
      (simp_all add: w_def)
  moreover have "buffer_holds max_capacity (content @ t) (b\<lparr>buf := ?bytes, wptr := w'\<rparr>)"
  proof -
    have "length ?bytes = max_capacity" using len stored_len cap w by simp
    moreover have "w' = min (length (content @ t)) (max_capacity - 1)" using w by (simp add: w'_def)
    ultimately show ?thesis using bytes by (simp only: buffer_holds_def log_buffer.simps) simp
  qed
  ultimately show ?thesis by blast
qed

lemma buffer_prints_holds:
  assumes "buffer_holds max_capacity content b" "0 < max_capacity"
  shows "\<exists>b'. buffer_prints max_capacity ts b = Inr b' \<and> buffer_holds max_capacity (content @ concat ts) b'"
  using assms
proof (induction ts arbitrary: content b)
  case (Cons t ts)
  from buffer_print_holds [OF Cons.prems, of t] obtain b1 where
    b1: "buffer_print max_capacity t b = Inr b1" "buffer_holds max_capacity (content @ t) b1" by blast
  from Cons.IH [OF b1(2) Cons.prems(2)] b1(1) show ?case by simp
qed simp

text \<open>Bounds and content: printing any texts one after the other into a cleared buffer of any
  positive capacity never trips the assertion, keeps the write pointer inside the array, and leaves
  the C string that is the concatenation of the texts cut to one less than the capacity.\<close>

lemma log_buffer_holds_prefix:
  assumes "0 < max_capacity" "length (buf b) = max_capacity" "no_nul (concat ts)"
  shows "\<exists>b'. buffer_prints max_capacity ts (buffer_clear b) = Inr b' \<and>
    buffer_c_str b' = take (max_capacity - 1) (concat ts) \<and>
    wptr b' = length (buffer_c_str b') \<and> wptr b' < max_capacity \<and> length (buf b') = max_capacity"
proof -
  from buffer_prints_holds [OF buffer_holds_clear [OF assms(1,2)] assms(1), of ts]
  obtain b' where b': "buffer_prints max_capacity ts (buffer_clear b) = Inr b'"
    "buffer_holds max_capacity (concat ts) b'" by auto
  moreover have "buffer_c_str b' = take (max_capacity - 1) (concat ts)"
    using buffer_holds_c_str [OF b'(2) assms(3)] .
  ultimately show ?thesis using assms(1) by (auto simp: buffer_holds_def)
qed

text \<open>Totality of the level names: every \<open>int\<close>, negative ones included, has a name; the
  eight levels have their own, all the others the last.\<close>

lemma level_names_total:
  "levelString (size_t_of_int (level_int l)) = Inr (levelNames ! nat (level_int l)) \<and>
   (i < 0 \<and> - (2 ^ 31) \<le> i \<or> 8 \<le> i \<and> i < 2 ^ 31 \<longrightarrow> levelString (size_t_of_int i) = Inr ''INVALID'')"
proof (intro conjI impI)
  show "levelString (size_t_of_int (level_int l)) = Inr (levelNames ! nat (level_int l))"
    by (cases l) (simp_all add: levelString_def size_t_of_int_def level_int_def levelNames_def)
  assume i: "i < 0 \<and> - (2 ^ 31) \<le> i \<or> 8 \<le> i \<and> i < 2 ^ 31"
  have "8 \<le> i mod 2 ^ 64"
  proof (cases "i < 0")
    case True
    have "i mod 2 ^ 64 = (i + 2 ^ 64) mod 2 ^ 64" by simp
    also have "\<dots> = i + 2 ^ 64" using i True by (intro mod_pos_pos_trivial) simp_all
    finally have "i mod 2 ^ 64 = i + 2 ^ 64" .
    then show ?thesis using i True by simp
  qed (use i in simp)
  then have "8 \<le> size_t_of_int i"
    unfolding size_t_of_int_def by (subst le_nat_iff) simp_all
  then have "min (size_t_of_int i) (length levelNames - 1) = 8"
    by (simp add: levelNames_def min_def)
  then show "levelString (size_t_of_int i) = Inr ''INVALID''"
    by (simp add: levelString_def levelNames_def)
qed

end
