(* ===== verification/Broker_Metadata.thy ===== *)
theory Broker_Metadata
  imports Kafka_Types
begin

text \<open>
  \<open>BrokerMetadata.h\<close>: the per-topic cluster metadata, its two maps and the strings printed from
  them, and its construction from librdkafka's metadata response, the second half of
  \<open>KafkaClient::fetchBrokerMetadata\<close>.
\<close>

section \<open>Nodes and partitions\<close>

record Node =
  node_id :: int
  node_host :: string
  node_port :: int

record PartitionInfo =
  leader :: int
  replicas :: "int list"
  inSyncReplicas :: "int list"

record BrokerMetadata =
  bm_topic :: Topic
  origNodeName :: string
  bm_nodes :: "(int, Node) omap"
  bm_partitions :: "(int, PartitionInfo) omap"

definition Node_toString :: "Node \<Rightarrow> string" where
  "Node_toString n = node_host n @ '':'' @ show_int (node_port n) @ ''/'' @ show_int (node_id n)"

definition PartitionInfo_make :: "int \<Rightarrow> PartitionInfo" where
  "PartitionInfo_make l = \<lparr>leader = l, replicas = [], inSyncReplicas = []\<rparr>"

definition addReplica :: "int \<Rightarrow> PartitionInfo \<Rightarrow> PartitionInfo" where
  "addReplica i info = info\<lparr>replicas := replicas info @ [i]\<rparr>"

definition addInSyncReplica :: "int \<Rightarrow> PartitionInfo \<Rightarrow> PartitionInfo" where
  "addInSyncReplica i info = info\<lparr>inSyncReplicas := inSyncReplicas info @ [i]\<rparr>"

definition BrokerMetadata_make :: "Topic \<Rightarrow> BrokerMetadata" where
  "BrokerMetadata_make topic = \<lparr>bm_topic = topic, origNodeName = [], bm_nodes = [], bm_partitions = []\<rparr>"

definition setOrigNodeName :: "string \<Rightarrow> BrokerMetadata \<Rightarrow> BrokerMetadata" where
  "setOrigNodeName name m = m\<lparr>origNodeName := name\<rparr>"

definition addNode :: "int \<Rightarrow> string \<Rightarrow> int \<Rightarrow> BrokerMetadata \<Rightarrow> BrokerMetadata" where
  "addNode i host port m =
     m\<lparr>bm_nodes := omap_put i \<lparr>node_id = i, node_host = host, node_port = port\<rparr> (bm_nodes m)\<rparr>"

definition addPartitionInfo :: "int \<Rightarrow> PartitionInfo \<Rightarrow> BrokerMetadata \<Rightarrow> BrokerMetadata" where
  "addPartitionInfo part info m = m\<lparr>bm_partitions := omap_emplace part info (bm_partitions m)\<rparr>"

definition metadata_nodes :: "BrokerMetadata \<Rightarrow> Node list" where
  "metadata_nodes m = map snd (bm_nodes m)"

definition getNodeDescription :: "int \<Rightarrow> BrokerMetadata \<Rightarrow> string" where
  "getNodeDescription i m = (case omap_find i (bm_nodes m) of
       None \<Rightarrow> ''-:-/'' @ show_int i
     | Some n \<Rightarrow> node_host n @ '':'' @ show_int (node_port n) @ ''/'' @ show_int i)"

fun stream_with :: "string \<Rightarrow> bool \<Rightarrow> string list \<Rightarrow> string" where
  \<comment> \<open>the loops with \<open>isTheFirst\<close>\<close>
  "stream_with sep isTheFirst [] = []"
| "stream_with sep isTheFirst (x # xs) = (if isTheFirst then [] else sep) @ x @ stream_with sep False xs"

definition streamNodes :: "int list \<Rightarrow> BrokerMetadata \<Rightarrow> string" where
  "streamNodes nodeIds m = stream_with '', '' True (map (\<lambda>i. getNodeDescription i m) nodeIds)"

definition PartitionInfo_toString :: "PartitionInfo \<Rightarrow> BrokerMetadata \<Rightarrow> string" where
  "PartitionInfo_toString info m =
     ''leader['' @ getNodeDescription (leader info) m @ ''], replicas['' @ streamNodes (replicas info) m @
     ''], inSyncReplicas['' @ streamNodes (inSyncReplicas info) m @ '']''"

definition BrokerMetadata_toString :: "BrokerMetadata \<Rightarrow> string" where
  "BrokerMetadata_toString m =
     ''originatingNode['' @ origNodeName m @ ''], topic['' @ bm_topic m @ ''], partitions{'' @
     stream_with ''; '' True
       (map (\<lambda>pi. show_int (fst pi) @ '': '' @ PartitionInfo_toString (snd pi) m) (bm_partitions m)) @ ''}''"

lemma stream_with_eq: "stream_with sep True xs = intercalate sep xs"
proof -
  have "stream_with sep False ys = concat (map (\<lambda>y. sep @ y) ys)" for ys
    by (induction ys) simp_all
  moreover have "x @ concat (map (\<lambda>y. sep @ y) ys) = intercalate sep (x # ys)" for x ys
  proof (induction ys arbitrary: x)
    case (Cons y ys)
    show ?case using Cons.IH [of y] by simp
  qed simp
  ultimately show ?thesis by (cases xs) auto
qed

section \<open>The response of librdkafka\<close>

record rd_kafka_metadata_partition =
  mp_id :: int
  mp_err :: rd_kafka_resp_err_t
  mp_leader :: int
  mp_replicas :: "int list"
  mp_isrs :: "int list"

record rd_kafka_metadata_topic =
  mt_topic :: string
  mt_partitions :: "rd_kafka_metadata_partition list"
  mt_err :: rd_kafka_resp_err_t

record rd_kafka_metadata_broker =
  mb_id :: int
  mb_host :: string
  mb_port :: int

record rd_kafka_metadata =
  brokers :: "rd_kafka_metadata_broker list"
  metadata_topics :: "rd_kafka_metadata_topic list"
  orig_broker_name :: "string option"

definition find_metadata_topic :: "Topic \<Rightarrow> rd_kafka_metadata \<Rightarrow> rd_kafka_metadata_topic option" where
  "find_metadata_topic topic md = find (\<lambda>t. mt_topic t = topic) (metadata_topics md)"

definition partition_info_of :: "rd_kafka_metadata_partition \<Rightarrow> PartitionInfo" where
  "partition_info_of mp =
     foldl (\<lambda>info i. addInSyncReplica i info)
       (foldl (\<lambda>info i. addReplica i info) (PartitionInfo_make (mp_leader mp)) (mp_replicas mp)) (mp_isrs mp)"

definition add_metadata_partition :: "BrokerMetadata \<Rightarrow> rd_kafka_metadata_partition \<Rightarrow> BrokerMetadata" where
  "add_metadata_partition m mp =
     (if mp_err mp \<noteq> RD_KAFKA_RESP_ERR_NO_ERROR then m
      else addPartitionInfo (mp_id mp) (partition_info_of mp) m)"

definition build_metadata :: "rd_kafka_metadata \<Rightarrow> rd_kafka_metadata_topic \<Rightarrow> BrokerMetadata" where
  "build_metadata md mt =
     (let m0 = setOrigNodeName (case orig_broker_name md of Some n \<Rightarrow> n | None \<Rightarrow> []) (BrokerMetadata_make (mt_topic mt));
          m1 = foldl (\<lambda>m b. addNode (mb_id b) (mb_host b) (mb_port b) m) m0 (brokers md)
      in foldl add_metadata_partition m1 (mt_partitions mt))"

definition metadata_of_response :: "Topic \<Rightarrow> rd_kafka_metadata \<Rightarrow> BrokerMetadata option" where
  \<comment> \<open>from the successful response on; the logging of the two failures is left out\<close>
  "metadata_of_response topic md = (case find_metadata_topic topic md of
       None \<Rightarrow> None
     | Some mt \<Rightarrow> if mt_err mt \<noteq> RD_KAFKA_RESP_ERR_NO_ERROR then None else Some (build_metadata md mt))"

section \<open>Lemmas\<close>

lemma foldl_addReplica:
  "foldl (\<lambda>info i. addReplica i info) info is = info\<lparr>replicas := replicas info @ is\<rparr>"
  by (induction "is" arbitrary: info) (simp_all add: addReplica_def)

lemma foldl_addInSyncReplica:
  "foldl (\<lambda>info i. addInSyncReplica i info) info is = info\<lparr>inSyncReplicas := inSyncReplicas info @ is\<rparr>"
  by (induction "is" arbitrary: info) (simp_all add: addInSyncReplica_def)

lemma partition_info_of_eq:
  "partition_info_of mp = \<lparr>leader = mp_leader mp, replicas = mp_replicas mp, inSyncReplicas = mp_isrs mp\<rparr>"
  by (simp add: partition_info_of_def foldl_addReplica foldl_addInSyncReplica PartitionInfo_make_def)

definition metadata_ok :: "BrokerMetadata \<Rightarrow> bool" where
  "metadata_ok m \<longleftrightarrow> omap_ok (bm_nodes m) \<and> omap_ok (bm_partitions m) \<and>
     (\<forall>i n. omap_find i (bm_nodes m) = Some n \<longrightarrow> node_id n = i)"

lemma metadata_ok_addNode: "metadata_ok m \<Longrightarrow> metadata_ok (addNode i h p m)"
  by (simp add: metadata_ok_def addNode_def)

lemma metadata_ok_addPartitionInfo: "metadata_ok m \<Longrightarrow> metadata_ok (addPartitionInfo i info m)"
  by (simp add: metadata_ok_def addPartitionInfo_def)

lemma foldl_invariant: "I s \<Longrightarrow> (\<And>s x. I s \<Longrightarrow> I (f s x)) \<Longrightarrow> I (foldl f s xs)"
  by (induction xs arbitrary: s) simp_all

lemma metadata_ok_add: "metadata_ok m \<Longrightarrow> metadata_ok (add_metadata_partition m mp)"
  by (simp add: add_metadata_partition_def metadata_ok_addPartitionInfo)

lemma metadata_ok_build: "metadata_ok (build_metadata md mt)"
  unfolding build_metadata_def Let_def
  by (intro foldl_invariant [where I = metadata_ok] metadata_ok_add metadata_ok_addNode)
     (simp add: metadata_ok_def setOrigNodeName_def BrokerMetadata_make_def)

lemma add_metadata_partition_frame [simp]:
  "bm_nodes (add_metadata_partition m mp) = bm_nodes m"
  "bm_topic (add_metadata_partition m mp) = bm_topic m"
  "origNodeName (add_metadata_partition m mp) = origNodeName m"
  by (simp_all add: add_metadata_partition_def addPartitionInfo_def)

lemma addNode_frame [simp]:
  "bm_partitions (addNode i h p m) = bm_partitions m"
  "bm_topic (addNode i h p m) = bm_topic m"
  "origNodeName (addNode i h p m) = origNodeName m"
  by (simp_all add: addNode_def)

lemma foldl_add_partition_frame [simp]:
  "bm_nodes (foldl add_metadata_partition m mps) = bm_nodes m"
  "bm_topic (foldl add_metadata_partition m mps) = bm_topic m"
  "origNodeName (foldl add_metadata_partition m mps) = origNodeName m"
  by (induction mps arbitrary: m) simp_all

lemma foldl_addNode_frame [simp]:
  "bm_partitions (foldl (\<lambda>m b. addNode (mb_id b) (mb_host b) (mb_port b) m) m bs) = bm_partitions m"
  "bm_topic (foldl (\<lambda>m b. addNode (mb_id b) (mb_host b) (mb_port b) m) m bs) = bm_topic m"
  "origNodeName (foldl (\<lambda>m b. addNode (mb_id b) (mb_host b) (mb_port b) m) m bs) = origNodeName m"
  by (induction bs arbitrary: m) simp_all

lemma find_append:
  "find P (xs @ ys) = (case find P xs of Some y \<Rightarrow> Some y | None \<Rightarrow> find P ys)"
  by (induction xs) auto

lemma foldl_addNode_find:
  "omap_find i (bm_nodes (foldl (\<lambda>m b. addNode (mb_id b) (mb_host b) (mb_port b) m) m bs)) =
     (case find (\<lambda>b. mb_id b = i) (rev bs) of
        Some b \<Rightarrow> Some \<lparr>node_id = i, node_host = mb_host b, node_port = mb_port b\<rparr>
      | None \<Rightarrow> omap_find i (bm_nodes m))"
proof (induction bs arbitrary: m)
  case (Cons b bs)
  have step: "omap_find i (bm_nodes (addNode (mb_id b) (mb_host b) (mb_port b) m)) =
      (if mb_id b = i then Some \<lparr>node_id = i, node_host = mb_host b, node_port = mb_port b\<rparr>
       else omap_find i (bm_nodes m))"
    by (auto simp: addNode_def)
  show ?case by (auto simp: Cons.IH step find_append split: option.splits)
qed simp

lemma foldl_add_partition_find:
  "omap_find i (bm_partitions (foldl add_metadata_partition m mps)) =
     (case omap_find i (bm_partitions m) of
        Some info \<Rightarrow> Some info
      | None \<Rightarrow> map_option partition_info_of
          (find (\<lambda>mp. mp_id mp = i \<and> mp_err mp = RD_KAFKA_RESP_ERR_NO_ERROR) mps))"
  by (induction mps arbitrary: m)
     (auto simp: add_metadata_partition_def addPartitionInfo_def split: option.splits)

section \<open>Properties\<close>

text \<open>Functional correctness of the metadata built from a response: nothing for a topic that is
  missing or in error; otherwise both maps are sorted with every node under its own id, the node of
  an id is the last broker listed with it, and a partition is the first one listed with its id
  and without error, its replica lists copied in order.\<close>

lemma broker_metadata_of_response:
  "metadata_of_response topic md =
     (case find_metadata_topic topic md of
        Some mt \<Rightarrow> if mt_err mt = RD_KAFKA_RESP_ERR_NO_ERROR then Some (build_metadata md mt) else None
      | None \<Rightarrow> None) \<and>
   metadata_ok (build_metadata md mt) \<and> bm_topic (build_metadata md mt) = mt_topic mt \<and>
   omap_find i (bm_nodes (build_metadata md mt)) =
     map_option (\<lambda>b. \<lparr>node_id = i, node_host = mb_host b, node_port = mb_port b\<rparr>)
       (find (\<lambda>b. mb_id b = i) (rev (brokers md))) \<and>
   omap_find i (bm_partitions (build_metadata md mt)) =
     map_option (\<lambda>mp. \<lparr>leader = mp_leader mp, replicas = mp_replicas mp, inSyncReplicas = mp_isrs mp\<rparr>)
       (find (\<lambda>mp. mp_id mp = i \<and> mp_err mp = RD_KAFKA_RESP_ERR_NO_ERROR) (mt_partitions mt))"
proof (intro conjI)
  show "metadata_ok (build_metadata md mt)" by (rule metadata_ok_build)
  show "omap_find i (bm_nodes (build_metadata md mt)) =
     map_option (\<lambda>b. \<lparr>node_id = i, node_host = mb_host b, node_port = mb_port b\<rparr>)
       (find (\<lambda>b. mb_id b = i) (rev (brokers md)))"
    by (simp add: build_metadata_def Let_def foldl_addNode_find setOrigNodeName_def BrokerMetadata_make_def
        split: option.split)
  show "omap_find i (bm_partitions (build_metadata md mt)) =
     map_option (\<lambda>mp. \<lparr>leader = mp_leader mp, replicas = mp_replicas mp, inSyncReplicas = mp_isrs mp\<rparr>)
       (find (\<lambda>mp. mp_id mp = i \<and> mp_err mp = RD_KAFKA_RESP_ERR_NO_ERROR) (mt_partitions mt))"
    by (simp add: build_metadata_def Let_def foldl_add_partition_find partition_info_of_eq
        setOrigNodeName_def BrokerMetadata_make_def cong: option.map_cong)
qed (auto simp: metadata_of_response_def build_metadata_def Let_def setOrigNodeName_def BrokerMetadata_make_def
     split: option.split)

end
