(* ===== verification/Records.thy ===== *)
theory Records
  imports Kafka_Types
begin

text \<open>
  The records: \<open>ConsumerRecord.h\<close>, \<open>ProducerRecord.h\<close> and the \<open>RecordMetadata\<close> of
  \<open>ProducerCommon.h\<close>. A librdkafka message is what its fields and accessors show.
\<close>

datatype rd_kafka_msg_status_t =
    RD_KAFKA_MSG_STATUS_NOT_PERSISTED | RD_KAFKA_MSG_STATUS_POSSIBLY_PERSISTED | RD_KAFKA_MSG_STATUS_PERSISTED

record rd_kafka_message_t =
  rkm_topic_name :: "string option"  \<comment> \<open>\<open>None\<close>: \<open>rkt\<close> is null\<close>
  rkm_partition :: int
  rkm_offset :: int
  rkm_key :: ConstBuffer
  rkm_payload :: ConstBuffer
  rkm_err :: rd_kafka_resp_err_t
  rkm_timestamp :: "int \<times> rd_kafka_timestamp_type_t"
  rkm_headers :: "rd_kafka_resp_err_t + (string \<times> ConstBuffer) list"
  rkm_last_header :: "string \<Rightarrow> rd_kafka_resp_err_t + ConstBuffer"
  rkm_status :: rd_kafka_msg_status_t

section \<open>Consumer records\<close>

type_synonym ConsumerRecord = rd_kafka_message_t

definition cr_topic :: "ConsumerRecord \<Rightarrow> Topic" where
  "cr_topic m = (case rkm_topic_name m of Some t \<Rightarrow> t | None \<Rightarrow> [])"

definition cr_partition :: "ConsumerRecord \<Rightarrow> Partition" where
  "cr_partition m = rkm_partition m"

definition cr_offset :: "ConsumerRecord \<Rightarrow> Offset" where
  "cr_offset m = rkm_offset m"

definition cr_key :: "ConsumerRecord \<Rightarrow> ConstBuffer" where
  "cr_key m = rkm_key m"

definition cr_value :: "ConsumerRecord \<Rightarrow> ConstBuffer" where
  "cr_value m = rkm_payload m"

definition cr_timestamp :: "ConsumerRecord \<Rightarrow> Timestamp" where
  "cr_timestamp m = Timestamp_of_rk (fst (rkm_timestamp m)) (snd (rkm_timestamp m))"

definition cr_error :: "ConsumerRecord \<Rightarrow> Error" where
  "cr_error m = Error_code (rkm_err m)"

definition cr_headers :: "ConsumerRecord \<Rightarrow> Headers" where
  "cr_headers m = (case rkm_headers m of
       Inl _ \<Rightarrow> []
     | Inr hdrs \<Rightarrow> map (\<lambda>nv. \<lparr>header_key = fst nv, header_value = snd nv\<rparr>) hdrs)"

definition cr_lastHeaderValue :: "string \<Rightarrow> ConsumerRecord \<Rightarrow> ConstBuffer" where
  "cr_lastHeaderValue key m = (case rkm_headers m of
       Inl _ \<Rightarrow> NullBuffer
     | Inr _ \<Rightarrow> (case rkm_last_header m (c_str key) of Inl _ \<Rightarrow> NullBuffer | Inr v \<Rightarrow> v))"

definition cr_toString :: "rdkafka_lib \<Rightarrow> (int \<Rightarrow> string) \<Rightarrow> ConsumerRecord \<Rightarrow> string" where
  "cr_toString L localSeconds m =
     (if \<not> error_set (cr_error m) then
        cr_topic m @ ''-'' @ show_int (cr_partition m) @ '':'' @ show_int (cr_offset m) @ '', '' @
        Timestamp_toString localSeconds (cr_timestamp m) @ '', '' @
        (if buffer_size (cr_key m) \<noteq> 0 then buffer_toString (cr_key m) @ ''/'' else []) @
        buffer_toString (cr_value m)
      else if error_value (cr_error m) = RD_KAFKA_RESP_ERR__PARTITION_EOF then
        ''EOF['' @ cr_topic m @ ''-'' @ show_int (cr_partition m) @ '':'' @ show_int (cr_offset m) @ '']''
      else
        ''ERROR['' @ error_message L (cr_error m) @ '', '' @ cr_topic m @ ''-'' @ show_int (cr_partition m) @
        '':'' @ show_int (cr_offset m) @ '']'')"

section \<open>Producer records\<close>

record ProducerRecord =
  pr_topic :: Topic
  pr_partition :: Partition
  pr_key :: ConstBuffer
  pr_value :: ConstBuffer
  pr_headers :: Headers
  pr_id :: "nat option"

definition ProducerRecord_make :: "Topic \<Rightarrow> Partition \<Rightarrow> ConstBuffer \<Rightarrow> ConstBuffer \<Rightarrow> ProducerRecord" where
  "ProducerRecord_make topic part key v =
     \<lparr>pr_topic = topic, pr_partition = part, pr_key = key, pr_value = v, pr_headers = [], pr_id = None\<rparr>"

definition ProducerRecord_with_id :: "Topic \<Rightarrow> Partition \<Rightarrow> ConstBuffer \<Rightarrow> ConstBuffer \<Rightarrow> nat \<Rightarrow> ProducerRecord" where
  "ProducerRecord_with_id topic part key v i = (ProducerRecord_make topic part key v)\<lparr>pr_id := Some i\<rparr>"

definition ProducerRecord_unassigned :: "rdkafka_lib \<Rightarrow> Topic \<Rightarrow> ConstBuffer \<Rightarrow> ConstBuffer \<Rightarrow> ProducerRecord" where
  "ProducerRecord_unassigned L topic key v = ProducerRecord_make topic (RD_KAFKA_PARTITION_UA L) key v"

definition ProducerRecord_unassigned_with_id ::
  "rdkafka_lib \<Rightarrow> Topic \<Rightarrow> ConstBuffer \<Rightarrow> ConstBuffer \<Rightarrow> nat \<Rightarrow> ProducerRecord" where
  "ProducerRecord_unassigned_with_id L topic key v i =
     (ProducerRecord_unassigned L topic key v)\<lparr>pr_id := Some i\<rparr>"

definition pr_setPartition :: "Partition \<Rightarrow> ProducerRecord \<Rightarrow> ProducerRecord" where
  "pr_setPartition part r = r\<lparr>pr_partition := part\<rparr>"

definition pr_setKey :: "ConstBuffer \<Rightarrow> ProducerRecord \<Rightarrow> ProducerRecord" where
  "pr_setKey key r = r\<lparr>pr_key := key\<rparr>"

definition pr_setValue :: "ConstBuffer \<Rightarrow> ProducerRecord \<Rightarrow> ProducerRecord" where
  "pr_setValue v r = r\<lparr>pr_value := v\<rparr>"

definition pr_setId :: "nat \<Rightarrow> ProducerRecord \<Rightarrow> ProducerRecord" where
  "pr_setId i r = r\<lparr>pr_id := Some i\<rparr>"

definition pr_toString :: "rdkafka_lib \<Rightarrow> ProducerRecord \<Rightarrow> string" where
  "pr_toString L r =
     pr_topic r @ ''-'' @ (if pr_partition r = RD_KAFKA_PARTITION_UA L then ''NA'' else show_int (pr_partition r)) @ '':'' @
     (case pr_id r of Some i \<Rightarrow> show_nat i @ '', '' | None \<Rightarrow> '' '') @
     (if pr_headers r = [] then [] else ''headers['' @ Headers_toString (pr_headers r) @ ''], '') @
     buffer_toString (pr_key r) @ ''/'' @ buffer_toString (pr_value r)"

section \<open>Record metadata\<close>

datatype PersistedStatus = Not | Possibly | Done

record CachedInfo =
  ci_topic :: string
  ci_partition :: int
  ci_offset :: int
  ci_keySize :: nat
  ci_valueSize :: nat
  ci_timestamp :: Timestamp
  ci_persistedStatus :: PersistedStatus

record RecordMetadata =
  cachedInfo :: "CachedInfo option"
  rkmsg :: "rd_kafka_message_t option"
  recordId :: "nat option"

definition RecordMetadata_default :: RecordMetadata where
  "RecordMetadata_default = \<lparr>cachedInfo = None, rkmsg = None, recordId = None\<rparr>"

definition RecordMetadata_of_msg :: "rd_kafka_message_t \<Rightarrow> nat option \<Rightarrow> RecordMetadata" where
  "RecordMetadata_of_msg m i = \<lparr>cachedInfo = None, rkmsg = Some m, recordId = i\<rparr>"

definition getMsgPersistedStatus :: "rd_kafka_message_t \<Rightarrow> PersistedStatus" where
  "getMsgPersistedStatus m =
     (if rkm_status m = RD_KAFKA_MSG_STATUS_NOT_PERSISTED then Not
      else if rkm_status m = RD_KAFKA_MSG_STATUS_PERSISTED then Done else Possibly)"

definition getPersistedStatusString :: "PersistedStatus \<Rightarrow> string" where
  "getPersistedStatusString s =
     (if s = Not then ''NotPersisted'' else if s = Done then ''Persisted'' else ''PossiblyPersisted'')"

text \<open>
  Every accessor reads the message if there is one and the cached copy otherwise; with neither it
  dereferences a null pointer.
\<close>

definition rm_read :: "(rd_kafka_message_t \<Rightarrow> 'a) \<Rightarrow> (CachedInfo \<Rightarrow> 'a) \<Rightarrow> RecordMetadata \<Rightarrow> std_exn + 'a" where
  "rm_read of_msg of_cache m = (case rkmsg m of
       Some msg \<Rightarrow> Inr (of_msg msg)
     | None \<Rightarrow> (case cachedInfo m of
           Some c \<Rightarrow> Inr (of_cache c)
         | None \<Rightarrow> Inl (Undefined_behaviour ''null cachedInfo'')))"

definition rm_topic :: "RecordMetadata \<Rightarrow> std_exn + string" where
  "rm_topic = rm_read cr_topic ci_topic"

definition rm_partition :: "RecordMetadata \<Rightarrow> std_exn + int" where
  "rm_partition = rm_read rkm_partition ci_partition"

definition rm_offset :: "rdkafka_lib \<Rightarrow> RecordMetadata \<Rightarrow> std_exn + int option" where
  "rm_offset L m = (case rm_read rkm_offset ci_offset m of
       Inl e \<Rightarrow> Inl e
     | Inr off \<Rightarrow> Inr (if off \<noteq> RD_KAFKA_OFFSET_INVALID L then Some off else None))"

definition rm_keySize :: "RecordMetadata \<Rightarrow> std_exn + nat" where
  "rm_keySize = rm_read (\<lambda>m. buffer_size (rkm_key m)) ci_keySize"

definition rm_valueSize :: "RecordMetadata \<Rightarrow> std_exn + nat" where
  "rm_valueSize = rm_read (\<lambda>m. buffer_size (rkm_payload m)) ci_valueSize"

definition rm_timestamp :: "RecordMetadata \<Rightarrow> std_exn + Timestamp" where
  "rm_timestamp = rm_read cr_timestamp ci_timestamp"

definition rm_persistedStatus :: "RecordMetadata \<Rightarrow> std_exn + PersistedStatus" where
  "rm_persistedStatus = rm_read getMsgPersistedStatus ci_persistedStatus"

definition rm_assign :: "rdkafka_lib \<Rightarrow> RecordMetadata \<Rightarrow> std_exn + RecordMetadata" where
  \<comment> \<open>\<open>operator=\<close> from another object, also the copy constructor\<close>
  "rm_assign L another =
     (case rm_offset L another of Inl e \<Rightarrow> Inl e | Inr offsetOption \<Rightarrow>
      case rm_topic another of Inl e \<Rightarrow> Inl e | Inr t \<Rightarrow>
      case rm_partition another of Inl e \<Rightarrow> Inl e | Inr p \<Rightarrow>
      case rm_keySize another of Inl e \<Rightarrow> Inl e | Inr ks \<Rightarrow>
      case rm_valueSize another of Inl e \<Rightarrow> Inl e | Inr vs \<Rightarrow>
      case rm_timestamp another of Inl e \<Rightarrow> Inl e | Inr ts \<Rightarrow>
      case rm_persistedStatus another of Inl e \<Rightarrow> Inl e | Inr pst \<Rightarrow>
        Inr \<lparr>cachedInfo = Some \<lparr>ci_topic = t, ci_partition = p,
               ci_offset = (case offsetOption of Some off \<Rightarrow> off | None \<Rightarrow> RD_KAFKA_OFFSET_INVALID L),
               ci_keySize = ks, ci_valueSize = vs, ci_timestamp = ts, ci_persistedStatus = pst\<rparr>,
             rkmsg = None, recordId = recordId another\<rparr>)"

definition rm_toString :: "rdkafka_lib \<Rightarrow> (int \<Rightarrow> string) \<Rightarrow> RecordMetadata \<Rightarrow> std_exn + string" where
  "rm_toString L localSeconds m =
     (case rm_offset L m of Inl e \<Rightarrow> Inl e | Inr offsetOption \<Rightarrow>
      case rm_topic m of Inl e \<Rightarrow> Inl e | Inr t \<Rightarrow>
      case rm_partition m of Inl e \<Rightarrow> Inl e | Inr p \<Rightarrow>
      case rm_timestamp m of Inl e \<Rightarrow> Inl e | Inr ts \<Rightarrow>
      case rm_persistedStatus m of Inl e \<Rightarrow> Inl e | Inr pst \<Rightarrow>
        Inr (t @ ''-'' @ show_int p @ ''@'' @ (case offsetOption of Some off \<Rightarrow> show_int off | None \<Rightarrow> ''NA'') @
          (case recordId m of Some i \<Rightarrow> '':id['' @ show_nat i @ ''],'' | None \<Rightarrow> '','') @
          Timestamp_toString localSeconds ts @ '','' @ getPersistedStatusString pst))"

definition rm_valid :: "RecordMetadata \<Rightarrow> bool" where
  "rm_valid m \<longleftrightarrow> rkmsg m \<noteq> None \<or> cachedInfo m \<noteq> None"

lemmas rm_accessors = rm_read_def rm_topic_def rm_partition_def rm_offset_def rm_keySize_def
  rm_valueSize_def rm_timestamp_def rm_persistedStatus_def

section \<open>Properties\<close>

text \<open>Equivalence: assigning record metadata out of the delivery callback makes a copy that no
  longer refers to the library's message, and every accessor, the printed form included, answers
  for the copy as for the original; only a default-constructed object cannot be copied.\<close>

lemma record_metadata_copy_equiv:
  "(rm_valid m \<longrightarrow> (\<exists>m'. rm_assign L m = Inr m' \<and> rkmsg m' = None \<and>
     rm_topic m' = rm_topic m \<and> rm_partition m' = rm_partition m \<and> rm_offset L m' = rm_offset L m \<and>
     rm_keySize m' = rm_keySize m \<and> rm_valueSize m' = rm_valueSize m \<and> rm_timestamp m' = rm_timestamp m \<and>
     rm_persistedStatus m' = rm_persistedStatus m \<and> recordId m' = recordId m \<and>
     rm_toString L localSeconds m' = rm_toString L localSeconds m)) \<and>
   rm_assign L RecordMetadata_default = Inl (Undefined_behaviour ''null cachedInfo'')"
proof (intro conjI impI)
  assume "rm_valid m"
  then consider msg where "rkmsg m = Some msg" | c where "rkmsg m = None" "cachedInfo m = Some c"
    by (auto simp: rm_valid_def)
  then show "\<exists>m'. rm_assign L m = Inr m' \<and> rkmsg m' = None \<and>
     rm_topic m' = rm_topic m \<and> rm_partition m' = rm_partition m \<and> rm_offset L m' = rm_offset L m \<and>
     rm_keySize m' = rm_keySize m \<and> rm_valueSize m' = rm_valueSize m \<and> rm_timestamp m' = rm_timestamp m \<and>
     rm_persistedStatus m' = rm_persistedStatus m \<and> recordId m' = recordId m \<and>
     rm_toString L localSeconds m' = rm_toString L localSeconds m"
    by cases (simp_all add: rm_assign_def rm_toString_def rm_accessors)
qed (simp add: rm_assign_def rm_accessors RecordMetadata_default_def)

end
