(* ===== verification/Kafka_Client.thy ===== *)
theory Kafka_Client
  imports Client_Properties Log_Buffer Broker_Metadata Records
begin

text \<open>
  \<open>KafkaClient.h\<close>, the base class of the clients. What librdkafka and the system do is a
  parameter: a record of the library's functions over an abstract state of the library (the type
  \<open>'w\<close>), which the client holds in its field \<open>world\<close>. Calls of the user's callbacks are recorded in
  the field \<open>events\<close>, in order; the lines the clients log are left out of the operations, apart from
  \<open>doLog\<close> itself.
\<close>

section \<open>State and interface\<close>

datatype RebalanceEventType = PartitionsAssigned | PartitionsRevoked

datatype client_event =
    LogEvent nat int string nat string
  | StatsEvent nat string
  | ErrorEvent nat Error
  | TokenRefreshEvent nat string
  | ThreadStartEvent nat string string
  | ThreadExitEvent nat string string
  | BrokerStateEvent nat int string string int string
  | RebalanceEvent nat RebalanceEventType TopicPartitions
  | OffsetCommitEvent nat TopicPartitionOffsets Error
  | DeliveryEvent nat RecordMetadata Error

record 'w client =
  opened :: bool
  properties :: Properties
  clientId :: string
  clientName :: string
  logLevel :: int
  logCb :: callback
  statsCb :: callback
  errorCb :: callback
  oauthbearerTokenRefreshCb :: callback
  enableManualEventsPoll :: bool
  client_interceptors :: Interceptors
  pollable :: bool
  pollThread :: bool
  world :: 'w
  events :: "client_event list"

datatype ClientType = KafkaConsumer | KafkaProducer | AdminClient

datatype conf_callback =
    Conf_opaque | Conf_log_cb | Conf_stats_cb | Conf_error_cb | Conf_oauthbearer_cb
  | Conf_dr_msg_cb | Conf_rebalance_cb

datatype rd_kafka_type_t = RD_KAFKA_CONSUMER | RD_KAFKA_PRODUCER

text \<open>
  The functions of librdkafka the base class calls. \<open>rd_kafka_conf_get\<close> takes the size of the
  buffer and returns the bytes written with the size needed; \<open>rd_kafka_new\<close> returns
  \<open>rd_kafka_last_error()\<close>.
\<close>

record 'w client_api =
  the_lib :: rdkafka_lib
  rd_kafka_conf_set :: "string \<Rightarrow> string \<Rightarrow> 'w \<Rightarrow> bool \<times> 'w"
  rd_kafka_conf_set_cb :: "conf_callback \<Rightarrow> 'w \<Rightarrow> 'w"
  rd_kafka_conf_interceptor_add_on_new :: "'w \<Rightarrow> rd_kafka_resp_err_t \<times> 'w"
  rd_kafka_new :: "rd_kafka_type_t \<Rightarrow> 'w \<Rightarrow> rd_kafka_resp_err_t \<times> 'w"
  rd_kafka_brokers_add :: "string \<Rightarrow> 'w \<Rightarrow> int \<times> 'w"
  rd_kafka_set_log_level :: "int \<Rightarrow> 'w \<Rightarrow> 'w"
  rd_kafka_conf_get :: "string \<Rightarrow> nat \<Rightarrow> 'w \<Rightarrow> (string \<times> nat) option"
  rd_kafka_metadata_call :: "bool \<Rightarrow> int \<Rightarrow> 'w \<Rightarrow> (rd_kafka_resp_err_t \<times> rd_kafka_metadata) \<times> 'w"
  rd_kafka_fatal_error :: "'w \<Rightarrow> rd_kafka_resp_err_t \<times> string"
  rd_kafka_oauthbearer_set_token ::
    "string \<Rightarrow> int \<Rightarrow> string \<Rightarrow> string list \<Rightarrow> 'w \<Rightarrow> (rd_kafka_resp_err_t \<times> string) \<times> 'w"
  rd_kafka_oauthbearer_set_token_failure :: "string \<Rightarrow> 'w \<Rightarrow> 'w"
  rd_kafka_interceptor_add_on_thread_start :: "'w \<Rightarrow> rd_kafka_resp_err_t \<times> 'w"
  rd_kafka_interceptor_add_on_thread_exit :: "'w \<Rightarrow> rd_kafka_resp_err_t \<times> 'w"
  rd_kafka_interceptor_add_on_broker_state_change :: "'w \<Rightarrow> rd_kafka_resp_err_t \<times> 'w"

definition lib_call :: "('w \<Rightarrow> 'r \<times> 'w) \<Rightarrow> (('w, 'm) client_scheme, exn, 'r) prog" where
  "lib_call f = (\<lambda>s. (Inr (fst (f (world s))), s\<lparr>world := snd (f (world s))\<rparr>))"

definition lib_do :: "('w \<Rightarrow> 'w) \<Rightarrow> (('w, 'm) client_scheme, exn, unit) prog" where
  "lib_do f = modM (\<lambda>s. s\<lparr>world := f (world s)\<rparr>)"

definition emit :: "client_event \<Rightarrow> (('w, 'm) client_scheme, exn, unit) prog" where
  "emit e = modM (\<lambda>s. s\<lparr>events := events s @ [e]\<rparr>)"

definition call_cb :: "callback \<Rightarrow> (nat \<Rightarrow> client_event) \<Rightarrow> (('w, 'm) client_scheme, exn, unit) prog" where
  \<comment> \<open>\<open>if (cb) cb(..)\<close>\<close>
  "call_cb cb e = (case cb of None \<Rightarrow> ret () | Some h \<Rightarrow> emit (e h))"

lemma lib_call_apply [prog_simps, simp]:
  "lib_call f s = (Inr (fst (f (world s))), s\<lparr>world := snd (f (world s))\<rparr>)"
  by (simp add: lib_call_def)

lemma lib_do_apply [prog_simps, simp]: "lib_do f s = (Inr (), s\<lparr>world := f (world s)\<rparr>)"
  by (simp add: lib_do_def)

lemma call_cb_apply [prog_simps]:
  "call_cb cb e s = (Inr (), case cb of None \<Rightarrow> s | Some h \<Rightarrow> s\<lparr>events := events s @ [e h]\<rparr>)"
  by (simp add: call_cb_def emit_def split: option.split)

lemma fst_call_cb [simp]: "fst (call_cb cb e s) = Inr ()"
  by (simp add: call_cb_apply)

section \<open>Time-outs\<close>

definition TIMEOUT_INFINITE :: int where
  "TIMEOUT_INFINITE = - 1"

definition InfiniteTimeout :: int where
  "InfiniteTimeout = INT64_MAX"

definition convertMsDurationToInt :: "int \<Rightarrow> int" where
  "convertMsDurationToInt ms = (if ms > INT_MAX then TIMEOUT_INFINITE else to_int32 ms)"

definition DEFAULT_METADATA_TIMEOUT_MS :: int where
  "DEFAULT_METADATA_TIMEOUT_MS = 10000"

definition EVENT_POLLING_INTERVAL_MS :: int where
  "EVENT_POLLING_INTERVAL_MS = 100"

definition deadline :: "int \<Rightarrow> int \<Rightarrow> int" where
  \<comment> \<open>\<open>now() + timeout\<close>: the milliseconds are converted to the clock's nanoseconds in 64 bits\<close>
  "deadline now timeout = to_int64 (now + to_int64 (timeout * 1000000))"

section \<open>Construction\<close>

definition getClientTypeString :: "ClientType \<Rightarrow> string" where
  "getClientTypeString t =
     (if t = KafkaConsumer then ''KafkaConsumer''
      else if t = KafkaProducer then ''KafkaProducer'' else ''AdminClient'')"

definition std_what :: "std_exn \<Rightarrow> string" where
  "std_what e = (case e of Invalid_argument m \<Rightarrow> m | Out_of_range m \<Rightarrow> m | Runtime_error m \<Rightarrow> m
     | Length_error m \<Rightarrow> m | Bad_cast \<Rightarrow> ''std::bad_cast'' | Undefined_behaviour m \<Rightarrow> m)"

definition invalid_arg :: "string \<Rightarrow> exn" where
  "invalid_arg m = throw_error (Error_message RD_KAFKA_RESP_ERR__INVALID_ARG m)"

definition client_default :: "'w \<Rightarrow> 'w client" where
  \<comment> \<open>the members as initialised before the constructor's body; handle 0 is \<open>DefaultLogger\<close>\<close>
  "client_default w = \<lparr>opened = False, properties = [], clientId = [], clientName = [],
     logLevel = level_int Notice, logCb = Some 0, statsCb = None, errorCb = None,
     oauthbearerTokenRefreshCb = None, enableManualEventsPoll = False,
     client_interceptors = Interceptors_default, pollable = False, pollThread = False,
     world = w, events = []\<rparr>"

definition save_client_id :: "ClientType \<Rightarrow> Properties \<Rightarrow> (('w, 'm) client_scheme, exn, unit) prog" where
  "save_client_id t p = seqM (liftE (props_getProperty CLIENT_ID p)) (\<lambda>r. case r of
       None \<Rightarrow> ret ()
     | Some i \<Rightarrow> modM (\<lambda>s. s\<lparr>clientId := i, clientName := getClientTypeString t @ ''['' @ i @ '']''\<rparr>))"

definition save_log_cb :: "Properties \<Rightarrow> (('w, 'm) client_scheme, exn, unit) prog" where
  "save_log_cb p =
     (if props_contains ''log_cb'' p then
        seqM (liftE (props_get as_LogCallback ''log_cb'' p)) (\<lambda>cb. modM (\<lambda>s. s\<lparr>logCb := cb\<rparr>))
      else ret ())"

definition check_log_level :: "string \<Rightarrow> int \<Rightarrow> (('w, 'm) client_scheme, exn, unit) prog" where
  "check_log_level str l =
     (if l < level_int Emerg \<or> l > level_int Debug then
        throw (invalid_arg (''Invalid log_level['' @ str @ ''], which must be a value between 0 and 7!''))
      else ret ())"

definition save_log_level :: "Properties \<Rightarrow> (('w, 'm) client_scheme, exn, unit) prog" where
  "save_log_level p = seqM (liftE (props_getProperty LOG_LEVEL p)) (\<lambda>r. case r of
       None \<Rightarrow> ret ()
     | Some str \<Rightarrow> (case stoi str of
           Inl e \<Rightarrow> throw (invalid_arg (''Invalid log_level['' @ str @ ''], which must be an number!'' @ std_what e))
         | Inr l \<Rightarrow> seqM (modM (\<lambda>s. s\<lparr>logLevel := l\<rparr>)) (\<lambda>_. check_log_level str l)))"

definition save_polling_option :: "Properties \<Rightarrow> (('w, 'm) client_scheme, exn, unit) prog" where
  "save_polling_option p = seqM (liftE (props_getProperty ENABLE_MANUAL_EVENTS_POLL p)) (\<lambda>r. case r of
       None \<Rightarrow> ret ()
     | Some v \<Rightarrow>
         if v = ''true'' \<or> v = ''t'' \<or> v = ''1'' then modM (\<lambda>s. s\<lparr>enableManualEventsPoll := True\<rparr>)
         else if v = ''false'' \<or> v = ''f'' \<or> v = ''0'' then modM (\<lambda>s. s\<lparr>enableManualEventsPoll := False\<rparr>)
         else throw (invalid_arg (''Invalid option['' @ v @
           ''] for \"enable.manual.events.poll\", which must be a bool value (true or false)!'')))"

definition PRIVATE_PROPERTY_KEYS :: "string list" where
  "PRIVATE_PROPERTY_KEYS = [''max.poll.records'', ''enable.manual.events.poll'']"

definition put_property :: "string \<Rightarrow> ValueType \<Rightarrow> (('w, 'm) client_scheme, exn, unit) prog" where
  "put_property k v = (\<lambda>s. case props_put_value k v (properties s) of (r, p) \<Rightarrow> (r, s\<lparr>properties := p\<rparr>))"

fun configure ::
  "('w, 'n) client_api_scheme \<Rightarrow> Properties \<Rightarrow> (string \<times> ValueType) list \<Rightarrow> (('w, 'm) client_scheme, exn, unit) prog" where
  "configure A p [] = ret ()"
| "configure A p ((k, v) # kvs) = seqM (liftE (props_getProperty k p)) (\<lambda>r. case r of
       None \<Rightarrow> configure A p kvs
     | Some str \<Rightarrow>
         if k \<in> set PRIVATE_PROPERTY_KEYS then seqM (put_property k v) (\<lambda>_. configure A p kvs)
         else seqM (lib_call (rd_kafka_conf_set A (c_str k) (c_str str))) (\<lambda>ok.
           if ok then seqM (put_property k v) (\<lambda>_. configure A p kvs) else configure A p kvs))"

definition set_callback ::
  "('w, 'n) client_api_scheme \<Rightarrow> string \<Rightarrow> (value_object \<Rightarrow> std_exn + 'c) \<Rightarrow> Properties \<Rightarrow>
     ('c \<Rightarrow> ('w, 'm) client_scheme \<Rightarrow> ('w, 'm) client_scheme) \<Rightarrow> conf_callback \<Rightarrow> (('w, 'm) client_scheme, exn, unit) prog" where
  \<comment> \<open>the three steps shared by the statistics, error and token-refresh callbacks\<close>
  "set_callback A key cast p store kind =
     (if props_contains key p then
        seqM (liftE (props_get cast key p)) (\<lambda>cb. seqM (modM (store cb)) (\<lambda>_. lib_do (rd_kafka_conf_set_cb A kind)))
      else ret ())"

definition set_interceptors :: "('w, 'n) client_api_scheme \<Rightarrow> Properties \<Rightarrow> (('w, 'm) client_scheme, exn, unit) prog" where
  "set_interceptors A p =
     (if props_contains ''interceptors'' p then
        seqM (liftE (props_get as_Interceptors ''interceptors'' p)) (\<lambda>i.
        seqM (modM (\<lambda>s. s\<lparr>client_interceptors := i\<rparr>)) (\<lambda>_.
        seqM (lib_call (rd_kafka_conf_interceptor_add_on_new A)) (\<lambda>err. throw_if (Error_code err))))
      else ret ())"

definition set_callbacks :: "('w, 'n) client_api_scheme \<Rightarrow> Properties \<Rightarrow> (('w, 'm) client_scheme, exn, unit) prog" where
  "set_callbacks A p =
     seqM (lib_do (rd_kafka_conf_set_cb A Conf_opaque)) (\<lambda>_.
     seqM (if props_contains ''log_cb'' p then lib_do (rd_kafka_conf_set_cb A Conf_log_cb) else ret ()) (\<lambda>_.
     seqM (set_callback A ''stats_cb'' as_StatsCallback p (\<lambda>cb s. s\<lparr>statsCb := cb\<rparr>) Conf_stats_cb) (\<lambda>_.
     seqM (set_callback A ''error_cb'' as_ErrorCallback p (\<lambda>cb s. s\<lparr>errorCb := cb\<rparr>) Conf_error_cb) (\<lambda>_.
     seqM (set_callback A ''oauthbearer_token_refresh_cb'' as_Oauthbearer p
       (\<lambda>cb s. s\<lparr>oauthbearerTokenRefreshCb := cb\<rparr>) Conf_oauthbearer_cb) (\<lambda>_.
     set_interceptors A p)))))"

definition open_client :: "('w, 'n) client_api_scheme \<Rightarrow> ClientType \<Rightarrow> Properties \<Rightarrow> (('w, 'm) client_scheme, exn, unit) prog" where
  \<comment> \<open>from \<open>rd_kafka_new\<close> on\<close>
  "open_client A t p =
     seqM (lib_call (rd_kafka_new A (if t = KafkaConsumer then RD_KAFKA_CONSUMER else RD_KAFKA_PRODUCER))) (\<lambda>err.
     seqM (throw_if (Error_code err)) (\<lambda>_.
     seqM (liftE (props_getProperty BOOTSTRAP_SERVERS p)) (\<lambda>r. case r of
         None \<Rightarrow> throw (invalid_arg ''No broker could be added successfully, BOOTSTRAP_SERVERS=[NA]'')
       | Some b \<Rightarrow> seqM (lib_call (rd_kafka_brokers_add A (c_str b))) (\<lambda>n.
           if n = 0 then throw (invalid_arg (''No broker could be added successfully, BOOTSTRAP_SERVERS=['' @ b @ '']''))
           else modM (\<lambda>s. s\<lparr>opened := True\<rparr>)))))"

definition construct_client ::
  "('w, 'n) client_api_scheme \<Rightarrow> ClientType \<Rightarrow> Properties \<Rightarrow> (('w, 'm) client_scheme, exn, unit) prog \<Rightarrow>
     (('w, 'm) client_scheme, exn, unit) prog" where
  "construct_client A t p extraConfigRegister =
     seqM (save_client_id t p) (\<lambda>_. seqM (save_log_cb p) (\<lambda>_. seqM (save_log_level p) (\<lambda>_.
     seqM (save_polling_option p) (\<lambda>_. seqM (configure A p p) (\<lambda>_. seqM (set_callbacks A p) (\<lambda>_.
     seqM extraConfigRegister (\<lambda>_. open_client A t p)))))))"

definition validateAndReformProperties :: "string \<Rightarrow> Properties \<Rightarrow> exn + Properties" where
  \<comment> \<open>\<open>random\<close> is the result of \<open>getRandomString\<close>\<close>
  "validateAndReformProperties random p =
     (case props_getProperty BOOTSTRAP_SERVERS p of
        Inl e \<Rightarrow> Inl e
      | Inr None \<Rightarrow> Inl (invalid_arg (''Validation failed! With no property ['' @ BOOTSTRAP_SERVERS @ '']''))
      | Inr (Some _) \<Rightarrow>
     (case props_getProperty CLIENT_ID p of Inl e \<Rightarrow> Inl e | Inr cid \<Rightarrow>
      case (if cid = None then props_put CLIENT_ID (StringObj random) p else (Inr (), p)) of
        (Inl e, _) \<Rightarrow> Inl e
      | (Inr _, p1) \<Rightarrow>
     (case props_getProperty LOG_LEVEL p1 of Inl e \<Rightarrow> Inl e | Inr lvl \<Rightarrow>
      case (if lvl = None then props_put LOG_LEVEL (StringObj (show_int (level_int Notice))) p1 else (Inr (), p1)) of
        (Inl e, _) \<Rightarrow> Inl e
      | (Inr _, p2) \<Rightarrow> Inr p2)))"

section \<open>Operations\<close>

definition client_getProperty ::
  "('w, 'n) client_api_scheme \<Rightarrow> string \<Rightarrow> ('w, 'm) client_scheme \<Rightarrow> exn + string option" where
  "client_getProperty A name s =
     (case props_getProperty name (properties s) of
        Inl e \<Rightarrow> Inl e
      | Inr (Some v) \<Rightarrow> Inr (Some v)
      | Inr None \<Rightarrow> Inr (case rd_kafka_conf_get A (c_str name) 512 (world s) of
            None \<Rightarrow> None
          | Some (bytes, valueSize) \<Rightarrow>
              if 512 < valueSize then
                map_option (\<lambda>r. c_str (fst r)) (rd_kafka_conf_get A (c_str name) valueSize (world s))
              else Some (c_str bytes)))"

definition setLogLevel :: "('w, 'n) client_api_scheme \<Rightarrow> int \<Rightarrow> (('w, 'm) client_scheme, exn, unit) prog" where
  "setLogLevel A level =
     seqM (modM (\<lambda>s. s\<lparr>logLevel := if level < level_int Emerg then level_int Emerg
            else if level > level_int Debug then level_int Debug else level\<rparr>)) (\<lambda>_.
     seqM (getM logLevel) (\<lambda>l. lib_do (rd_kafka_set_log_level A l)))"

definition doLog :: "int \<Rightarrow> string \<Rightarrow> nat \<Rightarrow> string \<Rightarrow> (('w, 'm) client_scheme, exn, unit) prog" where
  \<comment> \<open>\<open>content\<close> is the formatted text; the line is the client's name and the text in a fresh buffer\<close>
  "doLog level filename lineno content = seqM (getM (\<lambda>s. s)) (\<lambda>s.
     if 0 \<le> level \<and> level \<le> logLevel s \<and> logCb s \<noteq> None then
       (case buffer_prints LOG_BUFFER_SIZE [c_str (clientName s) @ '' '', content]
               (buffer_clear \<lparr>buf = replicate LOG_BUFFER_SIZE CHR 0x00, wptr = 0\<rparr>) of
          Inl e \<Rightarrow> throw (StdException e)
        | Inr b \<Rightarrow> call_cb (logCb s) (\<lambda>h. LogEvent h level filename lineno (buffer_c_str b)))
     else ret ())"

definition onLog :: "int \<Rightarrow> string \<Rightarrow> string \<Rightarrow> (('w, 'm) client_scheme, exn, unit) prog" where
  "onLog level fac msg = doLog level ''LIBRDKAFKA'' 0 (fac @ '' | '' @ msg)"

definition statsCallback :: "string \<Rightarrow> (('w, 'm) client_scheme, exn, int) prog" where
  "statsCallback jsonStr =
     seqM (getM statsCb) (\<lambda>cb. seqM (call_cb cb (\<lambda>h. StatsEvent h jsonStr)) (\<lambda>_. ret 0))"

definition onError :: "Error \<Rightarrow> (('w, 'm) client_scheme, exn, unit) prog" where
  "onError e = seqM (getM errorCb) (\<lambda>cb. call_cb cb (\<lambda>h. ErrorEvent h e))"

definition errorCallback ::
  "('w, 'n) client_api_scheme \<Rightarrow> rd_kafka_resp_err_t \<Rightarrow> string \<Rightarrow> (('w, 'm) client_scheme, exn, unit) prog" where
  "errorCallback A err reason = seqM (getM world) (\<lambda>w.
     onError (Error_copy
       (if err \<noteq> RD_KAFKA_RESP_ERR__FATAL then Error_message err reason
        else Error_fatal (fst (rd_kafka_fatal_error A w)) (snd (rd_kafka_fatal_error A w)) True)))"

text \<open>
  What the user's token-refresh callback does is a parameter: it returns a token or throws an
  exception with the given \<open>what()\<close>.
\<close>

definition onOauthbearerTokenRefresh ::
  "(nat \<Rightarrow> string \<Rightarrow> string + SaslOauthbearerToken) \<Rightarrow> string \<Rightarrow>
     (('w, 'm) client_scheme, exn, string + SaslOauthbearerToken) prog" where
  "onOauthbearerTokenRefresh user conf = seqM (getM oauthbearerTokenRefreshCb) (\<lambda>cb. case cb of
       None \<Rightarrow> ret (Inl ''No OAUTHBEARER token refresh callback configured!'')
     | Some h \<Rightarrow> seqM (emit (TokenRefreshEvent h conf)) (\<lambda>_. ret (user h conf)))"

definition flat_extensions :: "(string, string) omap \<Rightarrow> string list" where
  "flat_extensions kvs = concat (map (\<lambda>kv. [c_str (fst kv), c_str (snd kv)]) kvs)"

definition oauthbearerTokenRefreshCallback ::
  "('w, 'n) client_api_scheme \<Rightarrow> (nat \<Rightarrow> string \<Rightarrow> string + SaslOauthbearerToken) \<Rightarrow> string option \<Rightarrow>
     (('w, 'm) client_scheme, exn, unit) prog" where
  "oauthbearerTokenRefreshCallback A user conf =
     seqM (onOauthbearerTokenRefresh user (case conf of Some c \<Rightarrow> c | None \<Rightarrow> [])) (\<lambda>r. case r of
       Inl what \<Rightarrow> lib_do (rd_kafka_oauthbearer_set_token_failure A (c_str what))
     | Inr token \<Rightarrow>
         seqM (lib_call (rd_kafka_oauthbearer_set_token A (c_str (token_value token)) (mdLifetime token)
                 (c_str (mdPrincipalName token)) (flat_extensions (extensions token)))) (\<lambda>res.
         if fst res \<noteq> RD_KAFKA_RESP_ERR_NO_ERROR then lib_do (rd_kafka_oauthbearer_set_token_failure A (snd res))
         else ret ()))"

definition interceptThreadStart :: "string \<Rightarrow> string \<Rightarrow> (('w, 'm) client_scheme, exn, unit) prog" where
  "interceptThreadStart name type =
     seqM (getM (\<lambda>s. threadStartCb (client_interceptors s))) (\<lambda>cb. call_cb cb (\<lambda>h. ThreadStartEvent h name type))"

definition interceptThreadExit :: "string \<Rightarrow> string \<Rightarrow> (('w, 'm) client_scheme, exn, unit) prog" where
  "interceptThreadExit name type =
     seqM (getM (\<lambda>s. threadExitCb (client_interceptors s))) (\<lambda>cb. call_cb cb (\<lambda>h. ThreadExitEvent h name type))"

definition interceptBrokerStateChange ::
  "int \<Rightarrow> string \<Rightarrow> string \<Rightarrow> int \<Rightarrow> string \<Rightarrow> (('w, 'm) client_scheme, exn, unit) prog" where
  "interceptBrokerStateChange i secproto host port state =
     seqM (getM (\<lambda>s. brokerStateChangeCb (client_interceptors s)))
       (\<lambda>cb. call_cb cb (\<lambda>h. BrokerStateEvent h i secproto host port state))"

definition configInterceptorOnNew ::
  "('w, 'n) client_api_scheme \<Rightarrow> (('w, 'm) client_scheme, exn, rd_kafka_resp_err_t) prog" where
  "configInterceptorOnNew A =
     seqM (lib_call (rd_kafka_interceptor_add_on_thread_start A)) (\<lambda>r1.
     if r1 \<noteq> RD_KAFKA_RESP_ERR_NO_ERROR then ret r1 else
     seqM (lib_call (rd_kafka_interceptor_add_on_thread_exit A)) (\<lambda>r2.
     if r2 \<noteq> RD_KAFKA_RESP_ERR_NO_ERROR then ret r2 else
     seqM (lib_call (rd_kafka_interceptor_add_on_broker_state_change A)) (\<lambda>r3.
     if r3 \<noteq> RD_KAFKA_RESP_ERR_NO_ERROR then ret r3 else ret RD_KAFKA_RESP_ERR_NO_ERROR)))"

definition interceptorOnThreadStart ::
  "rd_kafka_thread_type_t \<Rightarrow> string \<Rightarrow> (('w, 'm) client_scheme, exn, rd_kafka_resp_err_t) prog" where
  "interceptorOnThreadStart threadType threadName =
     seqM (interceptThreadStart threadName (thread_type_toString threadType)) (\<lambda>_. ret RD_KAFKA_RESP_ERR_NO_ERROR)"

definition interceptorOnThreadExit ::
  "rd_kafka_thread_type_t \<Rightarrow> string \<Rightarrow> (('w, 'm) client_scheme, exn, rd_kafka_resp_err_t) prog" where
  "interceptorOnThreadExit threadType threadName =
     seqM (interceptThreadExit threadName (thread_type_toString threadType)) (\<lambda>_. ret RD_KAFKA_RESP_ERR_NO_ERROR)"

definition interceptorOnBrokerStateChange ::
  "int \<Rightarrow> string \<Rightarrow> string \<Rightarrow> int \<Rightarrow> string \<Rightarrow> (('w, 'm) client_scheme, exn, rd_kafka_resp_err_t) prog" where
  "interceptorOnBrokerStateChange i secproto host port state =
     seqM (interceptBrokerStateChange i secproto host port state) (\<lambda>_. ret RD_KAFKA_RESP_ERR_NO_ERROR)"

definition fetchBrokerMetadata ::
  "('w, 'n) client_api_scheme \<Rightarrow> string \<Rightarrow> int \<Rightarrow> (('w, 'm) client_scheme, exn, BrokerMetadata option) prog" where
  "fetchBrokerMetadata A topic timeout =
     seqM (lib_call (rd_kafka_metadata_call A True (convertMsDurationToInt timeout))) (\<lambda>res.
     if fst res \<noteq> RD_KAFKA_RESP_ERR_NO_ERROR then ret None
     else ret (metadata_of_response topic (snd res)))"

section \<open>Background polling\<close>

text \<open>
  \<open>poll\<close> is the client's polling function (\<open>pollCallbacks\<close> of the derived class). The background
  thread runs until a stop is requested; \<open>n\<close> is the number of times it finds no stop request.
\<close>

definition isWithAutoEventsPolling :: "('w, 'm) client_scheme \<Rightarrow> bool" where
  "isWithAutoEventsPolling s \<longleftrightarrow> \<not> enableManualEventsPoll s"

definition CALLBACK_POLLING_INTERVAL_MS :: int where
  "CALLBACK_POLLING_INTERVAL_MS = 10"

definition startBackgroundPollingIfNecessary :: "(('w, 'm) client_scheme, exn, unit) prog" where
  "startBackgroundPollingIfNecessary =
     seqM (modM (\<lambda>s. s\<lparr>pollable := True\<rparr>)) (\<lambda>_.
     modM (\<lambda>s. if isWithAutoEventsPolling s then s\<lparr>pollThread := True\<rparr> else s))"

definition stopBackgroundPollingIfNecessary :: "(('w, 'm) client_scheme, exn, unit) prog" where
  "stopBackgroundPollingIfNecessary =
     seqM (modM (\<lambda>s. s\<lparr>pollThread := False\<rparr>)) (\<lambda>_. modM (\<lambda>s. s\<lparr>pollable := False\<rparr>))"

definition pollEvents ::
  "(int \<Rightarrow> (('w, 'm) client_scheme, exn, unit) prog) \<Rightarrow> int \<Rightarrow> (('w, 'm) client_scheme, exn, unit) prog" where
  "pollEvents pollf timeout = seqM (getM pollable) (\<lambda>ok.
     if ok then pollf (convertMsDurationToInt timeout)
     else throw (StdException (Undefined_behaviour ''null _pollable'')))"

fun poll_until_stopped ::
  "(int \<Rightarrow> (('w, 'm) client_scheme, exn, unit) prog) \<Rightarrow> nat \<Rightarrow> (('w, 'm) client_scheme, exn, unit) prog" where
  "poll_until_stopped pollf 0 = ret ()"
| "poll_until_stopped pollf (Suc n) =
     seqM (pollf CALLBACK_POLLING_INTERVAL_MS) (\<lambda>_. poll_until_stopped pollf n)"

definition background_polling ::
  "(int \<Rightarrow> (('w, 'm) client_scheme, exn, unit) prog) \<Rightarrow> nat \<Rightarrow> (('w, 'm) client_scheme, exn, unit) prog" where
  "background_polling pollf n =
     seqM (interceptThreadStart ''events-polling'' ''background'') (\<lambda>_.
     seqM (poll_until_stopped pollf n) (\<lambda>_.
     interceptThreadExit ''events-polling'' ''background''))"

section \<open>What the constructor establishes\<close>

definition register_callback :: "('w, 'n) client_api_scheme \<Rightarrow> conf_callback option \<Rightarrow> (('w, 'm) client_scheme, exn, unit) prog" where
  \<comment> \<open>\<open>registerConfigCallbacks\<close> of the producer and the consumer; none for the admin client\<close>
  "register_callback A k = (case k of None \<Rightarrow> ret () | Some c \<Rightarrow> lib_do (rd_kafka_conf_set_cb A c))"

definition accepted_from :: "Properties \<Rightarrow> Properties \<Rightarrow> bool" where
  "accepted_from p q \<longleftrightarrow> props_ok q \<and> (\<forall>k v. omap_find k q = Some v \<longrightarrow>
     omap_find k p = Some v \<and> (\<exists>str. value_obj v = StringObj str))"

definition under_construction :: "Properties \<Rightarrow> ('w, 'm) client_scheme \<Rightarrow> bool" where
  "under_construction p s \<longleftrightarrow> 0 \<le> logLevel s \<and> logLevel s \<le> 7 \<and> accepted_from p (properties s)"

definition is_kafka_exception :: "exn \<Rightarrow> bool" where
  "is_kafka_exception e \<longleftrightarrow> (\<exists>err. e = KafkaException err)"

lemma invalid_arg_kafka [simp]: "is_kafka_exception (invalid_arg m)"
  by (simp add: invalid_arg_def throw_error_def is_kafka_exception_def)

lemma throw_error_kafka [simp]: "is_kafka_exception (throw_error e)"
  by (simp add: throw_error_def is_kafka_exception_def)

lemma level_int_bounds [simp]: "level_int Emerg = 0" "level_int Debug = 7" "level_int Notice = 5"
  by (simp_all add: level_int_def)

lemma under_construction_world [simp]: "under_construction p (s\<lparr>world := w\<rparr>) = under_construction p s"
  by (simp add: under_construction_def)

lemma keeps_lib_call [triple_rules]: "keeps (under_construction p) E (lib_call f)"
  by (simp add: triple_def)

lemma keeps_lib_do [triple_rules]: "keeps (under_construction p) E (lib_do f)"
  by (simp add: triple_def)

lemma keeps_throw_if [triple_rules]: "keeps I is_kafka_exception (throw_if e)"
  by (simp add: triple_def)

lemma props_get_typed:
  assumes "props_ok p" "props_contains k p" "\<And>v. omap_find k p = Some v \<Longrightarrow> \<exists>x. cast (value_obj v) = Inr x"
  shows "\<exists>x. props_get cast k p = Inr x"
  using assms(2,3) by (fastforce simp: props_get_def props_contains_def lift_std_def split: option.splits)

lemma accepted_from_put:
  assumes "accepted_from p q" "props_ok p" "omap_find k p = Some v" "prop_string k p = Some str"
  shows "props_put_value k v q = (Inr (), omap_put k v q) \<and> accepted_from p (omap_put k v q)"
proof -
  have v: "v = ValueType_of (value_obj v)" "key_fits k (value_obj v)"
    using props_ok_value [OF assms(2) omap_find_Some_in [OF assms(3)]] by auto
  have str: "value_obj v = StringObj str"
    using assms(3,4) by (auto simp: prop_string_def split: value_object.splits)
  have "validate k v = Inr v" using validate_of [of k "value_obj v"] v by simp
  moreover have "props_ok (omap_put k v q)"
    using props_ok_put [of q k "value_obj v"] assms(1) v by (simp add: accepted_from_def)
  ultimately show ?thesis
    using assms(1,3) str by (auto simp: props_put_value_def accepted_from_def)
qed

lemma keeps_put_property:
  assumes "props_ok p" "omap_find k p = Some v" "prop_string k p = Some str"
  shows "keeps (under_construction p) E (put_property k v)"
proof (rule tripleI)
  fix s :: "('a, 'b) client_scheme" assume "under_construction p s"
  then show "case put_property k v s of (Inl e, s') \<Rightarrow> E e | (Inr x, s') \<Rightarrow> under_construction p s'"
    using accepted_from_put [OF _ assms, of "properties s"]
    by (auto simp: put_property_def under_construction_def)
qed

lemma keeps_configure:
  assumes "props_ok p" "set kvs \<subseteq> set p"
  shows "keeps (under_construction p) is_kafka_exception (configure A p kvs)"
  using assms(2)
proof (induction kvs)
  case (Cons kv kvs)
  obtain k v where kv: "kv = (k, v)" by (cases kv)
  have "set kvs \<subseteq> set p" using Cons.prems by simp
  note rest = Cons.IH [OF this]
  have found: "omap_find k p = Some v"
    using Cons.prems assms(1) by (simp add: kv omap_find_in)
  show ?case
  proof (cases "prop_string k p")
    case None
    then show ?thesis using rest by (simp add: kv getProperty_eq)
  next
    case (Some str)
    then show ?thesis
      unfolding kv configure.simps getProperty_eq
      by (auto intro!: triple_rules rest keeps_put_property [OF assms(1) found Some])
  qed
qed (auto intro: triple_rules)

lemma keeps_save_client_id: "keeps (under_construction p) E (save_client_id t p)"
  by (auto simp: save_client_id_def getProperty_eq under_construction_def intro!: triple_rules split: option.split)

lemma keeps_save_log_cb:
  assumes "props_ok p"
  shows "keeps (under_construction p) E (save_log_cb p)"
proof (cases "props_contains ''log_cb'' p")
  case True
  have "\<exists>x. props_get as_LogCallback ''log_cb'' p = Inr x"
    by (rule props_get_typed [OF assms True])
       (use props_ok_typed(1) [OF assms] in \<open>force simp: as_LogCallback_def\<close>)
  then obtain x where x: "props_get as_LogCallback ''log_cb'' p = Inr x" by blast
  show ?thesis
    unfolding save_log_cb_def x seqM_liftE by (intro triple_rules) (simp_all add: under_construction_def)
qed (auto simp: save_log_cb_def intro: triple_rules)

lemma keeps_save_polling: "keeps (under_construction p) is_kafka_exception (save_polling_option p)"
  by (auto simp: save_polling_option_def getProperty_eq under_construction_def intro!: triple_rules split: option.split)

lemma keeps_save_log_level: "keeps (under_construction p) is_kafka_exception (save_log_level p)"
  by (auto simp: save_log_level_def getProperty_eq under_construction_def check_log_level_def triple_def
      split: option.split sum.split)

lemma keeps_set_callback:
  assumes "props_ok p" "\<And>v. omap_find key p = Some v \<Longrightarrow> \<exists>x. cast (value_obj v) = Inr x"
    and "\<And>cb s. under_construction p (store cb s) = under_construction p s"
  shows "keeps (under_construction p) E (set_callback A key cast p store kind)"
proof (cases "props_contains key p")
  case True
  have "\<exists>x. props_get cast key p = Inr x"
    by (rule props_get_typed [OF assms(1) True]) (rule assms(2))
  then obtain x where x: "props_get cast key p = Inr x" by blast
  show ?thesis
    unfolding set_callback_def x seqM_liftE by (intro triple_rules) (simp_all add: assms(3))
qed (auto simp: set_callback_def intro: triple_rules)

lemma keeps_set_interceptors:
  assumes "props_ok p"
  shows "keeps (under_construction p) is_kafka_exception (set_interceptors A p)"
proof (cases "props_contains ''interceptors'' p")
  case True
  have "\<exists>x. props_get as_Interceptors ''interceptors'' p = Inr x"
    by (rule props_get_typed [OF assms True])
       (use props_ok_typed(5) [OF assms] in \<open>force simp: as_Interceptors_def\<close>)
  then obtain x where x: "props_get as_Interceptors ''interceptors'' p = Inr x" by blast
  show ?thesis
    unfolding set_interceptors_def x seqM_liftE by (intro triple_rules) (simp_all add: under_construction_def)
qed (auto simp: set_interceptors_def intro: triple_rules)

lemma keeps_set_callbacks:
  assumes "props_ok p"
  shows "keeps (under_construction p) is_kafka_exception (set_callbacks A p)"
  unfolding set_callbacks_def
  using props_ok_typed [OF assms]
  by (intro triple_rules keeps_set_callback assms keeps_set_interceptors)
     (fastforce simp: as_StatsCallback_def as_ErrorCallback_def as_Oauthbearer_def under_construction_def)+

lemma open_client_establishes:
  "triple (under_construction p) (open_client A t p)
     (\<lambda>_ s. under_construction p s \<and> opened s) (\<lambda>e _. is_kafka_exception e)"
  by (auto simp: open_client_def getProperty_eq under_construction_def triple_def seqM_def split: option.split)

lemma construct_client_establishes:
  assumes "props_ok p"
  shows "triple (under_construction p) (construct_client A t p (register_callback A k))
     (\<lambda>_ s. under_construction p s \<and> opened s) (\<lambda>e _. is_kafka_exception e)"
proof -
  have extra: "keeps (under_construction p) is_kafka_exception (register_callback A k)"
    by (cases k) (auto simp: register_callback_def intro: triple_rules)
  show ?thesis
    unfolding construct_client_def
    by (rule triple_seqM [OF keeps_save_client_id], rule triple_seqM [OF keeps_save_log_cb [OF assms]],
        rule triple_seqM [OF keeps_save_log_level], rule triple_seqM [OF keeps_save_polling],
        rule triple_seqM [OF keeps_configure [OF assms subset_refl]],
        rule triple_seqM [OF keeps_set_callbacks [OF assms]], rule triple_seqM [OF extra],
        rule open_client_establishes)
qed

section \<open>Validation\<close>

definition reformed :: "string \<Rightarrow> Properties \<Rightarrow> Properties" where
  "reformed random p =
     (let p1 = (if prop_string CLIENT_ID p = None then omap_put CLIENT_ID (ValueType_of (StringObj random)) p else p)
      in if prop_string LOG_LEVEL p1 = None
         then omap_put LOG_LEVEL (ValueType_of (StringObj ''5'')) p1 else p1)"

lemma key_fits_config [simp]:
  "key_fits CLIENT_ID (StringObj str)" "key_fits LOG_LEVEL (StringObj str)"
  "key_fits GROUP_ID (StringObj str)" "key_fits ENABLE_AUTO_COMMIT (StringObj str)"
  "key_fits MAX_POLL_RECORDS (StringObj str)"
  by (simp_all add: key_fits_string nonStringValueKeys_def config_keys)

lemma config_keys_distinct [simp]:
  "CLIENT_ID \<noteq> LOG_LEVEL" "LOG_LEVEL \<noteq> CLIENT_ID" "BOOTSTRAP_SERVERS \<noteq> CLIENT_ID"
  "BOOTSTRAP_SERVERS \<noteq> LOG_LEVEL" "GROUP_ID \<noteq> CLIENT_ID" "GROUP_ID \<noteq> LOG_LEVEL"
  "CLIENT_ID \<noteq> GROUP_ID" "LOG_LEVEL \<noteq> GROUP_ID" "LOG_LEVEL \<noteq> BOOTSTRAP_SERVERS" "CLIENT_ID \<noteq> BOOTSTRAP_SERVERS"
  "GROUP_ID \<noteq> BOOTSTRAP_SERVERS" "BOOTSTRAP_SERVERS \<noteq> GROUP_ID"
  by (simp_all add: config_keys)

lemma show_int_5 [simp]: "show_int 5 = ''5''"
  by code_simp

lemma validate_eq:
  "validateAndReformProperties random p =
     (if prop_string BOOTSTRAP_SERVERS p = None
      then Inl (invalid_arg (''Validation failed! With no property ['' @ BOOTSTRAP_SERVERS @ '']''))
      else Inr (reformed random p))"
  by (auto simp: validateAndReformProperties_def getProperty_eq props_put_apply reformed_def split: option.split)

lemma reformed_ok [simp]: "props_ok p \<Longrightarrow> props_ok (reformed random p)"
  by (simp add: reformed_def Let_def)

lemma prop_string_reformed:
  "prop_string k (reformed random p) =
     (if k = CLIENT_ID \<and> prop_string CLIENT_ID p = None then Some random
      else if k = LOG_LEVEL \<and> prop_string LOG_LEVEL p = None then Some ''5''
      else prop_string k p)"
  by (auto simp: reformed_def Let_def)

lemma reformed_idem: "reformed r' (reformed r p) = reformed r p"
proof -
  have "prop_string CLIENT_ID (reformed r p) \<noteq> None" "prop_string LOG_LEVEL (reformed r p) \<noteq> None"
    by (simp_all add: prop_string_reformed)
  then obtain a b where "prop_string CLIENT_ID (reformed r p) = Some a" "prop_string LOG_LEVEL (reformed r p) = Some b"
    by blast
  then show ?thesis by (simp add: reformed_def [of r'] Let_def)
qed

section \<open>A library for the witnesses\<close>

definition echo_api :: "(string, string) omap client_api" where
  \<comment> \<open>a library that takes every setting and remembers it\<close>
  "echo_api = \<lparr>the_lib = rdkafka_h,
     rd_kafka_conf_set = (\<lambda>k v w. (True, omap_put k v w)),
     rd_kafka_conf_set_cb = (\<lambda>_ w. w),
     rd_kafka_conf_interceptor_add_on_new = (\<lambda>w. (RD_KAFKA_RESP_ERR_NO_ERROR, w)),
     rd_kafka_new = (\<lambda>_ w. (RD_KAFKA_RESP_ERR_NO_ERROR, w)),
     rd_kafka_brokers_add = (\<lambda>_ w. (1, w)),
     rd_kafka_set_log_level = (\<lambda>_ w. w),
     rd_kafka_conf_get = (\<lambda>k n w. map_option (\<lambda>v. (take (n - 1) v @ [CHR 0x00], length v + 1)) (omap_find k w)),
     rd_kafka_metadata_call = (\<lambda>_ _ w. ((RD_KAFKA_RESP_ERR__FAIL, \<lparr>brokers = [], metadata_topics = [], orig_broker_name = None\<rparr>), w)),
     rd_kafka_fatal_error = (\<lambda>_. (RD_KAFKA_RESP_ERR__FAIL, ''fatal'')),
     rd_kafka_oauthbearer_set_token = (\<lambda>_ _ _ _ w. ((RD_KAFKA_RESP_ERR_NO_ERROR, []), w)),
     rd_kafka_oauthbearer_set_token_failure = (\<lambda>_ w. w),
     rd_kafka_interceptor_add_on_thread_start = (\<lambda>w. (RD_KAFKA_RESP_ERR_NO_ERROR, w)),
     rd_kafka_interceptor_add_on_thread_exit = (\<lambda>w. (RD_KAFKA_RESP_ERR_NO_ERROR, w)),
     rd_kafka_interceptor_add_on_broker_state_change = (\<lambda>w. (RD_KAFKA_RESP_ERR_NO_ERROR, w))\<rparr>"

definition quiet_api :: "'w client_api" where
  "quiet_api = \<lparr>the_lib = rdkafka_h,
     rd_kafka_conf_set = (\<lambda>k v w. (True, w)),
     rd_kafka_conf_set_cb = (\<lambda>_ w. w),
     rd_kafka_conf_interceptor_add_on_new = (\<lambda>w. (RD_KAFKA_RESP_ERR_NO_ERROR, w)),
     rd_kafka_new = (\<lambda>_ w. (RD_KAFKA_RESP_ERR_NO_ERROR, w)),
     rd_kafka_brokers_add = (\<lambda>_ w. (1, w)),
     rd_kafka_set_log_level = (\<lambda>_ w. w),
     rd_kafka_conf_get = (\<lambda>k n w. None),
     rd_kafka_metadata_call = (\<lambda>_ _ w. ((RD_KAFKA_RESP_ERR__FAIL, \<lparr>brokers = [], metadata_topics = [], orig_broker_name = None\<rparr>), w)),
     rd_kafka_fatal_error = (\<lambda>_. (RD_KAFKA_RESP_ERR__FAIL, ''fatal'')),
     rd_kafka_oauthbearer_set_token = (\<lambda>_ _ _ _ w. ((RD_KAFKA_RESP_ERR_NO_ERROR, []), w)),
     rd_kafka_oauthbearer_set_token_failure = (\<lambda>_ w. w),
     rd_kafka_interceptor_add_on_thread_start = (\<lambda>w. (RD_KAFKA_RESP_ERR_NO_ERROR, w)),
     rd_kafka_interceptor_add_on_thread_exit = (\<lambda>w. (RD_KAFKA_RESP_ERR_NO_ERROR, w)),
     rd_kafka_interceptor_add_on_broker_state_change = (\<lambda>w. (RD_KAFKA_RESP_ERR_NO_ERROR, w))\<rparr>"

definition sample_properties :: Properties where
  "sample_properties = omap_put BOOTSTRAP_SERVERS (ValueType_of (StringObj ''broker:9092'')) []"

lemma sample_properties_ok [simp]: "props_ok sample_properties"
  unfolding sample_properties_def
  by (rule props_ok_put) (simp_all add: key_fits_string nonStringValueKeys_def config_keys)

lemma prop_string_sample [simp]:
  "prop_string k sample_properties = (if k = BOOTSTRAP_SERVERS then Some ''broker:9092'' else None)"
  unfolding sample_properties_def prop_string_put by (simp add: prop_string_def)

section \<open>Properties\<close>

text \<open>C18. Safety of the constructor: from a well-typed configuration it either returns an open client
  whose log level is between 0 and 7 and whose accepted properties are string properties of the
  configuration, or throws a \<open>KafkaException\<close>; no exception of the standard library (from \<open>stoi\<close>, a cast
  or a rejected \<open>put\<close>) leaves it.\<close>

theorem client_construction_safe:
  assumes "props_ok p"
  shows "case construct_client A t p (register_callback A k) (client_default w) of
      (Inr _, s) \<Rightarrow> opened s \<and> 0 \<le> logLevel s \<and> logLevel s \<le> 7 \<and> accepted_from p (properties s)
    | (Inl e, _) \<Rightarrow> is_kafka_exception e"
proof -
  have "under_construction p (client_default w)"
    by (simp add: under_construction_def client_default_def accepted_from_def)
  note start = this
  note run = construct_client_establishes [OF assms, of A t k]
  obtain r s where rs: "construct_client A t p (register_callback A k) (client_default w) = (r, s)"
    by (cases "construct_client A t p (register_callback A k) (client_default w)")
  show ?thesis
  proof (cases r)
    case (Inl e)
    then show ?thesis using triple_throws [OF run start] rs by simp
  next
    case (Inr x)
    then show ?thesis using triple_returns [OF run start] rs by (simp add: under_construction_def)
  qed
qed

theorem client_construction_safe_witness:
  "case construct_client echo_api KafkaProducer sample_properties (register_callback echo_api (Some Conf_dr_msg_cb))
      (client_default []) of
      (Inr _, s) \<Rightarrow> opened s \<and> 0 \<le> logLevel s \<and> logLevel s \<le> 7 \<and> accepted_from sample_properties (properties s)
    | (Inl e, _) \<Rightarrow> is_kafka_exception e"
  by (rule client_construction_safe) simp

text \<open>Validation: it fails exactly when there is no string for the bootstrap servers; otherwise
  the result is well typed, has a client id (the generated one only if there was none), a log
  level (5 only if there was none) and every other string as given, and validating again changes
  nothing.\<close>

lemma validation_fills_defaults:
  assumes "props_ok p"
  shows "validateAndReformProperties random p =
      (if prop_string BOOTSTRAP_SERVERS p = None
       then Inl (invalid_arg (''Validation failed! With no property ['' @ BOOTSTRAP_SERVERS @ '']''))
       else Inr (reformed random p)) \<and>
    props_ok (reformed random p) \<and>
    prop_string k (reformed random p) =
      (case prop_string k p of
         Some v \<Rightarrow> Some v
       | None \<Rightarrow> if k = CLIENT_ID then Some random else if k = LOG_LEVEL then Some ''5'' else None) \<and>
    reformed random' (reformed random p) = reformed random p"
  using assms by (auto simp: validate_eq prop_string_reformed reformed_idem split: option.split)

text \<open>Time-outs: for every number of milliseconds that is not negative, the integer given to the
  library is that number if it fits an \<open>int\<close> and the library's infinite time-out otherwise, so
  \<open>InfiniteTimeout\<close> is infinite; the result always fits an \<open>int\<close>.\<close>

lemma timeout_conversion_exact:
  "convertMsDurationToInt (int n) = (if int n \<le> INT_MAX then int n else TIMEOUT_INFINITE) \<and>
   convertMsDurationToInt InfiniteTimeout = TIMEOUT_INFINITE \<and>
   - (2 ^ 31) \<le> convertMsDurationToInt ms \<and> convertMsDurationToInt ms < 2 ^ 31"
  using to_int32_range [of ms] to_int32_id [of "int n"]
  by (simp add: convertMsDurationToInt_def INT_MAX_def InfiniteTimeout_def INT64_MAX_def TIMEOUT_INFINITE_def)

text \<open>Reading a property through the library: with \<open>rd_kafka_conf_get\<close> as documented (it writes
  as much of the value as fits with a terminating NUL and reports the size needed), the protocol of
  a first buffer of 512 bytes and a second one of the reported size returns the whole value,
  whatever its length; the client's own accepted properties come first.\<close>

lemma getProperty_reads_whole_value:
  assumes "\<And>n. rd_kafka_conf_get A (c_str name) n (world s) =
      map_option (\<lambda>v. (take (n - 1) v @ [CHR 0x00], length v + 1)) stored"
    and "\<And>v. stored = Some v \<Longrightarrow> no_nul v"
  shows "client_getProperty A name s =
    Inr (case prop_string name (properties s) of Some v \<Rightarrow> Some v | None \<Rightarrow> stored)"
proof (cases stored)
  case (Some v)
  have "no_nul v" using assms(2) [OF Some] .
  then have "c_str (v @ [CHR 0x00]) = v" using c_str_prefix [of v "[]"] by simp
  then show ?thesis
    by (auto simp: client_getProperty_def getProperty_eq assms(1) Some split: option.split)
qed (auto simp: client_getProperty_def getProperty_eq assms(1) split: option.split)

definition log_line :: "('w, 'm) client_scheme \<Rightarrow> string \<Rightarrow> string" where
  "log_line s content = take 1023 (clientName s @ '' '' @ content)"

text \<open>Logging and log levels: \<open>setLogLevel\<close> stores the nearest level between 0 and 7 and tells the
  library the same one; a log line reaches the callback exactly if its level is between 0 and the
  client's, and it is the client's name and the text, cut to what fits the line buffer; logging never
  fails.\<close>

lemma log_level_governs_logging:
  assumes "no_nul (clientName s)" "no_nul content"
  shows "doLog level filename lineno content s =
      (Inr (), if 0 \<le> level \<and> level \<le> logLevel s
        then (case logCb s of None \<Rightarrow> s
              | Some h \<Rightarrow> s\<lparr>events := events s @ [LogEvent h level filename lineno (log_line s content)]\<rparr>)
        else s) \<and>
    setLogLevel A l s = (Inr (), s\<lparr>logLevel := max 0 (min 7 l),
      world := rd_kafka_set_log_level A (max 0 (min 7 l)) (world s)\<rparr>)"
proof
  let ?fresh = "buffer_clear \<lparr>buf = replicate LOG_BUFFER_SIZE CHR 0x00, wptr = 0\<rparr>"
  have "buffer_holds LOG_BUFFER_SIZE [] ?fresh"
    by (rule buffer_holds_clear) (simp_all add: LOG_BUFFER_SIZE_def)
  from buffer_prints_holds [OF this, of "[c_str (clientName s) @ '' '', content]"]
  obtain b where b: "buffer_prints LOG_BUFFER_SIZE [c_str (clientName s) @ '' '', content] ?fresh = Inr b"
    "buffer_holds LOG_BUFFER_SIZE (clientName s @ '' '' @ content) b"
    using assms(1) by (auto simp: LOG_BUFFER_SIZE_def)
  have "no_nul (clientName s @ '' '' @ content)" using assms by (auto simp: no_nul_def)
  then have line: "buffer_c_str b = log_line s content"
    using buffer_holds_c_str [OF b(2)] by (simp add: log_line_def LOG_BUFFER_SIZE_def)
  show "doLog level filename lineno content s =
      (Inr (), if 0 \<le> level \<and> level \<le> logLevel s
        then (case logCb s of None \<Rightarrow> s
              | Some h \<Rightarrow> s\<lparr>events := events s @ [LogEvent h level filename lineno (log_line s content)]\<rparr>)
        else s)"
    by (simp add: doLog_def b(1) line call_cb_apply del: buffer_prints.simps split: option.split)
  show "setLogLevel A l s = (Inr (), s\<lparr>logLevel := max 0 (min 7 l),
      world := rd_kafka_set_log_level A (max 0 (min 7 l)) (world s)\<rparr>)"
    by (auto simp: setLogLevel_def max_def min_def)
qed

end
