(* ===== verification/Kafka_Consumer.thy ===== *)
theory Kafka_Consumer
  imports Kafka_Client
begin

text \<open>
  \<open>KafkaConsumer.h\<close>: the consumer's state (its subscription, its assignment, the pending rebalance
  event, the offsets to commit) and all its operations. The library's functions are a record that
  extends the base client's; a call that serves callbacks returns the list of those it serves, which
  the consumer then handles in order. Loops that wait for the clock or the library have a fuel argument.
\<close>

section \<open>State and interface\<close>

datatype PendingEvent = PartitionsAssignment | PartitionsRevocation

datatype CommitType = Sync | Async

datatype PartitionsRebalanceEvent = Assign | Revoke | IncrementalAssign | IncrementalUnassign

datatype PauseOrResumeOperation = Pause | Resume

record 'w consumer = "'w client" +
  groupId :: string
  maxPollRecords :: nat
  enableAutoCommit :: bool
  curAssignment :: TopicPartitions
  userAssignment :: TopicPartitions
  userSubscription :: Topics
  pendingEvent :: "PendingEvent option"
  cooperativeEnabled :: "bool option"
  offsetsToStore :: TopicPartitionOffsets
  rebalanceCb :: callback

datatype served =
    Served_rebalance rd_kafka_resp_err_t "rd_kafka_topic_partition_list_t option"
  | Served_offset_commit rd_kafka_resp_err_t "rd_kafka_topic_partition_list_t option" callback

text \<open>
  \<open>rd_kafka_topic_new\<close> returns the error of a null result; \<open>rd_kafka_consume_batch_queue\<close> the
  messages or \<open>rd_kafka_last_error()\<close> when the count is negative; functions that fill in a list
  return the filled list. \<open>steady_now\<close> is \<open>std::chrono::steady_clock\<close> in nanoseconds.
\<close>

record 'w consumer_api = "'w client_api" +
  steady_now :: "'w \<Rightarrow> int \<times> 'w"
  rd_kafka_poll_set_consumer :: "'w \<Rightarrow> rd_kafka_resp_err_t \<times> 'w"
  rd_kafka_poll :: "int \<Rightarrow> 'w \<Rightarrow> served list \<times> 'w"
  rd_kafka_queue_poll_callback :: "int \<Rightarrow> 'w \<Rightarrow> served list \<times> 'w"
  rd_kafka_consumer_close :: "'w \<Rightarrow> served list \<times> 'w"
  rd_kafka_outq_len :: "'w \<Rightarrow> int \<times> 'w"
  rd_kafka_queue_length :: "'w \<Rightarrow> nat \<times> 'w"
  rd_kafka_subscribe :: "rd_kafka_topic_partition_list_t \<Rightarrow> 'w \<Rightarrow> rd_kafka_resp_err_t \<times> 'w"
  rd_kafka_unsubscribe :: "'w \<Rightarrow> rd_kafka_resp_err_t \<times> 'w"
  rd_kafka_subscription :: "'w \<Rightarrow> (rd_kafka_resp_err_t \<times> rd_kafka_topic_partition_list_t option) \<times> 'w"
  rd_kafka_assign :: "rd_kafka_topic_partition_list_t option \<Rightarrow> 'w \<Rightarrow> rd_kafka_resp_err_t \<times> 'w"
  rd_kafka_incremental_assign :: "rd_kafka_topic_partition_list_t \<Rightarrow> 'w \<Rightarrow> rk_error option \<times> 'w"
  rd_kafka_incremental_unassign :: "rd_kafka_topic_partition_list_t \<Rightarrow> 'w \<Rightarrow> rk_error option \<times> 'w"
  rd_kafka_assignment :: "'w \<Rightarrow> (rd_kafka_resp_err_t \<times> rd_kafka_topic_partition_list_t option) \<times> 'w"
  rd_kafka_rebalance_protocol :: "'w \<Rightarrow> string option"
  rd_kafka_topic_new :: "string \<Rightarrow> 'w \<Rightarrow> rd_kafka_resp_err_t option \<times> 'w"
  rd_kafka_seek :: "string \<Rightarrow> int \<Rightarrow> int \<Rightarrow> int \<Rightarrow> 'w \<Rightarrow> rd_kafka_resp_err_t \<times> 'w"
  rd_kafka_position ::
    "rd_kafka_topic_partition_list_t \<Rightarrow> 'w \<Rightarrow> (rd_kafka_resp_err_t \<times> rd_kafka_topic_partition_list_t) \<times> 'w"
  rd_kafka_offsets_for_times ::
    "rd_kafka_topic_partition_list_t \<Rightarrow> int \<Rightarrow> 'w \<Rightarrow> (rd_kafka_resp_err_t \<times> rd_kafka_topic_partition_list_t) \<times> 'w"
  rd_kafka_query_watermark_offsets :: "string \<Rightarrow> int \<Rightarrow> int \<Rightarrow> 'w \<Rightarrow> (rd_kafka_resp_err_t \<times> int \<times> int) \<times> 'w"
  rd_kafka_commit :: "rd_kafka_topic_partition_list_t option \<Rightarrow> bool \<Rightarrow> 'w \<Rightarrow> rd_kafka_resp_err_t \<times> 'w"
  rd_kafka_commit_queue ::
    "rd_kafka_topic_partition_list_t option \<Rightarrow> callback \<Rightarrow> 'w \<Rightarrow> rd_kafka_resp_err_t \<times> 'w"
  rd_kafka_committed ::
    "rd_kafka_topic_partition_list_t \<Rightarrow> int \<Rightarrow> 'w \<Rightarrow> (rd_kafka_resp_err_t \<times> rd_kafka_topic_partition_list_t) \<times> 'w"
  rd_kafka_consume_batch_queue ::
    "int \<Rightarrow> nat \<Rightarrow> 'w \<Rightarrow> (served list \<times> (rd_kafka_resp_err_t + rd_kafka_message_t list)) \<times> 'w"
  rd_kafka_pause_partitions ::
    "rd_kafka_topic_partition_list_t \<Rightarrow> 'w \<Rightarrow> (rd_kafka_resp_err_t \<times> rd_kafka_topic_partition_list_t) \<times> 'w"
  rd_kafka_resume_partitions ::
    "rd_kafka_topic_partition_list_t \<Rightarrow> 'w \<Rightarrow> (rd_kafka_resp_err_t \<times> rd_kafka_topic_partition_list_t) \<times> 'w"

definition kafka_error :: "rd_kafka_resp_err_t \<Rightarrow> string \<Rightarrow> exn" where
  "kafka_error c m = throw_error (Error_message c m)"

definition SEEK_RETRY_INTERVAL_MS :: int where
  "SEEK_RETRY_INTERVAL_MS = 5000"

section \<open>Rebalancing\<close>

definition isCooperativeEnabled :: "('w, 'm) consumer_scheme \<Rightarrow> bool" where
  "isCooperativeEnabled s \<longleftrightarrow> cooperativeEnabled s = Some True"

fun incremental_add :: "TopicPartitions \<Rightarrow> TopicPartitions \<Rightarrow> TopicPartitions" where
  "incremental_add cur [] = cur"
| "incremental_add cur (tp # tps) =
     (if tp \<in> set cur then incremental_add cur tps else incremental_add (oset_insert tp cur) tps)"

fun incremental_remove :: "TopicPartitions \<Rightarrow> TopicPartitions \<Rightarrow> TopicPartitions" where
  "incremental_remove cur [] = cur"
| "incremental_remove cur (tp # tps) =
     (if tp \<notin> set cur then incremental_remove cur tps else incremental_remove (oset_erase tp cur) tps)"

definition changeAssignment ::
  "('w, 'n) consumer_api_scheme \<Rightarrow> PartitionsRebalanceEvent \<Rightarrow> TopicPartitions \<Rightarrow> (('w, 'm) consumer_scheme, exn, unit) prog" where
  "changeAssignment A event tps =
     (let rk_tps = createRkList_of_tps (the_lib A) tps in
      case event of
        Assign \<Rightarrow>
          seqM (lib_call (rd_kafka_assign A (Some rk_tps))) (\<lambda>r.
          seqM (modM (\<lambda>s. s\<lparr>curAssignment := tps\<rparr>)) (\<lambda>_. throw_if (Error_copy (Error_code r))))
      | Revoke \<Rightarrow>
          seqM (lib_call (rd_kafka_assign A None)) (\<lambda>r.
          seqM (modM (\<lambda>s. s\<lparr>curAssignment := []\<rparr>)) (\<lambda>_. throw_if (Error_copy (Error_code r))))
      | IncrementalAssign \<Rightarrow>
          seqM (lib_call (rd_kafka_incremental_assign A rk_tps)) (\<lambda>r.
          seqM (modM (\<lambda>s. s\<lparr>curAssignment := incremental_add (curAssignment s) tps\<rparr>))
            (\<lambda>_. throw_if (Error_copy (Error_rich r))))
      | IncrementalUnassign \<Rightarrow>
          seqM (lib_call (rd_kafka_incremental_unassign A rk_tps)) (\<lambda>r.
          seqM (modM (\<lambda>s. s\<lparr>curAssignment := incremental_remove (curAssignment s) tps\<rparr>))
            (\<lambda>_. throw_if (Error_copy (Error_rich r)))))"

definition learn_protocol :: "('w, 'n) consumer_api_scheme \<Rightarrow> ('w, 'm) consumer_scheme \<Rightarrow> ('w, 'm) consumer_scheme" where
  "learn_protocol A s =
     (if cooperativeEnabled s = None then
        (case rd_kafka_rebalance_protocol A (world s) of
           None \<Rightarrow> s
         | Some protocol \<Rightarrow> s\<lparr>cooperativeEnabled := Some (protocol = ''COOPERATIVE'')\<rparr>)
      else s)"

definition clear_pending :: "rd_kafka_resp_err_t \<Rightarrow> ('w, 'm) consumer_scheme \<Rightarrow> ('w, 'm) consumer_scheme" where
  "clear_pending err s =
     (if (err = RD_KAFKA_RESP_ERR__ASSIGN_PARTITIONS \<and> pendingEvent s = Some PartitionsAssignment) \<or>
         (err = RD_KAFKA_RESP_ERR__REVOKE_PARTITIONS \<and> pendingEvent s = Some PartitionsRevocation)
      then s\<lparr>pendingEvent := None\<rparr> else s)"

definition onRebalance ::
  "('w, 'n) consumer_api_scheme \<Rightarrow> rd_kafka_resp_err_t \<Rightarrow> rd_kafka_topic_partition_list_t option \<Rightarrow>
     (('w, 'm) consumer_scheme, exn, unit) prog" where
  "onRebalance A err rk_partitions =
     (let tps = getTopicPartitions rk_partitions in
      if err \<noteq> RD_KAFKA_RESP_ERR__ASSIGN_PARTITIONS \<and> err \<noteq> RD_KAFKA_RESP_ERR__REVOKE_PARTITIONS then ret ()
      else
        seqM (modM (learn_protocol A)) (\<lambda>_.
        seqM (modM (clear_pending err)) (\<lambda>_.
        seqM (getM isCooperativeEnabled) (\<lambda>coop.
        let event = (if err = RD_KAFKA_RESP_ERR__ASSIGN_PARTITIONS
                     then (if coop then IncrementalAssign else Assign)
                     else (if coop then IncrementalUnassign else Revoke)) in
        seqM (if err = RD_KAFKA_RESP_ERR__ASSIGN_PARTITIONS then changeAssignment A event tps else ret ()) (\<lambda>_.
        seqM (seqM (getM rebalanceCb) (\<lambda>cb. call_cb cb (\<lambda>h. RebalanceEvent h
                (if err = RD_KAFKA_RESP_ERR__ASSIGN_PARTITIONS then PartitionsAssigned else PartitionsRevoked) tps))) (\<lambda>_.
        if err = RD_KAFKA_RESP_ERR__REVOKE_PARTITIONS then changeAssignment A event (if coop then tps else [])
        else ret ()))))))"

definition offsetCommitCallback ::
  "rd_kafka_resp_err_t \<Rightarrow> rd_kafka_topic_partition_list_t option \<Rightarrow> callback \<Rightarrow> (('w, 'm) consumer_scheme, exn, unit) prog" where
  "offsetCommitCallback err rk_tpos opaque =
     call_cb opaque (\<lambda>h. OffsetCommitEvent h (getTopicPartitionOffsets rk_tpos) (Error_code err))"

definition serve :: "('w, 'n) consumer_api_scheme \<Rightarrow> served \<Rightarrow> (('w, 'm) consumer_scheme, exn, unit) prog" where
  \<comment> \<open>\<open>rebalanceCallback\<close> and \<open>offsetCommitCallback\<close> as registered with the library\<close>
  "serve A c = (case c of
       Served_rebalance err l \<Rightarrow> onRebalance A err l
     | Served_offset_commit err l cb \<Rightarrow> offsetCommitCallback err l cb)"

fun serve_all :: "('w, 'n) consumer_api_scheme \<Rightarrow> served list \<Rightarrow> (('w, 'm) consumer_scheme, exn, unit) prog" where
  "serve_all A [] = ret ()"
| "serve_all A (c # cs) = seqM (serve A c) (\<lambda>_. serve_all A cs)"

definition poll_library :: "('w, 'n) consumer_api_scheme \<Rightarrow> int \<Rightarrow> (('w, 'm) consumer_scheme, exn, unit) prog" where
  "poll_library A timeoutMs = seqM (lib_call (rd_kafka_poll A timeoutMs)) (serve_all A)"

definition consumer_pollCallbacks :: "('w, 'n) consumer_api_scheme \<Rightarrow> int \<Rightarrow> (('w, 'm) consumer_scheme, exn, unit) prog" where
  "consumer_pollCallbacks A timeoutMs = seqM (lib_call (rd_kafka_queue_poll_callback A timeoutMs)) (serve_all A)"

section \<open>Subscribing and assigning\<close>

text \<open>
  The loop of \<open>subscribe\<close> and \<open>unsubscribe\<close>: it ends with \<open>True\<close> when the pending event has been
  handled and with \<open>False\<close> at the deadline.
\<close>

fun await_event :: "('w, 'n) consumer_api_scheme \<Rightarrow> int \<Rightarrow> nat \<Rightarrow> (('w, 'm) consumer_scheme, exn, bool) prog" where
  "await_event A until 0 = throw Out_of_fuel"
| "await_event A until (Suc fuel) =
     seqM (lib_call (steady_now A)) (\<lambda>now.
     if \<not> now < until then ret False
     else seqM (poll_library A EVENT_POLLING_INTERVAL_MS) (\<lambda>_.
          seqM (getM pendingEvent) (\<lambda>p.
          if p = None then ret True else await_event A until fuel)))"

definition await_or_time_out ::
  "('w, 'n) consumer_api_scheme \<Rightarrow> nat \<Rightarrow> int \<Rightarrow> string \<Rightarrow> (('w, 'm) consumer_scheme, exn, unit) prog" where
  "await_or_time_out A fuel timeout what =
     seqM (lib_call (steady_now A)) (\<lambda>now.
     seqM (await_event A (deadline now timeout) fuel) (\<lambda>done.
     if done then ret ()
     else seqM (modM (\<lambda>s. s\<lparr>pendingEvent := None\<rparr>)) (\<lambda>_.
          throw (kafka_error RD_KAFKA_RESP_ERR__TIMED_OUT (what @ ''() timed out!'')))))"

definition start_subscription ::
  "('w, 'n) consumer_api_scheme \<Rightarrow> nat \<Rightarrow> Topics \<Rightarrow> callback \<Rightarrow> int \<Rightarrow> (('w, 'm) consumer_scheme, exn, unit) prog" where
  \<comment> \<open>\<open>subscribe\<close> after its two checks\<close>
  "start_subscription A fuel topics cb timeout =
     seqM (modM (\<lambda>s. s\<lparr>userSubscription := topics\<rparr>)) (\<lambda>_.
     seqM (modM (\<lambda>s. s\<lparr>rebalanceCb := cb\<rparr>)) (\<lambda>_.
     seqM (lib_call (rd_kafka_subscribe A (createRkList_of_topics (the_lib A) topics))) (\<lambda>r.
     seqM (throw_if (Error_code r)) (\<lambda>_.
     seqM (modM (\<lambda>s. s\<lparr>pendingEvent := Some PartitionsAssignment\<rparr>)) (\<lambda>_.
     await_or_time_out A fuel timeout ''subscribe'')))))"

definition subscribe ::
  "('w, 'n) consumer_api_scheme \<Rightarrow> nat \<Rightarrow> Topics \<Rightarrow> callback \<Rightarrow> int \<Rightarrow> (('w, 'm) consumer_scheme, exn, unit) prog" where
  "subscribe A fuel topics cb timeout =
     seqM (getM (\<lambda>s. s)) (\<lambda>s0.
     if userAssignment s0 \<noteq> [] then
       throw (kafka_error RD_KAFKA_RESP_ERR__FAIL
         ''Unexpected Operation! Once assign() was used, subscribe() should not be called any more!'')
     else if isCooperativeEnabled s0 \<and> topics = userSubscription s0 then ret ()
     else start_subscription A fuel topics cb timeout)"

definition start_unsubscription ::
  "('w, 'n) consumer_api_scheme \<Rightarrow> nat \<Rightarrow> int \<Rightarrow> (('w, 'm) consumer_scheme, exn, unit) prog" where
  \<comment> \<open>\<open>unsubscribe\<close> of a subscribed consumer\<close>
  "start_unsubscription A fuel timeout =
     seqM (modM (\<lambda>s. s\<lparr>userSubscription := []\<rparr>)) (\<lambda>_.
     seqM (lib_call (rd_kafka_unsubscribe A)) (\<lambda>r.
     seqM (throw_if (Error_code r)) (\<lambda>_.
     seqM (modM (\<lambda>s. s\<lparr>pendingEvent := Some PartitionsRevocation\<rparr>)) (\<lambda>_.
     await_or_time_out A fuel timeout ''unsubscribe''))))"

definition unsubscribe ::
  "('w, 'n) consumer_api_scheme \<Rightarrow> nat \<Rightarrow> int \<Rightarrow> (('w, 'm) consumer_scheme, exn, unit) prog" where
  "unsubscribe A fuel timeout =
     seqM (getM (\<lambda>s. s)) (\<lambda>s0.
     if userSubscription s0 = [] \<and> userAssignment s0 = [] then ret ()
     else if userAssignment s0 \<noteq> [] then
       seqM (changeAssignment A (if isCooperativeEnabled s0 then IncrementalUnassign else Revoke) (userAssignment s0)) (\<lambda>_.
       modM (\<lambda>s. s\<lparr>userAssignment := []\<rparr>))
     else start_unsubscription A fuel timeout)"

definition subscription :: "('w, 'n) consumer_api_scheme \<Rightarrow> (('w, 'm) consumer_scheme, exn, Topics) prog" where
  "subscription A = seqM (lib_call (rd_kafka_subscription A)) (\<lambda>r.
     seqM (throw_if (Error_code (fst r))) (\<lambda>_. ret (getTopics (snd r))))"

definition consumer_assign ::
  "('w, 'n) consumer_api_scheme \<Rightarrow> TopicPartitions \<Rightarrow> (('w, 'm) consumer_scheme, exn, unit) prog" where
  "consumer_assign A tps =
     seqM (getM (\<lambda>s. s)) (\<lambda>s0.
     if userSubscription s0 \<noteq> [] then
       throw (kafka_error RD_KAFKA_RESP_ERR__FAIL
         ''Unexpected Operation! Once subscribe() was used, assign() should not be called any more!'')
     else
       seqM (modM (\<lambda>s. s\<lparr>userAssignment := tps\<rparr>)) (\<lambda>_.
       changeAssignment A (if isCooperativeEnabled s0 then IncrementalAssign else Assign) tps))"

definition assignment :: "('w, 'n) consumer_api_scheme \<Rightarrow> (('w, 'm) consumer_scheme, exn, TopicPartitions) prog" where
  "assignment A = seqM (lib_call (rd_kafka_assignment A)) (\<lambda>r.
     seqM (throw_if (Error_code (fst r))) (\<lambda>_. ret (getTopicPartitions (snd r))))"

section \<open>Seeking and positions\<close>

definition seek_retriable :: "rd_kafka_resp_err_t \<Rightarrow> bool" where
  "seek_retriable e \<longleftrightarrow>
     e = RD_KAFKA_RESP_ERR__STATE \<or> e = RD_KAFKA_RESP_ERR__TIMED_OUT \<or> e = RD_KAFKA_RESP_ERR__OUTDATED"

fun seek_loop ::
  "('w, 'n) consumer_api_scheme \<Rightarrow> TopicPartition \<Rightarrow> Offset \<Rightarrow> int \<Rightarrow> nat \<Rightarrow>
     (('w, 'm) consumer_scheme, exn, rd_kafka_resp_err_t) prog" where
  "seek_loop A tp off until 0 = throw Out_of_fuel"
| "seek_loop A tp off until (Suc fuel) =
     seqM (lib_call (rd_kafka_seek A (c_str (fst tp)) (snd tp) off SEEK_RETRY_INTERVAL_MS)) (\<lambda>respErr.
     if \<not> seek_retriable respErr then ret respErr
     else seqM (lib_call (steady_now A)) (\<lambda>now.
          if now < until then seek_loop A tp off until fuel else ret respErr))"

definition seek ::
  "('w, 'n) consumer_api_scheme \<Rightarrow> nat \<Rightarrow> TopicPartition \<Rightarrow> Offset \<Rightarrow> int \<Rightarrow> (('w, 'm) consumer_scheme, exn, unit) prog" where
  "seek A fuel tp off timeout =
     seqM (lib_call (rd_kafka_topic_new A (c_str (fst tp)))) (\<lambda>rkt. case rkt of
       Some lastError \<Rightarrow> throw (throw_error (Error_code lastError))
     | None \<Rightarrow>
         seqM (lib_call (steady_now A)) (\<lambda>now.
         seqM (seek_loop A tp off (deadline now timeout) fuel) (\<lambda>respErr.
         throw_if (Error_code respErr))))"

fun seek_all ::
  "('w, 'n) consumer_api_scheme \<Rightarrow> nat \<Rightarrow> TopicPartitions \<Rightarrow> Offset \<Rightarrow> int \<Rightarrow> (('w, 'm) consumer_scheme, exn, unit) prog" where
  "seek_all A fuel [] off timeout = ret ()"
| "seek_all A fuel (tp # tps) off timeout =
     seqM (seek A fuel tp off timeout) (\<lambda>_. seek_all A fuel tps off timeout)"

definition seekToBeginningOrEnd ::
  "('w, 'n) consumer_api_scheme \<Rightarrow> nat \<Rightarrow> TopicPartitions \<Rightarrow> bool \<Rightarrow> int \<Rightarrow> (('w, 'm) consumer_scheme, exn, unit) prog" where
  "seekToBeginningOrEnd A fuel tps toBeginning timeout =
     seek_all A fuel tps
       (if toBeginning then RD_KAFKA_OFFSET_BEGINNING (the_lib A) else RD_KAFKA_OFFSET_END (the_lib A)) timeout"

definition seek_whole_assignment ::
  "('w, 'n) consumer_api_scheme \<Rightarrow> nat \<Rightarrow> bool \<Rightarrow> int \<Rightarrow> (('w, 'm) consumer_scheme, exn, unit) prog" where
  \<comment> \<open>\<open>seekToBeginning\<close> and \<open>seekToEnd\<close> without partitions\<close>
  "seek_whole_assignment A fuel toBeginning timeout =
     seqM (getM curAssignment) (\<lambda>tps. seekToBeginningOrEnd A fuel tps toBeginning timeout)"

definition first_offset :: "rd_kafka_topic_partition_list_t \<Rightarrow> ('s, exn, Offset) prog" where
  \<comment> \<open>\<open>elems[0].offset\<close>\<close>
  "first_offset l = (case l of
       [] \<Rightarrow> throw (StdException (Undefined_behaviour ''elems[0] of an empty list''))
     | e # _ \<Rightarrow> ret (rktp_offset e))"

definition position :: "('w, 'n) consumer_api_scheme \<Rightarrow> TopicPartition \<Rightarrow> (('w, 'm) consumer_scheme, exn, Offset) prog" where
  "position A tp = seqM (lib_call (rd_kafka_position A (createRkList_of_tps (the_lib A) [tp]))) (\<lambda>r.
     seqM (throw_if (Error_code (fst r))) (\<lambda>_. first_offset (snd r)))"

definition offsetsForTime ::
  "('w, 'n) consumer_api_scheme \<Rightarrow> TopicPartitions \<Rightarrow> int \<Rightarrow> int \<Rightarrow> (('w, 'm) consumer_scheme, exn, TopicPartitionOffsets) prog" where
  "offsetsForTime A tps epochMs timeout =
     (if tps = [] then ret []
      else
        seqM (lib_call (rd_kafka_offsets_for_times A
                (map (\<lambda>e. e\<lparr>rktp_offset := epochMs\<rparr>) (createRkList_of_tps (the_lib A) tps)) (to_int32 timeout))) (\<lambda>r.
        seqM (throw_if (Error_code (fst r))) (\<lambda>_.
        ret (filter (\<lambda>tp_o. snd tp_o \<noteq> epochMs) (getTopicPartitionOffsets (Some (snd r)))))))"

fun query_offsets ::
  "('w, 'n) consumer_api_scheme \<Rightarrow> bool \<Rightarrow> int \<Rightarrow> TopicPartitionOffsets \<Rightarrow> TopicPartitions \<Rightarrow>
     (('w, 'm) consumer_scheme, exn, TopicPartitionOffsets) prog" where
  "query_offsets A atBeginning timeout result [] = ret result"
| "query_offsets A atBeginning timeout result (tp # tps) =
     seqM (lib_call (rd_kafka_query_watermark_offsets A (c_str (fst tp)) (snd tp) (to_int32 timeout))) (\<lambda>(err, beginning, end_offset).
     seqM (throw_if (Error_code err)) (\<lambda>_.
     query_offsets A atBeginning timeout (omap_put tp (if atBeginning then beginning else end_offset) result) tps))"

definition getOffsets ::
  "('w, 'n) consumer_api_scheme \<Rightarrow> TopicPartitions \<Rightarrow> bool \<Rightarrow> int \<Rightarrow> (('w, 'm) consumer_scheme, exn, TopicPartitionOffsets) prog" where
  "getOffsets A tps atBeginning timeout = query_offsets A atBeginning timeout [] tps"

definition beginningOffsets ::
  "('w, 'n) consumer_api_scheme \<Rightarrow> TopicPartitions \<Rightarrow> int \<Rightarrow> (('w, 'm) consumer_scheme, exn, TopicPartitionOffsets) prog" where
  "beginningOffsets A tps timeout = getOffsets A tps True timeout"

definition endOffsets ::
  "('w, 'n) consumer_api_scheme \<Rightarrow> TopicPartitions \<Rightarrow> int \<Rightarrow> (('w, 'm) consumer_scheme, exn, TopicPartitionOffsets) prog" where
  "endOffsets A tps timeout = getOffsets A tps False timeout"

section \<open>Committing\<close>

definition rk_list_or_null :: "TopicPartitionOffsets \<Rightarrow> rd_kafka_topic_partition_list_t option" where
  "rk_list_or_null tpos = (if tpos = [] then None else Some (createRkTopicPartitionList tpos))"

definition commit ::
  "('w, 'n) consumer_api_scheme \<Rightarrow> TopicPartitionOffsets \<Rightarrow> CommitType \<Rightarrow> (('w, 'm) consumer_scheme, exn, unit) prog" where
  "commit A tpos type =
     seqM (lib_call (rd_kafka_commit A (rk_list_or_null tpos) (type = Async))) (\<lambda>r.
     throw_if (if tpos = [] \<and> r = RD_KAFKA_RESP_ERR__NO_OFFSET then Error_default else Error_code r))"

definition committed :: "('w, 'n) consumer_api_scheme \<Rightarrow> TopicPartition \<Rightarrow> (('w, 'm) consumer_scheme, exn, Offset) prog" where
  "committed A tp =
     seqM (lib_call (rd_kafka_committed A (createRkList_of_tps (the_lib A) [tp]) TIMEOUT_INFINITE)) (\<lambda>r.
     seqM (throw_if (Error_code (fst r))) (\<lambda>_. first_offset (snd r)))"

definition record_offset :: "ConsumerRecord \<Rightarrow> TopicPartitionOffsets" where
  \<comment> \<open>the map with the offset after the record\<close>
  "record_offset rec = omap_put (cr_topic rec, cr_partition rec) (cr_offset rec + 1) []"

definition commitSync :: "('w, 'n) consumer_api_scheme \<Rightarrow> (('w, 'm) consumer_scheme, exn, unit) prog" where
  "commitSync A = commit A [] Sync"

definition commitSync_record ::
  "('w, 'n) consumer_api_scheme \<Rightarrow> ConsumerRecord \<Rightarrow> (('w, 'm) consumer_scheme, exn, unit) prog" where
  "commitSync_record A rec = commit A (record_offset rec) Sync"

definition commitSync_offsets ::
  "('w, 'n) consumer_api_scheme \<Rightarrow> TopicPartitionOffsets \<Rightarrow> (('w, 'm) consumer_scheme, exn, unit) prog" where
  "commitSync_offsets A tpos = commit A tpos Sync"

definition commitAsync_offsets ::
  "('w, 'n) consumer_api_scheme \<Rightarrow> TopicPartitionOffsets \<Rightarrow> callback \<Rightarrow> (('w, 'm) consumer_scheme, exn, unit) prog" where
  "commitAsync_offsets A tpos cb =
     seqM (lib_call (rd_kafka_commit_queue A (rk_list_or_null tpos) cb)) (\<lambda>r. throw_if (Error_code r))"

definition commitAsync_record ::
  "('w, 'n) consumer_api_scheme \<Rightarrow> ConsumerRecord \<Rightarrow> callback \<Rightarrow> (('w, 'm) consumer_scheme, exn, unit) prog" where
  "commitAsync_record A rec cb = commitAsync_offsets A (record_offset rec) cb"

definition commitAsync :: "('w, 'n) consumer_api_scheme \<Rightarrow> callback \<Rightarrow> (('w, 'm) consumer_scheme, exn, unit) prog" where
  "commitAsync A cb = commitAsync_offsets A [] cb"

definition increment_offsets :: "TopicPartitionOffsets \<Rightarrow> TopicPartitionOffsets" where
  "increment_offsets tpos = map (\<lambda>tp_o. (fst tp_o, snd tp_o + 1)) tpos"

definition commitStoredOffsetsIfNecessary ::
  "('w, 'n) consumer_api_scheme \<Rightarrow> CommitType \<Rightarrow> (('w, 'm) consumer_scheme, exn, unit) prog" where
  "commitStoredOffsetsIfNecessary A type =
     seqM (getM (\<lambda>s. s)) (\<lambda>s0.
     if enableAutoCommit s0 \<and> offsetsToStore s0 \<noteq> [] then
       seqM (modM (\<lambda>s. s\<lparr>offsetsToStore := increment_offsets (offsetsToStore s)\<rparr>)) (\<lambda>_.
       seqM (getM offsetsToStore) (\<lambda>tpos.
       seqM (commit A tpos type) (\<lambda>_.
       modM (\<lambda>s. s\<lparr>offsetsToStore := []\<rparr>))))
     else ret ())"

definition store_offset :: "TopicPartitionOffsets \<Rightarrow> ConsumerRecord \<Rightarrow> TopicPartitionOffsets" where
  "store_offset tpos rec = omap_put (cr_topic rec, cr_partition rec) (cr_offset rec) tpos"

definition storeOffsetsIfNecessary :: "ConsumerRecord list \<Rightarrow> (('w, 'm) consumer_scheme, exn, unit) prog" where
  "storeOffsetsIfNecessary recs = modM (\<lambda>s.
     if enableAutoCommit s then s\<lparr>offsetsToStore := foldl store_offset (offsetsToStore s) recs\<rparr> else s)"

section \<open>Polling, pausing and resuming\<close>

definition MAX_VECTOR_SIZE :: nat where
  \<comment> \<open>\<open>max_size()\<close> of a vector of pointers\<close>
  "MAX_VECTOR_SIZE = 2 ^ 60 - 1"

definition poll :: "('w, 'n) consumer_api_scheme \<Rightarrow> int \<Rightarrow> (('w, 'm) consumer_scheme, exn, ConsumerRecord list) prog" where
  "poll A timeout =
     seqM (commitStoredOffsetsIfNecessary A Async) (\<lambda>_.
     seqM (getM maxPollRecords) (\<lambda>n.
     if n > MAX_VECTOR_SIZE then throw (StdException (Length_error ''cannot create std::vector larger than max_size()''))
     else
       seqM (lib_call (rd_kafka_consume_batch_queue A (convertMsDurationToInt timeout) n)) (\<lambda>(callbacks, received).
       seqM (serve_all A callbacks) (\<lambda>_. case received of
         Inl lastError \<Rightarrow> throw (throw_error (Error_code lastError))
       | Inr recs \<Rightarrow> seqM (storeOffsetsIfNecessary recs) (\<lambda>_. ret recs)))))"

definition pauseOrResumePartitions ::
  "('w, 'n) consumer_api_scheme \<Rightarrow> TopicPartitions \<Rightarrow> PauseOrResumeOperation \<Rightarrow> (('w, 'm) consumer_scheme, exn, unit) prog" where
  "pauseOrResumePartitions A tps op =
     (let rk_tpos = createRkList_of_tps (the_lib A) tps in
      seqM (lib_call (if op = Pause then rd_kafka_pause_partitions A rk_tpos else rd_kafka_resume_partitions A rk_tpos)) (\<lambda>r.
      seqM (throw_if (Error_code (fst r))) (\<lambda>_.
      let cnt = length (filter (\<lambda>e. rktp_err e = RD_KAFKA_RESP_ERR_NO_ERROR) (snd r)) in
      if cnt = 0 \<and> op = Pause then
        throw (kafka_error RD_KAFKA_RESP_ERR__INVALID_ARG
          (''No partition could be paused among TopicPartitions['' @ TopicPartitions_toString tps @ '']''))
      else ret ())))"

definition pause :: "('w, 'n) consumer_api_scheme \<Rightarrow> TopicPartitions \<Rightarrow> (('w, 'm) consumer_scheme, exn, unit) prog" where
  "pause A tps = pauseOrResumePartitions A tps Pause"

definition pause_all :: "('w, 'n) consumer_api_scheme \<Rightarrow> (('w, 'm) consumer_scheme, exn, unit) prog" where
  "pause_all A = seqM (getM curAssignment) (pause A)"

definition resume :: "('w, 'n) consumer_api_scheme \<Rightarrow> TopicPartitions \<Rightarrow> (('w, 'm) consumer_scheme, exn, unit) prog" where
  "resume A tps = pauseOrResumePartitions A tps Resume"

definition resume_all :: "('w, 'n) consumer_api_scheme \<Rightarrow> (('w, 'm) consumer_scheme, exn, unit) prog" where
  "resume_all A = seqM (getM curAssignment) (resume A)"

section \<open>Opening and closing\<close>

definition AUTO_COMMIT_INTERVAL_MS :: string where
  "AUTO_COMMIT_INTERVAL_MS = ''auto.commit.interval.ms''"

definition ENABLE_AUTO_OFFSET_STORE :: string where
  "ENABLE_AUTO_OFFSET_STORE = ''enable.auto.offset.store''"

definition put_string :: "string \<Rightarrow> string \<Rightarrow> exn + Properties \<Rightarrow> exn + Properties" where
  "put_string k str r = (case r of Inl e \<Rightarrow> Inl e | Inr p \<Rightarrow>
     (case props_put k (StringObj str) p of (Inl e, _) \<Rightarrow> Inl e | (Inr _, p') \<Rightarrow> Inr p'))"

definition consumer_validate :: "string \<Rightarrow> string \<Rightarrow> Properties \<Rightarrow> exn + Properties" where
  \<comment> \<open>the two arguments are the random strings for the client id and the group id\<close>
  "consumer_validate random random_group p =
     (case validateAndReformProperties random (props_remove MAX_POLL_RECORDS p) of
        Inl e \<Rightarrow> Inl e
      | Inr p1 \<Rightarrow>
     (case props_getProperty GROUP_ID p1 of
        Inl e \<Rightarrow> Inl e
      | Inr g \<Rightarrow>
        put_string ENABLE_AUTO_OFFSET_STORE ''true'' (put_string AUTO_COMMIT_INTERVAL_MS ''0''
          (put_string ENABLE_AUTO_COMMIT ''false''
            (if g = None then put_string GROUP_ID random_group (Inr p1) else Inr p1)))))"

definition consumer_default :: "'w \<Rightarrow> 'w consumer" where
  "consumer_default w = client.extend (client_default w)
     \<lparr>groupId = [], maxPollRecords = 500, enableAutoCommit = True, curAssignment = [], userAssignment = [],
      userSubscription = [], pendingEvent = None, cooperativeEnabled = None, offsetsToStore = [], rebalanceCb = None\<rparr>"

definition put_client_string :: "string \<Rightarrow> string \<Rightarrow> (('w, 'm) client_scheme, exn, unit) prog" where
  "put_client_string k str = put_property k (ValueType_of (StringObj str))"

definition pick_max_poll_records :: "Properties \<Rightarrow> (('w, 'm) consumer_scheme, exn, unit) prog" where
  "pick_max_poll_records p =
     seqM (seqM (liftE (props_getProperty MAX_POLL_RECORDS p)) (\<lambda>r. case r of
         None \<Rightarrow> ret ()
       | Some str \<Rightarrow> seqM (liftE (lift_std (stoi str))) (\<lambda>n. modM (\<lambda>s. s\<lparr>maxPollRecords := size_t_of_int n\<rparr>)))) (\<lambda>_.
     seqM (getM maxPollRecords) (\<lambda>n. put_client_string MAX_POLL_RECORDS (show_nat n)))"

definition is_true_string :: "string \<Rightarrow> bool" where
  "is_true_string str \<longleftrightarrow> str = ''1'' \<or> str = ''true''"

definition is_false_string :: "string \<Rightarrow> bool" where
  "is_false_string str \<longleftrightarrow> str = ''0'' \<or> str = ''false''"

definition pick_enable_auto_commit :: "Properties \<Rightarrow> (('w, 'm) consumer_scheme, exn, unit) prog" where
  "pick_enable_auto_commit p =
     seqM (seqM (liftE (props_getProperty ENABLE_AUTO_COMMIT p)) (\<lambda>r. case r of
         None \<Rightarrow> ret ()
       | Some str \<Rightarrow>
           if \<not> is_true_string str \<and> \<not> is_false_string str then
             throw (invalid_arg (''Invalid property[enable.auto.commit='' @ str @ ''], which MUST be true(1) or false(0)!''))
           else modM (\<lambda>s. s\<lparr>enableAutoCommit := is_true_string str\<rparr>))) (\<lambda>_.
     seqM (getM enableAutoCommit) (\<lambda>b. put_client_string ENABLE_AUTO_COMMIT (if b then ''true'' else ''false'')))"

definition construct_consumer ::
  "('w, 'n) consumer_api_scheme \<Rightarrow> string \<Rightarrow> string \<Rightarrow> Properties \<Rightarrow> (('w, 'm) consumer_scheme, exn, unit) prog" where
  "construct_consumer A random random_group p =
     seqM (liftE (consumer_validate random random_group p)) (\<lambda>p'.
     seqM (construct_client A KafkaConsumer p'
             (register_callback A (Some Conf_rebalance_cb))) (\<lambda>_.
     seqM (pick_max_poll_records p) (\<lambda>_.
     seqM (pick_enable_auto_commit p) (\<lambda>_.
     seqM (getM properties) (\<lambda>q.
     seqM (liftE (props_getProperty GROUP_ID q)) (\<lambda>g.
     seqM (case g of None \<Rightarrow> throw (StdException (Undefined_behaviour ''no group.id''))
                   | Some gid \<Rightarrow> modM (\<lambda>s. s\<lparr>groupId := gid\<rparr>)) (\<lambda>_.
     seqM (lib_call (rd_kafka_poll_set_consumer A)) (\<lambda>r.
     seqM (throw_if (Error_code r)) (\<lambda>_.
     startBackgroundPollingIfNecessary)))))))))"

text \<open>The two loops of \<open>close\<close>, each served until the library reports nothing left.\<close>

fun drain_queue ::
  "('w \<Rightarrow> 'c::zero \<times> 'w) \<Rightarrow> (('w, 'm) consumer_scheme, exn, unit) prog \<Rightarrow> nat \<Rightarrow> (('w, 'm) consumer_scheme, exn, unit) prog" where
  "drain_queue len pollq 0 = throw Out_of_fuel"
| "drain_queue len pollq (Suc fuel) =
     seqM (lib_call len) (\<lambda>n. if n = 0 then ret () else seqM pollq (\<lambda>_. drain_queue len pollq fuel))"

definition close_consumer :: "('w, 'n) consumer_api_scheme \<Rightarrow> nat \<Rightarrow> (('w, 'm) consumer_scheme, exn, unit) prog" where
  "close_consumer A fuel =
     seqM (modM (\<lambda>s. s\<lparr>opened := False\<rparr>)) (\<lambda>_.
     seqM stopBackgroundPollingIfNecessary (\<lambda>_.
     seqM (catchM (commitStoredOffsetsIfNecessary A Sync)
             (\<lambda>e. if is_kafka_exception e then ret () else throw e)) (\<lambda>_.
     seqM (seqM (lib_call (rd_kafka_consumer_close A)) (serve_all A)) (\<lambda>_.
     seqM (drain_queue (rd_kafka_outq_len A) (poll_library A TIMEOUT_INFINITE) fuel) (\<lambda>_.
     drain_queue (rd_kafka_queue_length A) (consumer_pollCallbacks A TIMEOUT_INFINITE) fuel)))))"

section \<open>The loops as instances of the loop contract\<close>

definition await_body :: "('w, 'n) consumer_api_scheme \<Rightarrow> int \<Rightarrow> (('w, 'm) consumer_scheme, exn, bool option) prog" where
  "await_body A until =
     seqM (lib_call (steady_now A)) (\<lambda>now.
     if \<not> now < until then ret (Some False)
     else seqM (poll_library A EVENT_POLLING_INTERVAL_MS) (\<lambda>_.
          seqM (getM pendingEvent) (\<lambda>p. ret (if p = None then Some True else None))))"

definition seek_body ::
  "('w, 'n) consumer_api_scheme \<Rightarrow> TopicPartition \<Rightarrow> Offset \<Rightarrow> int \<Rightarrow>
     (('w, 'm) consumer_scheme, exn, rd_kafka_resp_err_t option) prog" where
  "seek_body A tp off until =
     seqM (lib_call (rd_kafka_seek A (c_str (fst tp)) (snd tp) off SEEK_RETRY_INTERVAL_MS)) (\<lambda>respErr.
     if \<not> seek_retriable respErr then ret (Some respErr)
     else seqM (lib_call (steady_now A)) (\<lambda>now. ret (if now < until then None else Some respErr)))"

definition drain_body ::
  "('w \<Rightarrow> 'c::zero \<times> 'w) \<Rightarrow> (('w, 'm) consumer_scheme, exn, unit) prog \<Rightarrow> (('w, 'm) consumer_scheme, exn, unit option) prog" where
  "drain_body len pollq =
     seqM (lib_call len) (\<lambda>n. if n = 0 then ret (Some ()) else seqM pollq (\<lambda>_. ret None))"

lemma seqM_assoc: "seqM (seqM m f) g = seqM m (\<lambda>x. seqM (f x) g)"
  by (auto simp: seqM_def fun_eq_iff split: prod.splits sum.splits)

lemma seqM_if: "seqM (if b then m else m') k = (if b then seqM m k else seqM m' k)"
  by simp

interpretation await: fuel_loop "await_event A until" "await_body A until" Out_of_fuel
  for A :: "('w, 'n) consumer_api_scheme" and until
  by unfold_locales
    (auto simp: await_body_def seqM_assoc seqM_if fun_eq_iff seqM_split split: prod.splits sum.splits)

interpretation seeking: fuel_loop "seek_loop A tp off until" "seek_body A tp off until" Out_of_fuel
  for A :: "('w, 'n) consumer_api_scheme" and tp off until
  by unfold_locales
    (auto simp: seek_body_def seqM_assoc seqM_if fun_eq_iff seqM_split split: prod.splits sum.splits)

interpretation drain: fuel_loop "drain_queue len pollq" "drain_body len pollq" Out_of_fuel
  for len :: "'w \<Rightarrow> 'c::zero \<times> 'w" and pollq :: "(('w, 'm) consumer_scheme, exn, unit) prog"
  by unfold_locales
    (auto simp: drain_body_def seqM_assoc seqM_if fun_eq_iff seqM_split split: prod.splits sum.splits)

end
