(* ===== verification/Consumer_Correctness.thy ===== *)
theory Consumer_Correctness
  imports Kafka_Consumer
begin

text \<open>
  The properties of the consumer: what its operations change, the exclusion of subscribing and
  assigning, the assignment as a mirror of the library's, the committed offsets, and the loops that
  wait for the library.
\<close>

section \<open>What served callbacks leave alone\<close>

definition same_user_state :: "('w, 'm) consumer_scheme \<Rightarrow> ('w, 'm) consumer_scheme \<Rightarrow> bool" where
  "same_user_state s0 s \<longleftrightarrow>
     userAssignment s = userAssignment s0 \<and> userSubscription s = userSubscription s0 \<and>
     enableAutoCommit s = enableAutoCommit s0 \<and> offsetsToStore s = offsetsToStore s0 \<and>
     maxPollRecords s = maxPollRecords s0 \<and> rebalanceCb s = rebalanceCb s0 \<and> opened s = opened s0"

named_theorems frame_rules \<open>programs that keep an invariant of the consumer\<close>

lemma same_user_state_refl [simp]: "same_user_state s s"
  by (simp add: same_user_state_def)

lemma frame_lib_call [frame_rules]: "preserves (same_user_state s0) (lib_call f)"
  by (simp add: preserves_def same_user_state_def)

lemma frame_call_cb [frame_rules]: "preserves (same_user_state s0) (call_cb cb e)"
  by (auto simp: preserves_def same_user_state_def call_cb_apply split: option.split)

lemma frame_changeAssignment [frame_rules]: "preserves (same_user_state s0) (changeAssignment A ev tps)"
  unfolding changeAssignment_def Let_def
  by (cases ev) (auto simp: preserves_def same_user_state_def)

lemma frame_learn [frame_rules]: "preserves (same_user_state s0) (modM (learn_protocol A))"
  by (auto simp: preserves_def same_user_state_def learn_protocol_def split: option.split)

lemma frame_clear [frame_rules]: "preserves (same_user_state s0) (modM (clear_pending err))"
  by (auto simp: preserves_def same_user_state_def clear_pending_def)

lemma frame_onRebalance [frame_rules]: "preserves (same_user_state s0) (onRebalance A err l)"
  unfolding onRebalance_def Let_def by (intro inv_intros frame_rules)

lemma frame_serve [frame_rules]: "preserves (same_user_state s0) (serve A c)"
  by (cases c) (simp_all add: serve_def offsetCommitCallback_def frame_rules)

lemma preserves_serve_all: "(\<And>c. preserves I (serve A c)) \<Longrightarrow> preserves I (serve_all A cs)"
proof (induction cs)
  case (Cons c cs)
  then show ?case unfolding serve_all.simps by (intro inv_intros) auto
qed (simp only: serve_all.simps preserves_ret)

lemma frame_serve_all [frame_rules]: "preserves (same_user_state s0) (serve_all A cs)"
  by (rule preserves_serve_all) (rule frame_serve)

lemma frame_poll_library [frame_rules]: "preserves (same_user_state s0) (poll_library A t)"
  unfolding poll_library_def by (intro inv_intros frame_rules)

lemma serve_all_same: "serve_all A cs s = (r, s') \<Longrightarrow> same_user_state s s'"
  using preservesD [OF frame_serve_all [of s A cs] same_user_state_refl] by simp

section \<open>The assignment\<close>

lemma set_incremental_add [simp]: "set (incremental_add cur tps) = set cur \<union> set tps"
  by (induction cur tps rule: incremental_add.induct) auto

lemma set_incremental_remove [simp]: "set (incremental_remove cur tps) = set cur - set tps"
  by (induction cur tps rule: incremental_remove.induct) auto

lemma sorted_incremental_add [simp]: "strictly_sorted cur \<Longrightarrow> strictly_sorted (incremental_add cur tps)"
  by (induction cur tps rule: incremental_add.induct) auto

lemma sorted_incremental_remove [simp]: "strictly_sorted cur \<Longrightarrow> strictly_sorted (incremental_remove cur tps)"
  by (induction cur tps rule: incremental_remove.induct) auto

definition assignment_after :: "PartitionsRebalanceEvent \<Rightarrow> TopicPartitions \<Rightarrow> TopicPartitions \<Rightarrow> TopicPartitions" where
  "assignment_after ev cur tps = (case ev of
       Assign \<Rightarrow> tps | Revoke \<Rightarrow> []
     | IncrementalAssign \<Rightarrow> incremental_add cur tps | IncrementalUnassign \<Rightarrow> incremental_remove cur tps)"

definition library_change ::
  "('w, 'n) consumer_api_scheme \<Rightarrow> PartitionsRebalanceEvent \<Rightarrow> TopicPartitions \<Rightarrow> 'w \<Rightarrow> Error \<times> 'w" where
  "library_change A ev tps w =
     (let l = createRkList_of_tps (the_lib A) tps in case ev of
       Assign \<Rightarrow> map_prod Error_code id (rd_kafka_assign A (Some l) w)
     | Revoke \<Rightarrow> map_prod Error_code id (rd_kafka_assign A None w)
     | IncrementalAssign \<Rightarrow> map_prod Error_rich id (rd_kafka_incremental_assign A l w)
     | IncrementalUnassign \<Rightarrow> map_prod Error_rich id (rd_kafka_incremental_unassign A l w))"

lemma changeAssignment_eq:
  "changeAssignment A ev tps s =
     ((if error_set (fst (library_change A ev tps (world s)))
       then Inl (throw_error (Error_copy (fst (library_change A ev tps (world s))))) else Inr ()),
      s\<lparr>world := snd (library_change A ev tps (world s)), curAssignment := assignment_after ev (curAssignment s) tps\<rparr>)"
  by (cases ev) (simp_all add: changeAssignment_def library_change_def assignment_after_def Let_def map_prod_def
      split: prod.split)

lemma sorted_assignment_after:
  "strictly_sorted cur \<Longrightarrow> strictly_sorted tps \<Longrightarrow> strictly_sorted (assignment_after ev cur tps)"
  by (cases ev) (simp_all add: assignment_after_def)

lemma set_assignment_after:
  "set (assignment_after ev cur tps) = (case ev of
       Assign \<Rightarrow> set tps | Revoke \<Rightarrow> {}
     | IncrementalAssign \<Rightarrow> set cur \<union> set tps | IncrementalUnassign \<Rightarrow> set cur - set tps)"
  by (cases ev) (simp_all add: assignment_after_def)

section \<open>The invariant of the consumer\<close>

text \<open>
  Subscribing and assigning exclude each other, and the containers are sorted.
\<close>

definition consumer_inv :: "('w, 'm) consumer_scheme \<Rightarrow> bool" where
  "consumer_inv s \<longleftrightarrow> (userAssignment s = [] \<or> userSubscription s = []) \<and>
     strictly_sorted (curAssignment s) \<and> strictly_sorted (userAssignment s) \<and> omap_ok (offsetsToStore s)"

definition subscribe_inv :: "('w, 'm) consumer_scheme \<Rightarrow> bool" where
  \<comment> \<open>the part a subscribed consumer keeps\<close>
  "subscribe_inv s \<longleftrightarrow> userAssignment s = [] \<and> strictly_sorted (curAssignment s) \<and> omap_ok (offsetsToStore s)"

definition assign_inv :: "('w, 'm) consumer_scheme \<Rightarrow> bool" where
  "assign_inv s \<longleftrightarrow> userSubscription s = [] \<and> strictly_sorted (curAssignment s) \<and>
     strictly_sorted (userAssignment s) \<and> omap_ok (offsetsToStore s)"

lemma consumer_inv_split: "consumer_inv s \<longleftrightarrow> subscribe_inv s \<or> assign_inv s"
  by (auto simp: consumer_inv_def subscribe_inv_def assign_inv_def)

lemmas consumer_invs = consumer_inv_def subscribe_inv_def assign_inv_def

lemma inv_lib_call [frame_rules]:
  "preserves consumer_inv (lib_call f)" "preserves subscribe_inv (lib_call f)" "preserves assign_inv (lib_call f)"
  by (simp_all add: preserves_def consumer_invs)

lemma inv_call_cb [frame_rules]:
  "preserves consumer_inv (call_cb cb e)" "preserves subscribe_inv (call_cb cb e)" "preserves assign_inv (call_cb cb e)"
  by (auto simp: preserves_def consumer_invs call_cb_apply split: option.split)

lemma inv_changeAssignment:
  assumes "strictly_sorted tps"
  shows "preserves consumer_inv (changeAssignment A ev tps)" "preserves subscribe_inv (changeAssignment A ev tps)"
    "preserves assign_inv (changeAssignment A ev tps)"
  using assms by (auto simp: preserves_def changeAssignment_eq consumer_invs sorted_assignment_after)

lemma inv_learn [frame_rules]:
  "preserves consumer_inv (modM (learn_protocol A))" "preserves subscribe_inv (modM (learn_protocol A))"
  "preserves assign_inv (modM (learn_protocol A))"
  by (auto simp: preserves_def consumer_invs learn_protocol_def split: option.split)

lemma inv_clear [frame_rules]:
  "preserves consumer_inv (modM (clear_pending err))" "preserves subscribe_inv (modM (clear_pending err))"
  "preserves assign_inv (modM (clear_pending err))"
  by (auto simp: preserves_def consumer_invs clear_pending_def)

lemma inv_onRebalance [frame_rules]:
  "preserves consumer_inv (onRebalance A err l)" "preserves subscribe_inv (onRebalance A err l)"
  "preserves assign_inv (onRebalance A err l)"
  unfolding onRebalance_def Let_def
  by (intro inv_intros frame_rules inv_changeAssignment; simp)+

lemma inv_serve [frame_rules]:
  "preserves consumer_inv (serve A c)" "preserves subscribe_inv (serve A c)" "preserves assign_inv (serve A c)"
  by (cases c; simp add: serve_def offsetCommitCallback_def frame_rules)+

lemma inv_serve_all [frame_rules]:
  "preserves consumer_inv (serve_all A cs)" "preserves subscribe_inv (serve_all A cs)"
  "preserves assign_inv (serve_all A cs)"
  by (rule preserves_serve_all, rule inv_serve)+

lemma inv_poll_library [frame_rules]:
  "preserves consumer_inv (poll_library A t)" "preserves subscribe_inv (poll_library A t)"
  "preserves assign_inv (poll_library A t)"
  unfolding poll_library_def by (intro inv_intros frame_rules)+

section \<open>Operations keep the invariant\<close>

lemma inv_unit_world:
  "consumer_inv (s\<lparr>world := w\<rparr>) = consumer_inv s"
  "consumer_inv (s\<lparr>pendingEvent := p\<rparr>) = consumer_inv s"
  "consumer_inv (s\<lparr>rebalanceCb := cb\<rparr>) = consumer_inv s"
  "consumer_inv (s\<lparr>opened := b\<rparr>) = consumer_inv s"
  "consumer_inv (s\<lparr>pollable := b\<rparr>) = consumer_inv s"
  "consumer_inv (s\<lparr>pollThread := b\<rparr>) = consumer_inv s"
  "subscribe_inv (s\<lparr>pendingEvent := p\<rparr>) = subscribe_inv s"
  "subscribe_inv (s\<lparr>rebalanceCb := cb\<rparr>) = subscribe_inv s"
  "subscribe_inv (s\<lparr>userSubscription := t\<rparr>) = subscribe_inv s"
  by (simp_all add: consumer_invs)

lemma preserves_await_event:
  assumes "\<And>t. preserves I (poll_library A t)" "preserves I (lib_call (steady_now A))"
  shows "preserves I (await_event A until fuel)"
proof (induction fuel)
  case 0
  show ?case unfolding await_event.simps by (rule preserves_throw)
next
  case (Suc fuel)
  show ?case unfolding await_event.simps by (intro inv_intros assms Suc)
qed

lemma preserves_await:
  assumes "\<And>t. preserves I (poll_library A t)" "preserves I (lib_call (steady_now A))"
    and "\<And>s. I s \<Longrightarrow> I (s\<lparr>pendingEvent := None\<rparr>)"
  shows "preserves I (await_or_time_out A fuel timeout what)"
  unfolding await_or_time_out_def
  by (intro inv_intros preserves_modM preserves_await_event assms)

lemma inv_await [frame_rules]:
  "preserves consumer_inv (await_or_time_out A fuel timeout what)"
  "preserves subscribe_inv (await_or_time_out A fuel timeout what)"
  by (rule preserves_await; simp only: frame_rules inv_unit_world)+

lemma inv_start_subscription: "preserves subscribe_inv (start_subscription A fuel topics cb timeout)"
  unfolding start_subscription_def
  by (intro inv_intros preserves_modM frame_rules) (simp_all only: inv_unit_world)

lemma inv_subscribe: "preserves consumer_inv (subscribe A fuel topics cb timeout)"
proof (rule preservesI)
  fix s :: "('a, 'b) consumer_scheme" assume inv: "consumer_inv s"
  show "consumer_inv (snd (subscribe A fuel topics cb timeout s))"
    using inv preservesD [OF inv_start_subscription, of s A fuel topics cb timeout]
    by (auto simp: subscribe_def consumer_inv_split) (auto simp: consumer_invs)
qed

lemma inv_start_unsubscription: "preserves consumer_inv (start_unsubscription A fuel timeout)"
  unfolding start_unsubscription_def
  by (intro inv_intros preserves_modM frame_rules) (auto simp: consumer_invs)

lemma inv_unsubscribe: "preserves consumer_inv (unsubscribe A fuel timeout)"
proof (rule preservesI)
  fix s :: "('a, 'b) consumer_scheme" assume inv: "consumer_inv s"
  then have "strictly_sorted (userAssignment s)" by (simp add: consumer_inv_def)
  then show "consumer_inv (snd (unsubscribe A fuel timeout s))"
    using inv preservesD [OF inv_start_unsubscription inv]
    by (auto simp: unsubscribe_def seqM_split changeAssignment_eq consumer_invs sorted_assignment_after)
qed

lemma inv_assign: "strictly_sorted tps \<Longrightarrow> preserves consumer_inv (consumer_assign A tps)"
  by (auto simp: preserves_def consumer_assign_def changeAssignment_eq consumer_invs sorted_assignment_after)

lemma inv_seek_loop: "preserves consumer_inv (seek_loop A tp off until fuel)"
proof (induction fuel)
  case 0
  show ?case unfolding seek_loop.simps by (rule preserves_throw)
next
  case (Suc fuel)
  show ?case unfolding seek_loop.simps by (intro inv_intros frame_rules Suc)
qed

lemma inv_seek: "preserves consumer_inv (seek A fuel tp off timeout)"
  unfolding seek_def by (intro inv_intros frame_rules inv_seek_loop)

lemma inv_seek_all: "preserves consumer_inv (seek_all A fuel tps off timeout)"
proof (induction tps)
  case Nil
  show ?case unfolding seek_all.simps by (rule preserves_ret)
next
  case (Cons tp tps)
  show ?case unfolding seek_all.simps by (intro inv_intros inv_seek Cons)
qed

lemma inv_commit [frame_rules]:
  "preserves consumer_inv (commit A tpos type)"
  "preserves consumer_inv (commitAsync_offsets A tpos cb)"
  unfolding commit_def commitAsync_offsets_def by (intro inv_intros frame_rules)+

lemma keys_increment [simp]: "map fst (increment_offsets tpos) = map fst tpos"
  by (simp add: increment_offsets_def comp_def)

lemma omap_ok_increment [simp]: "omap_ok (increment_offsets tpos) = omap_ok tpos"
  by (simp add: omap_ok_def)

lemma omap_ok_store [simp]: "omap_ok tpos \<Longrightarrow> omap_ok (foldl store_offset tpos recs)"
  by (induction recs arbitrary: tpos) (simp_all add: store_offset_def)

lemma inv_commitStored [frame_rules]: "preserves consumer_inv (commitStoredOffsetsIfNecessary A type)"
  unfolding commitStoredOffsetsIfNecessary_def
  by (intro inv_intros frame_rules preserves_modM) (auto simp: consumer_invs)

lemma inv_storeOffsets [frame_rules]: "preserves consumer_inv (storeOffsetsIfNecessary recs)"
  unfolding storeOffsetsIfNecessary_def by (rule preserves_modM) (auto simp: consumer_invs)

lemma inv_poll: "preserves consumer_inv (poll A timeout)"
proof -
  have "preserves consumer_inv (case r of (callbacks, received) \<Rightarrow>
      seqM (serve_all A callbacks) (\<lambda>_. case received of
         Inl lastError \<Rightarrow> throw (throw_error (Error_code lastError))
       | Inr recs \<Rightarrow> seqM (storeOffsetsIfNecessary recs) (\<lambda>_. ret recs)))" for r
    by (cases r; cases "snd r") (auto simp del: ret_apply throw_apply intro!: inv_intros frame_rules)
  then show ?thesis unfolding poll_def by (intro inv_intros frame_rules)
qed

lemma inv_pauseOrResume: "preserves consumer_inv (pauseOrResumePartitions A tps op)"
  unfolding pauseOrResumePartitions_def Let_def by (intro inv_intros frame_rules)

lemma inv_pollEvents: "preserves consumer_inv (pollEvents (consumer_pollCallbacks A) timeout)"
  unfolding pollEvents_def consumer_pollCallbacks_def by (intro inv_intros frame_rules)

lemma inv_drain: "preserves consumer_inv pollq \<Longrightarrow> preserves consumer_inv (drain_queue len pollq fuel)"
proof (induction fuel)
  case 0
  show ?case unfolding drain_queue.simps by (rule preserves_throw)
next
  case (Suc fuel)
  show ?case unfolding drain_queue.simps by (intro inv_intros frame_rules Suc)
qed

lemma inv_stop [frame_rules]: "preserves consumer_inv stopBackgroundPollingIfNecessary"
  unfolding stopBackgroundPollingIfNecessary_def
  by (intro inv_intros preserves_modM) (simp_all only: inv_unit_world)

lemma inv_close: "preserves consumer_inv (close_consumer A fuel)"
  unfolding close_consumer_def consumer_pollCallbacks_def
  by (intro inv_intros frame_rules inv_drain preserves_modM) (simp_all only: inv_unit_world)

section \<open>Runs of a consumer\<close>

definition fresh_consumer :: "('w, 'm) consumer_scheme \<Rightarrow> bool" where
  "fresh_consumer s \<longleftrightarrow> userAssignment s = [] \<and> userSubscription s = [] \<and> curAssignment s = [] \<and> offsetsToStore s = []"

lemma fresh_put [frame_rules]: "preserves fresh_consumer (put_property k v)"
  by (auto simp: preserves_def put_property_def fresh_consumer_def split: prod.split)

lemma fresh_lib_call [frame_rules]: "preserves fresh_consumer (lib_call f)" "preserves fresh_consumer (lib_do g)"
  by (simp_all add: preserves_def fresh_consumer_def)

lemma fresh_configure [frame_rules]: "preserves fresh_consumer (configure A p kvs)"
proof (induction kvs)
  case Nil
  show ?case unfolding configure.simps by (rule preserves_ret)
next
  case (Cons kv kvs)
  obtain k v where "kv = (k, v)" by (cases kv)
  with Cons show ?case by (simp only: configure.simps) (intro inv_intros frame_rules)
qed

lemma fresh_set_callback:
  "(\<And>cb s. fresh_consumer s \<Longrightarrow> fresh_consumer (store cb s)) \<Longrightarrow>
     preserves fresh_consumer (set_callback A key cast p store kind)"
  unfolding set_callback_def by (intro inv_intros frame_rules preserves_modM)

lemma fresh_construct_client [frame_rules]: "preserves fresh_consumer (construct_client A t p (register_callback A k))"
proof -
  have "preserves fresh_consumer (register_callback A k)"
    by (cases k) (simp_all only: register_callback_def option.simps preserves_ret fresh_lib_call)
  moreover have "preserves fresh_consumer (save_log_level p)"
    unfolding save_log_level_def check_log_level_def
    by (auto simp: preserves_def seqM_split fresh_consumer_def split: option.split sum.split)
  moreover have "preserves fresh_consumer (set_callbacks A p)"
    unfolding set_callbacks_def set_interceptors_def
    by (intro inv_intros frame_rules fresh_set_callback preserves_modM) (simp_all add: fresh_consumer_def)
  ultimately show ?thesis
    unfolding construct_client_def save_client_id_def save_log_cb_def save_polling_option_def open_client_def
    by (intro inv_intros frame_rules preserves_modM) (simp_all add: fresh_consumer_def)
qed

lemma fresh_construct: "preserves fresh_consumer (construct_consumer A r g p)"
  unfolding construct_consumer_def pick_max_poll_records_def pick_enable_auto_commit_def put_client_string_def
    startBackgroundPollingIfNecessary_def
  by (intro inv_intros frame_rules preserves_modM) (simp_all add: fresh_consumer_def)

text \<open>
  The calls a program can make on an open consumer, with any arguments; \<open>run_polls\<close> is a call of
  \<open>pollEvents\<close>, by the program or by the background thread. Each ends in the state it leaves behind,
  whether it returns or throws. A run starts in a fresh consumer, which construction yields.
\<close>

inductive consumer_step :: "('w, 'n) consumer_api_scheme \<Rightarrow> ('w, 'm) consumer_scheme \<Rightarrow> ('w, 'm) consumer_scheme \<Rightarrow> bool"
  for A where
  do_subscribe: "strictly_sorted topics \<Longrightarrow> consumer_step A s (snd (subscribe A fuel topics cb timeout s))"
| do_unsubscribe: "consumer_step A s (snd (unsubscribe A fuel timeout s))"
| do_assign: "strictly_sorted tps \<Longrightarrow> consumer_step A s (snd (consumer_assign A tps s))"
| do_seek: "consumer_step A s (snd (seek_all A fuel tps off timeout s))"
| do_commit: "consumer_step A s (snd (commit A tpos type s))"
| do_commit_async: "consumer_step A s (snd (commitAsync_offsets A tpos cb s))"
| do_poll: "consumer_step A s (snd (poll A timeout s))"
| do_pause_or_resume: "consumer_step A s (snd (pauseOrResumePartitions A tps op s))"
| run_polls: "consumer_step A s (snd (pollEvents (consumer_pollCallbacks A) timeout s))"
| do_close: "consumer_step A s (snd (close_consumer A fuel s))"

inductive consumer_reachable :: "('w, 'n) consumer_api_scheme \<Rightarrow> 'w consumer \<Rightarrow> bool" for A where
  constructed: "fresh_consumer s \<Longrightarrow> consumer_reachable A s"
| stepped: "consumer_reachable A s \<Longrightarrow> consumer_step A s s' \<Longrightarrow> consumer_reachable A s'"

inductive_cases consumer_stepE: "consumer_step A s s'"

lemma consumer_step_inv: "consumer_step A s s' \<Longrightarrow> consumer_inv s \<Longrightarrow> consumer_inv s'"
  by (erule consumer_stepE; hypsubst; rule preservesD)
     (assumption | rule inv_subscribe inv_unsubscribe inv_assign inv_seek_all inv_commit inv_poll
       inv_pauseOrResume inv_pollEvents inv_close)+

lemma fresh_default: "fresh_consumer (consumer_default w)"
  by (simp add: fresh_consumer_def consumer_default_def client.defs)

section \<open>A simulated library for the witnesses\<close>

record sim =
  sim_now :: int
  sim_assigned :: TopicPartitions
  sim_served :: "served list"
  sim_commits :: "rd_kafka_topic_partition_list_t option list"
  sim_commit_err :: rd_kafka_resp_err_t
  sim_messages :: "rd_kafka_message_t list"

definition sim_start :: sim where
  "sim_start = \<lparr>sim_now = 2000000, sim_assigned = [], sim_served = [], sim_commits = [],
     sim_commit_err = RD_KAFKA_RESP_ERR_NO_ERROR, sim_messages = []\<rparr>"

definition sim_api :: "sim consumer_api" where
  "sim_api = client_api.extend quiet_api \<lparr>
     steady_now = (\<lambda>w. (sim_now w, w\<lparr>sim_now := sim_now w + 1\<rparr>)),
     rd_kafka_poll_set_consumer = (\<lambda>w. (RD_KAFKA_RESP_ERR_NO_ERROR, w)),
     rd_kafka_poll = (\<lambda>t w. (sim_served w, w\<lparr>sim_served := [], sim_now := sim_now w + 100000000\<rparr>)),
     rd_kafka_queue_poll_callback = (\<lambda>t w. (sim_served w, w\<lparr>sim_served := []\<rparr>)),
     rd_kafka_consumer_close = (\<lambda>w. ([], w)),
     rd_kafka_outq_len = (\<lambda>w. (0, w)),
     rd_kafka_queue_length = (\<lambda>w. (length (sim_served w), w)),
     rd_kafka_subscribe = (\<lambda>l w. (RD_KAFKA_RESP_ERR_NO_ERROR, w)),
     rd_kafka_unsubscribe = (\<lambda>w. (RD_KAFKA_RESP_ERR_NO_ERROR, w)),
     rd_kafka_subscription = (\<lambda>w. ((RD_KAFKA_RESP_ERR_NO_ERROR, None), w)),
     rd_kafka_assign = (\<lambda>l w. (RD_KAFKA_RESP_ERR_NO_ERROR, w\<lparr>sim_assigned := getTopicPartitions l\<rparr>)),
     rd_kafka_incremental_assign = (\<lambda>l w. (None, w\<lparr>sim_assigned := incremental_add (sim_assigned w) (getTopicPartitions (Some l))\<rparr>)),
     rd_kafka_incremental_unassign = (\<lambda>l w. (None, w\<lparr>sim_assigned := incremental_remove (sim_assigned w) (getTopicPartitions (Some l))\<rparr>)),
     rd_kafka_assignment = (\<lambda>w. ((RD_KAFKA_RESP_ERR_NO_ERROR, Some (createRkList_of_tps rdkafka_h (sim_assigned w))), w)),
     rd_kafka_rebalance_protocol = (\<lambda>w. Some ''EAGER''),
     rd_kafka_topic_new = (\<lambda>t w. (None, w)),
     rd_kafka_seek = (\<lambda>t p off ms w. (if sim_now w < 2000003 then RD_KAFKA_RESP_ERR__STATE else RD_KAFKA_RESP_ERR_NO_ERROR, w)),
     rd_kafka_position = (\<lambda>l w. ((RD_KAFKA_RESP_ERR_NO_ERROR, l), w)),
     rd_kafka_offsets_for_times = (\<lambda>l ms w. ((RD_KAFKA_RESP_ERR_NO_ERROR, l), w)),
     rd_kafka_query_watermark_offsets = (\<lambda>t p ms w. ((RD_KAFKA_RESP_ERR_NO_ERROR, 0, 10), w)),
     rd_kafka_commit = (\<lambda>l a w. (sim_commit_err w, w\<lparr>sim_commits := sim_commits w @ [l]\<rparr>)),
     rd_kafka_commit_queue = (\<lambda>l cb w. (RD_KAFKA_RESP_ERR_NO_ERROR,
        w\<lparr>sim_served := sim_served w @ [Served_offset_commit RD_KAFKA_RESP_ERR_NO_ERROR l cb]\<rparr>)),
     rd_kafka_committed = (\<lambda>l ms w. ((RD_KAFKA_RESP_ERR_NO_ERROR, l), w)),
     rd_kafka_consume_batch_queue = (\<lambda>t n w. (([], Inr (take n (sim_messages w))), w\<lparr>sim_messages := drop n (sim_messages w)\<rparr>)),
     rd_kafka_pause_partitions = (\<lambda>l w. ((RD_KAFKA_RESP_ERR_NO_ERROR, l), w)),
     rd_kafka_resume_partitions = (\<lambda>l w. ((RD_KAFKA_RESP_ERR_NO_ERROR, l), w))\<rparr>"

lemmas sim_defs = sim_api_def quiet_api_def client_api.defs sim_start_def

section \<open>Properties: subscribing, assigning and rebalancing\<close>

text \<open>C2. Invariant: in every state a program can bring a consumer into, by any sequence of calls
  that return or throw and of callbacks served by the library, starting from what the constructor
  leaves, a subscription and a manual
  assignment are never both present, and the assignment and the offsets to commit are well-formed
  containers.\<close>

theorem consumer_modes_exclusive:
  assumes "consumer_reachable A s"
  shows "(userAssignment s = [] \<or> userSubscription s = []) \<and> strictly_sorted (curAssignment s) \<and>
    strictly_sorted (userAssignment s) \<and> omap_ok (offsetsToStore s) \<and>
    consumer_reachable A (snd (construct_consumer A r g p (consumer_default w)))"
proof -
  have "consumer_inv s"
    using assms
  proof induction
    case (constructed s)
    then show ?case by (simp add: fresh_consumer_def consumer_inv_def)
  next
    case (stepped s s')
    then show ?case using consumer_step_inv by blast
  qed
  moreover have "fresh_consumer (snd (construct_consumer A r g p (consumer_default w)))"
    by (rule preservesD [OF fresh_construct fresh_default])
  ultimately show ?thesis by (simp add: consumer_inv_def consumer_reachable.constructed)
qed

theorem consumer_modes_exclusive_witness:
  "userAssignment (snd (subscribe sim_api 3 [''a''] None 1000 (snd (consumer_assign sim_api [(''t'', 0)] (consumer_default sim_start))))) = [] \<or>
   userSubscription (snd (subscribe sim_api 3 [''a''] None 1000 (snd (consumer_assign sim_api [(''t'', 0)] (consumer_default sim_start))))) = []"
proof -
  let ?s = "consumer_default sim_start"
  have "consumer_reachable sim_api ?s" by (rule consumer_reachable.constructed [OF fresh_default])
  moreover have "consumer_step sim_api ?s (snd (consumer_assign sim_api [(''t'', 0)] ?s))"
    by (rule consumer_step.do_assign) simp
  moreover have "consumer_step sim_api t (snd (subscribe sim_api 3 [''a''] None 1000 t))" for t
    by (rule consumer_step.do_subscribe) simp
  ultimately have "consumer_reachable sim_api (snd (subscribe sim_api 3 [''a''] None 1000 (snd (consumer_assign sim_api [(''t'', 0)] ?s))))"
    by (blast intro: consumer_reachable.stepped)
  from consumer_modes_exclusive [OF this] show ?thesis by blast
qed

definition rebalance_event :: "rd_kafka_resp_err_t \<Rightarrow> ('w, 'm) consumer_scheme \<Rightarrow> PartitionsRebalanceEvent" where
  "rebalance_event err s =
     (if err = RD_KAFKA_RESP_ERR__ASSIGN_PARTITIONS
      then (if isCooperativeEnabled s then IncrementalAssign else Assign)
      else (if isCooperativeEnabled s then IncrementalUnassign else Revoke))"

definition notified :: "RebalanceEventType \<Rightarrow> TopicPartitions \<Rightarrow> ('w, 'm) consumer_scheme \<Rightarrow> client_event list" where
  "notified ty tps s = (case rebalanceCb s of None \<Rightarrow> [] | Some h \<Rightarrow> [RebalanceEvent h ty tps])"

lemma learn_clear_simps [simp]:
  "rebalanceCb (clear_pending err s) = rebalanceCb s" "rebalanceCb (learn_protocol A s) = rebalanceCb s"
  "events (clear_pending err s) = events s" "events (learn_protocol A s) = events s"
  "world (clear_pending err s) = world s" "world (learn_protocol A s) = world s"
  "curAssignment (clear_pending err s) = curAssignment s" "curAssignment (learn_protocol A s) = curAssignment s"
  "isCooperativeEnabled (clear_pending err s) = isCooperativeEnabled s"
  "pendingEvent (learn_protocol A s) = pendingEvent s"
  by (auto simp: clear_pending_def learn_protocol_def isCooperativeEnabled_def split: option.split)

lemma onRebalance_assign:
  "onRebalance A RD_KAFKA_RESP_ERR__ASSIGN_PARTITIONS l s =
     (let s1 = clear_pending RD_KAFKA_RESP_ERR__ASSIGN_PARTITIONS (learn_protocol A s);
          (r, s2) = changeAssignment A (rebalance_event RD_KAFKA_RESP_ERR__ASSIGN_PARTITIONS s1) (getTopicPartitions l) s1
      in (r, case r of Inl _ \<Rightarrow> s2
             | Inr _ \<Rightarrow> s2\<lparr>events := events s @ notified PartitionsAssigned (getTopicPartitions l) s\<rparr>))"
  by (auto simp: onRebalance_def Let_def seqM_split rebalance_event_def call_cb_apply notified_def changeAssignment_eq
      split: option.split)

lemma onRebalance_revoke:
  "onRebalance A RD_KAFKA_RESP_ERR__REVOKE_PARTITIONS l s =
     (let s1 = clear_pending RD_KAFKA_RESP_ERR__REVOKE_PARTITIONS (learn_protocol A s);
          s2 = s1\<lparr>events := events s @ notified PartitionsRevoked (getTopicPartitions l) s\<rparr>
      in changeAssignment A (rebalance_event RD_KAFKA_RESP_ERR__REVOKE_PARTITIONS s1)
           (if isCooperativeEnabled s1 then getTopicPartitions l else []) s2)"
  by (auto simp: onRebalance_def Let_def seqM_split rebalance_event_def call_cb_apply notified_def changeAssignment_eq
      split: option.split)

text \<open>C16. The rebalance callback: for an assignment the library's call and the consumer's own assignment
  come first and the user is told only if the library accepts; for a revocation the user is told
  first, while the partitions are still held; the incremental calls are used exactly for the
  cooperative protocol; the awaited event is cleared only by a callback of its own kind; any other
  code changes nothing.\<close>

theorem rebalance_callback_protocol:
  "fst (onRebalance A RD_KAFKA_RESP_ERR__ASSIGN_PARTITIONS l s) =
     (let e = fst (library_change A (rebalance_event RD_KAFKA_RESP_ERR__ASSIGN_PARTITIONS (learn_protocol A s))
                (getTopicPartitions l) (world s))
      in if error_set e then Inl (throw_error (Error_copy e)) else Inr ()) \<and>
   events (snd (onRebalance A RD_KAFKA_RESP_ERR__ASSIGN_PARTITIONS l s)) = events s @
     (case fst (onRebalance A RD_KAFKA_RESP_ERR__ASSIGN_PARTITIONS l s) of
        Inl _ \<Rightarrow> [] | Inr _ \<Rightarrow> notified PartitionsAssigned (getTopicPartitions l) s) \<and>
   events (snd (onRebalance A RD_KAFKA_RESP_ERR__REVOKE_PARTITIONS l s)) =
     events s @ notified PartitionsRevoked (getTopicPartitions l) s \<and>
   set (curAssignment (snd (onRebalance A RD_KAFKA_RESP_ERR__ASSIGN_PARTITIONS l s))) =
     (if isCooperativeEnabled (learn_protocol A s) then set (curAssignment s) else {}) \<union> set (getTopicPartitions l) \<and>
   set (curAssignment (snd (onRebalance A RD_KAFKA_RESP_ERR__REVOKE_PARTITIONS l s))) =
     (if isCooperativeEnabled (learn_protocol A s) then set (curAssignment s) - set (getTopicPartitions l) else {}) \<and>
   pendingEvent (snd (onRebalance A RD_KAFKA_RESP_ERR__ASSIGN_PARTITIONS l s)) =
     (if pendingEvent s = Some PartitionsAssignment then None else pendingEvent s) \<and>
   pendingEvent (snd (onRebalance A RD_KAFKA_RESP_ERR__REVOKE_PARTITIONS l s)) =
     (if pendingEvent s = Some PartitionsRevocation then None else pendingEvent s) \<and>
   onRebalance A (RD_KAFKA_RESP_ERR_other c) l s = (Inr (), s)"
proof (intro conjI)
  let ?a = RD_KAFKA_RESP_ERR__ASSIGN_PARTITIONS and ?r = RD_KAFKA_RESP_ERR__REVOKE_PARTITIONS
  show "fst (onRebalance A ?a l s) =
     (let e = fst (library_change A (rebalance_event ?a (learn_protocol A s)) (getTopicPartitions l) (world s))
      in if error_set e then Inl (throw_error (Error_copy e)) else Inr ())"
    by (simp add: onRebalance_assign changeAssignment_eq Let_def rebalance_event_def)
  show "events (snd (onRebalance A ?a l s)) = events s @
     (case fst (onRebalance A ?a l s) of Inl _ \<Rightarrow> [] | Inr _ \<Rightarrow> notified PartitionsAssigned (getTopicPartitions l) s)"
    by (simp add: onRebalance_assign changeAssignment_eq Let_def)
  show "events (snd (onRebalance A ?r l s)) = events s @ notified PartitionsRevoked (getTopicPartitions l) s"
    by (simp add: onRebalance_revoke changeAssignment_eq Let_def)
  show "set (curAssignment (snd (onRebalance A ?a l s))) =
     (if isCooperativeEnabled (learn_protocol A s) then set (curAssignment s) else {}) \<union> set (getTopicPartitions l)"
    by (simp add: onRebalance_assign changeAssignment_eq Let_def set_assignment_after rebalance_event_def)
  show "set (curAssignment (snd (onRebalance A ?r l s))) =
     (if isCooperativeEnabled (learn_protocol A s) then set (curAssignment s) - set (getTopicPartitions l) else {})"
    by (simp add: onRebalance_revoke changeAssignment_eq Let_def set_assignment_after rebalance_event_def)
  show "pendingEvent (snd (onRebalance A ?a l s)) =
     (if pendingEvent s = Some PartitionsAssignment then None else pendingEvent s)"
    by (simp add: onRebalance_assign changeAssignment_eq Let_def clear_pending_def)
  show "pendingEvent (snd (onRebalance A ?r l s)) =
     (if pendingEvent s = Some PartitionsRevocation then None else pendingEvent s)"
    by (simp add: onRebalance_revoke changeAssignment_eq Let_def clear_pending_def)
qed (simp add: onRebalance_def)

section \<open>Properties: committed offsets\<close>

lemma find_stored:
  "omap_find tp (foldl store_offset [] recs) =
     map_of (rev (map (\<lambda>m. ((cr_topic m, cr_partition m), cr_offset m)) recs)) tp"
proof -
  have "foldl store_offset [] recs = omap_of_list (map (\<lambda>m. ((cr_topic m, cr_partition m), cr_offset m)) recs)"
    unfolding omap_of_list_def foldl_map store_offset_def by simp
  then show ?thesis by (simp add: omap_find_of_list)
qed

lemma commitStored_run:
  assumes "enableAutoCommit s" "offsetsToStore s \<noteq> []"
  shows "commitStoredOffsetsIfNecessary A type s =
    (case rd_kafka_commit A (Some (createRkTopicPartitionList (increment_offsets (offsetsToStore s)))) (type = Async) (world s) of
       (err, w) \<Rightarrow> if err = RD_KAFKA_RESP_ERR_NO_ERROR then (Inr (), s\<lparr>world := w, offsetsToStore := []\<rparr>)
         else (Inl (throw_error (Error_code err)), s\<lparr>world := w, offsetsToStore := increment_offsets (offsetsToStore s)\<rparr>))"
proof -
  have "increment_offsets (offsetsToStore s) \<noteq> []" using assms(2) by (simp add: increment_offsets_def)
  then show ?thesis
    using assms
    by (cases "rd_kafka_commit A (Some (createRkTopicPartitionList (increment_offsets (offsetsToStore s)))) (type = Async) (world s)")
       (simp add: commitStoredOffsetsIfNecessary_def commit_def rk_list_or_null_def seqM_split)
qed

lemma commitStored_skip:
  "\<not> (enableAutoCommit s \<and> offsetsToStore s \<noteq> []) \<Longrightarrow> commitStoredOffsetsIfNecessary A type s = (Inr (), s)"
  by (auto simp: commitStoredOffsetsIfNecessary_def)

lemma commitStored_clears:
  "commitStoredOffsetsIfNecessary A type s = (Inr (), s') \<Longrightarrow> enableAutoCommit s \<Longrightarrow>
     offsetsToStore s' = [] \<and> enableAutoCommit s'"
  by (cases "offsetsToStore s = []") (auto simp: commitStored_run commitStored_skip split: prod.splits if_splits)

lemma poll_stores:
  assumes "poll A timeout s = (Inr recs, s')" "enableAutoCommit s"
  shows "offsetsToStore s' = foldl store_offset [] recs \<and> enableAutoCommit s'"
proof -
  obtain s1 where s1: "commitStoredOffsetsIfNecessary A Async s = (Inr (), s1)"
    using assms(1) by (auto simp: poll_def elim: seqM_cases)
  define w where "w = rd_kafka_consume_batch_queue A (convertMsDurationToInt timeout) (maxPollRecords s1) (world s1)"
  obtain s2 where s2: "serve_all A (fst (fst w)) (s1\<lparr>world := snd w\<rparr>) = (Inr (), s2)" and
    s': "s' = (if enableAutoCommit s2 then s2\<lparr>offsetsToStore := foldl store_offset (offsetsToStore s2) recs\<rparr> else s2)"
    using assms(1) s1
    by (auto simp: poll_def seqM_split storeOffsetsIfNecessary_def w_def split: prod.splits sum.splits if_splits)
  have "offsetsToStore s2 = [] \<and> enableAutoCommit s2"
    using serve_all_same [OF s2] commitStored_clears [OF s1 assms(2)] by (simp add: same_user_state_def)
  then show ?thesis by (simp add: s')
qed

definition sim_message :: "int \<Rightarrow> rd_kafka_resp_err_t \<Rightarrow> rd_kafka_message_t" where
  "sim_message off err = \<lparr>rkm_topic_name = Some ''t'', rkm_partition = 0, rkm_offset = off, rkm_key = None,
     rkm_payload = Some ''v'', rkm_err = err, rkm_timestamp = (0, RD_KAFKA_TIMESTAMP_CREATE_TIME),
     rkm_headers = Inr [], rkm_last_header = (\<lambda>_. Inl RD_KAFKA_RESP_ERR__FAIL), rkm_status = RD_KAFKA_MSG_STATUS_PERSISTED\<rparr>"

text \<open>C13. Automatic commit: after a poll that returned records, the offsets kept are, for each partition,
  the offset of the last record returned for it, whatever the record's error, the end-of-partition
  record included; the next poll, or \<open>close\<close>, commits exactly those offsets plus one in a single
  call, forgetting them if the library accepts and keeping them, already increased, if it does not.\<close>

theorem auto_commit_covers_polled_records:
  assumes "poll A timeout s = (Inr recs, s')" "enableAutoCommit s" "recs \<noteq> []"
  shows "omap_find tp (offsetsToStore s') =
      map_of (rev (map (\<lambda>m. ((cr_topic m, cr_partition m), cr_offset m)) recs)) tp \<and>
    commitStoredOffsetsIfNecessary A type s' =
      (case rd_kafka_commit A (Some (createRkTopicPartitionList (map (\<lambda>tp_o. (fst tp_o, snd tp_o + 1)) (offsetsToStore s'))))
              (type = Async) (world s') of
         (err, w) \<Rightarrow> if err = RD_KAFKA_RESP_ERR_NO_ERROR then (Inr (), s'\<lparr>world := w, offsetsToStore := []\<rparr>)
           else (Inl (throw_error (Error_code err)),
             s'\<lparr>world := w, offsetsToStore := map (\<lambda>tp_o. (fst tp_o, snd tp_o + 1)) (offsetsToStore s')\<rparr>))"
proof -
  have stored: "offsetsToStore s' = foldl store_offset [] recs" "enableAutoCommit s'"
    using poll_stores [OF assms(1,2)] by simp_all
  moreover have "offsetsToStore s' \<noteq> []"
  proof -
    obtain m ms where "recs = ms @ [m]" by (cases recs rule: rev_cases) (use assms(3) in auto)
    then have "omap_find (cr_topic m, cr_partition m) (offsetsToStore s') = Some (cr_offset m)"
      by (simp add: stored(1) store_offset_def)
    then show ?thesis by auto
  qed
  ultimately show ?thesis
    using commitStored_run [of s' A type] find_stored unfolding increment_offsets_def by metis
qed

theorem auto_commit_covers_polled_records_witness:
  "omap_find (''t'', 0) (offsetsToStore (snd (poll sim_api 100 (consumer_default (sim_start\<lparr>sim_messages :=
      [sim_message 7 RD_KAFKA_RESP_ERR_NO_ERROR, sim_message 8 RD_KAFKA_RESP_ERR__PARTITION_EOF]\<rparr>))))) = Some 8"
proof -
  let ?s = "consumer_default (sim_start\<lparr>sim_messages :=
      [sim_message 7 RD_KAFKA_RESP_ERR_NO_ERROR, sim_message 8 RD_KAFKA_RESP_ERR__PARTITION_EOF]\<rparr>)"
  have "poll sim_api 100 ?s = (Inr [sim_message 7 RD_KAFKA_RESP_ERR_NO_ERROR, sim_message 8 RD_KAFKA_RESP_ERR__PARTITION_EOF],
      snd (poll sim_api 100 ?s))"
    by (simp add: poll_def commitStored_skip consumer_default_def client_default_def client.defs sim_defs
        storeOffsetsIfNecessary_def MAX_VECTOR_SIZE_def)
  from auto_commit_covers_polled_records [OF this, of "(''t'', 0)" Sync]
  show ?thesis
    by (simp add: consumer_default_def client_default_def client.defs sim_message_def cr_topic_def cr_partition_def cr_offset_def)
qed

text \<open>C14. A refused automatic commit corrupts the offsets: they have been increased before the call and stay
  so, so that the next attempt (the next \<open>poll\<close> or \<open>close\<close>) commits, for every partition, two past
  the last record returned, passing over a record that was never consumed.\<close>

theorem refused_auto_commit_skips_record:
  assumes "enableAutoCommit s" "offsetsToStore s \<noteq> []"
    and "fst (rd_kafka_commit A (Some (createRkTopicPartitionList (increment_offsets (offsetsToStore s)))) (type = Async) (world s))
      \<noteq> RD_KAFKA_RESP_ERR_NO_ERROR"
  shows "\<exists>e s1. commitStoredOffsetsIfNecessary A type s = (Inl (throw_error e), s1) \<and>
    world (snd (commitStoredOffsetsIfNecessary A type' s1)) =
      snd (rd_kafka_commit A (Some (createRkTopicPartitionList (map (\<lambda>tp_o. (fst tp_o, snd tp_o + 2)) (offsetsToStore s))))
        (type' = Async) (world s1))"
proof -
  obtain err w where call: "rd_kafka_commit A (Some (createRkTopicPartitionList (increment_offsets (offsetsToStore s))))
      (type = Async) (world s) = (err, w)" by force
  define s1 where "s1 = s\<lparr>world := w, offsetsToStore := increment_offsets (offsetsToStore s)\<rparr>"
  have refused: "commitStoredOffsetsIfNecessary A type s = (Inl (throw_error (Error_code err)), s1)"
    using assms(3) by (simp add: commitStored_run [OF assms(1,2)] call s1_def)
  have "increment_offsets (offsetsToStore s1) = map (\<lambda>tp_o. (fst tp_o, snd tp_o + 2)) (offsetsToStore s)"
    by (simp add: s1_def increment_offsets_def)
  moreover have "enableAutoCommit s1" "offsetsToStore s1 \<noteq> []"
    using assms(1,2) by (simp_all add: s1_def increment_offsets_def)
  ultimately have "world (snd (commitStoredOffsetsIfNecessary A type' s1)) =
      snd (rd_kafka_commit A (Some (createRkTopicPartitionList (map (\<lambda>tp_o. (fst tp_o, snd tp_o + 2)) (offsetsToStore s))))
        (type' = Async) (world s1))"
    using commitStored_run [of s1 A type'] by (auto split: prod.splits)
  with refused show ?thesis by blast
qed

theorem refused_auto_commit_skips_record_witness:
  "\<exists>e s1. commitStoredOffsetsIfNecessary sim_api Async ((consumer_default (sim_start\<lparr>sim_commit_err := RD_KAFKA_RESP_ERR__STATE\<rparr>))
       \<lparr>offsetsToStore := [((''t'', 0), 7)]\<rparr>) = (Inl (throw_error e), s1) \<and>
     world (snd (commitStoredOffsetsIfNecessary sim_api Sync s1)) =
       snd (rd_kafka_commit sim_api (Some (createRkTopicPartitionList [((''t'', 0), 9)])) False (world s1))"
  using refused_auto_commit_skips_record [of "(consumer_default (sim_start\<lparr>sim_commit_err := RD_KAFKA_RESP_ERR__STATE\<rparr>))
       \<lparr>offsetsToStore := [((''t'', 0), 7)]\<rparr>" sim_api Async Sync]
  by (simp add: consumer_default_def client_default_def client.defs sim_api_def quiet_api_def client_api.defs)

section \<open>The assignment as the library holds it\<close>

text \<open>
  \<open>held\<close> reads the assignment off the library's state and \<open>refused\<close> tells whether the library has ever
  refused a change of it. The documented effect of the calls: a change that is accepted is made, and no
  other call changes the assignment, as the consumer always registers a rebalance callback; that callback
  is where the partitions of a rebalance are to be assigned and given up. Topic names in the library's
  lists are C strings.
\<close>

definition same_assignment :: "('w \<Rightarrow> TopicPartition set) \<Rightarrow> ('w \<Rightarrow> bool) \<Rightarrow> 'w \<Rightarrow> 'w \<Rightarrow> bool" where
  "same_assignment held refused w w' \<longleftrightarrow> held w' = held w \<and> (refused w' \<longleftrightarrow> refused w)"

definition served_names_ok :: "served \<Rightarrow> bool" where
  "served_names_ok c = (case c of
       Served_rebalance err l \<Rightarrow> list_all (\<lambda>e. no_nul (rktp_topic e)) (elems_of l)
     | Served_offset_commit err l cb \<Rightarrow> True)"

definition makes_changes :: "('w, 'n) consumer_api_scheme \<Rightarrow> ('w \<Rightarrow> TopicPartition set) \<Rightarrow> ('w \<Rightarrow> bool) \<Rightarrow> bool" where
  "makes_changes A held refused \<longleftrightarrow>
     (\<forall>l w e w'. rd_kafka_assign A l w = (e, w') \<longrightarrow>
        (if error_set (Error_code e) then refused w'
         else held w' = set (getTopicPartitions l) \<and> (refused w' \<longleftrightarrow> refused w))) \<and>
     (\<forall>l w e w'. rd_kafka_incremental_assign A l w = (e, w') \<longrightarrow>
        (if error_set (Error_rich e) then refused w'
         else held w' = held w \<union> set (getTopicPartitions (Some l)) \<and> (refused w' \<longleftrightarrow> refused w))) \<and>
     (\<forall>l w e w'. rd_kafka_incremental_unassign A l w = (e, w') \<longrightarrow>
        (if error_set (Error_rich e) then refused w'
         else held w' = held w - set (getTopicPartitions (Some l)) \<and> (refused w' \<longleftrightarrow> refused w)))"

definition others_keep :: "('w, 'n) consumer_api_scheme \<Rightarrow> ('w \<Rightarrow> TopicPartition set) \<Rightarrow> ('w \<Rightarrow> bool) \<Rightarrow> bool" where
  "others_keep A held refused \<longleftrightarrow>
     (\<forall>w. same_assignment held refused w (snd (steady_now A w))) \<and>
     (\<forall>t w. same_assignment held refused w (snd (rd_kafka_poll A t w)) \<and> list_all served_names_ok (fst (rd_kafka_poll A t w))) \<and>
     (\<forall>t w. same_assignment held refused w (snd (rd_kafka_queue_poll_callback A t w)) \<and>
        list_all served_names_ok (fst (rd_kafka_queue_poll_callback A t w))) \<and>
     (\<forall>t n w. same_assignment held refused w (snd (rd_kafka_consume_batch_queue A t n w)) \<and>
        list_all served_names_ok (fst (fst (rd_kafka_consume_batch_queue A t n w)))) \<and>
     (\<forall>l w. same_assignment held refused w (snd (rd_kafka_subscribe A l w))) \<and>
     (\<forall>w. same_assignment held refused w (snd (rd_kafka_unsubscribe A w))) \<and>
     (\<forall>t w. same_assignment held refused w (snd (rd_kafka_topic_new A t w))) \<and>
     (\<forall>t p off ms w. same_assignment held refused w (snd (rd_kafka_seek A t p off ms w))) \<and>
     (\<forall>l a w. same_assignment held refused w (snd (rd_kafka_commit A l a w))) \<and>
     (\<forall>l cb w. same_assignment held refused w (snd (rd_kafka_commit_queue A l cb w))) \<and>
     (\<forall>l w. same_assignment held refused w (snd (rd_kafka_pause_partitions A l w))) \<and>
     (\<forall>l w. same_assignment held refused w (snd (rd_kafka_resume_partitions A l w)))"

definition mirrors :: "('w \<Rightarrow> TopicPartition set) \<Rightarrow> ('w \<Rightarrow> bool) \<Rightarrow> ('w, 'm) consumer_scheme \<Rightarrow> bool" where
  "mirrors held refused s \<longleftrightarrow>
     (refused (world s) \<or> set (curAssignment s) = held (world s)) \<and>
     strictly_sorted (userAssignment s) \<and> (\<forall>tp\<in>set (userAssignment s). no_nul (fst tp))"

named_theorems mirror_rules \<open>programs that keep the assignment a mirror of the library's\<close>

lemma mirror_lib_call: "(\<And>w. same_assignment held refused w (snd (f w))) \<Longrightarrow> preserves (mirrors held refused) (lib_call f)"
  by (auto simp: preserves_def mirrors_def same_assignment_def)

lemma mirror_others:
  assumes "others_keep A held refused"
  shows "preserves (mirrors held refused) (lib_call (steady_now A))"
    "preserves (mirrors held refused) (lib_call (rd_kafka_subscribe A l))"
    "preserves (mirrors held refused) (lib_call (rd_kafka_unsubscribe A))"
    "preserves (mirrors held refused) (lib_call (rd_kafka_topic_new A t))"
    "preserves (mirrors held refused) (lib_call (rd_kafka_seek A t p off ms))"
    "preserves (mirrors held refused) (lib_call (rd_kafka_commit A lo a))"
    "preserves (mirrors held refused) (lib_call (rd_kafka_commit_queue A lo cb))"
    "preserves (mirrors held refused) (lib_call (rd_kafka_pause_partitions A l))"
    "preserves (mirrors held refused) (lib_call (rd_kafka_resume_partitions A l))"
  using assms by (auto simp: others_keep_def intro!: mirror_lib_call)

lemma mirror_fields [mirror_rules]:
  "preserves (mirrors held refused) (call_cb cb e)"
  "preserves (mirrors held refused) (modM (learn_protocol A))"
  "preserves (mirrors held refused) (modM (clear_pending err))"
  "preserves (mirrors held refused) (modM (\<lambda>s. s\<lparr>userSubscription := topics\<rparr>))"
  "preserves (mirrors held refused) (modM (\<lambda>s. s\<lparr>rebalanceCb := cb\<rparr>))"
  "preserves (mirrors held refused) (modM (\<lambda>s. s\<lparr>pendingEvent := p\<rparr>))"
  "preserves (mirrors held refused) (modM (\<lambda>s. s\<lparr>userAssignment := []\<rparr>))"
  "preserves (mirrors held refused) (modM (\<lambda>s. s\<lparr>offsetsToStore := offs s\<rparr>))"
  "preserves (mirrors held refused) (storeOffsetsIfNecessary recs)"
  by (auto simp: preserves_def mirrors_def call_cb_apply learn_protocol_def clear_pending_def storeOffsetsIfNecessary_def
      split: option.split)

lemma library_change_held:
  assumes "makes_changes A held refused" "strictly_sorted tps" "\<forall>tp\<in>set tps. no_nul (fst tp)"
    and "library_change A ev tps w = (e, w')"
  shows "if error_set e then refused w'
    else held w' = (case ev of Assign \<Rightarrow> set tps | Revoke \<Rightarrow> {} | IncrementalAssign \<Rightarrow> held w \<union> set tps
      | IncrementalUnassign \<Rightarrow> held w - set tps) \<and> (refused w' \<longleftrightarrow> refused w)"
proof -
  have tps: "getTopicPartitions (Some (createRkList_of_tps (the_lib A) tps)) = tps"
    using assms(2,3) by (rule getTopicPartitions_create)
  have none: "getTopicPartitions None = []" by (simp add: getTopicPartitions_def elems_of_def)
  note changes = assms(1) [unfolded makes_changes_def]
  let ?l = "createRkList_of_tps (the_lib A) tps"
  show ?thesis
  proof (cases ev)
    case Assign
    then obtain r where "rd_kafka_assign A (Some ?l) w = (r, w')" "e = Error_code r"
      using assms(4) by (auto simp: library_change_def Let_def map_prod_def split: prod.splits)
    then show ?thesis using changes Assign tps by fastforce
  next
    case Revoke
    then obtain r where "rd_kafka_assign A None w = (r, w')" "e = Error_code r"
      using assms(4) by (auto simp: library_change_def Let_def map_prod_def split: prod.splits)
    then show ?thesis using changes Revoke none by fastforce
  next
    case IncrementalAssign
    then obtain r where "rd_kafka_incremental_assign A ?l w = (r, w')" "e = Error_rich r"
      using assms(4) by (auto simp: library_change_def Let_def map_prod_def split: prod.splits)
    then show ?thesis using changes IncrementalAssign tps by fastforce
  next
    case IncrementalUnassign
    then obtain r where "rd_kafka_incremental_unassign A ?l w = (r, w')" "e = Error_rich r"
      using assms(4) by (auto simp: library_change_def Let_def map_prod_def split: prod.splits)
    then show ?thesis using changes IncrementalUnassign tps by fastforce
  qed
qed

lemma changeAssignment_held:
  assumes "makes_changes A held refused" "strictly_sorted tps" "\<forall>tp\<in>set tps. no_nul (fst tp)"
    and "changeAssignment A ev tps s = (Inr (), s')"
  shows "held (world s') = (case ev of Assign \<Rightarrow> set tps | Revoke \<Rightarrow> {} | IncrementalAssign \<Rightarrow> held (world s) \<union> set tps
      | IncrementalUnassign \<Rightarrow> held (world s) - set tps)"
proof -
  obtain e w' where lc: "library_change A ev tps (world s) = (e, w')" by (cases "library_change A ev tps (world s)")
  then have "\<not> error_set e" "world s' = w'" using assms(4) by (auto simp: changeAssignment_eq split: if_splits)
  then show ?thesis using library_change_held [OF assms(1-3) lc] by (simp only: if_False)
qed

lemma mirror_changeAssignment:
  fixes A :: "('w, 'n) consumer_api_scheme"
  assumes "makes_changes A held refused" "strictly_sorted tps" "\<forall>tp\<in>set tps. no_nul (fst tp)"
  shows "preserves (mirrors held refused) (changeAssignment A ev tps :: (('w, 'm) consumer_scheme, exn, unit) prog)"
proof (rule preservesI)
  fix s :: "('w, 'm) consumer_scheme" assume inv: "mirrors held refused s"
  obtain e w' where lc: "library_change A ev tps (world s) = (e, w')" by (cases "library_change A ev tps (world s)")
  have "(refused w' \<or> set (assignment_after ev (curAssignment s) tps) = held w')"
    using library_change_held [OF assms lc] inv
    by (cases ev) (auto simp: mirrors_def set_assignment_after split: if_splits)
  then show "mirrors held refused (snd (changeAssignment A ev tps s))"
    using inv lc by (simp add: changeAssignment_eq mirrors_def)
qed

lemma names_of_list:
  "list_all (\<lambda>e. no_nul (rktp_topic e)) (elems_of l) \<Longrightarrow> \<forall>tp\<in>set (getTopicPartitions l). no_nul (fst tp)"
  by (auto simp: getTopicPartitions_eq list_all_iff)

lemma mirror_onRebalance:
  assumes "makes_changes A held refused" "list_all (\<lambda>e. no_nul (rktp_topic e)) (elems_of l)"
  shows "preserves (mirrors held refused) (onRebalance A err l)"
proof -
  note change = mirror_changeAssignment [OF assms(1) sorted_getTopicPartitions names_of_list [OF assms(2)]]
  have coop: "preserves (mirrors held refused) (changeAssignment A ev (if coop then getTopicPartitions l else []))" for ev coop
    using change mirror_changeAssignment [OF assms(1), of "[]"] by (cases coop) simp_all
  show ?thesis unfolding onRebalance_def Let_def by (intro inv_intros mirror_rules change coop)
qed

lemma mirror_serve_all:
  assumes "makes_changes A held refused"
  shows "list_all served_names_ok cs \<Longrightarrow> preserves (mirrors held refused) (serve_all A cs)"
proof (induction cs)
  case (Cons c cs)
  have "preserves (mirrors held refused) (serve A c)"
    using Cons.prems mirror_onRebalance [OF assms]
    by (cases c) (auto simp: serve_def served_names_ok_def offsetCommitCallback_def intro: mirror_rules)
  then show ?case using Cons unfolding serve_all.simps by (auto intro!: inv_intros simp del: ret_apply)
qed (simp only: serve_all.simps preserves_ret)

lemma mirror_serving:
  \<comment> \<open>a call of the library that serves callbacks\<close>
  fixes A :: "('w, 'n) consumer_api_scheme"
  assumes "makes_changes A held refused" "\<And>w. same_assignment held refused w (snd (f w)) \<and> list_all served_names_ok (fst (f w))"
  shows "preserves (mirrors held refused) (seqM (lib_call f) (serve_all A) :: (('w, 'm) consumer_scheme, exn, unit) prog)"
proof (rule preservesI)
  fix s :: "('w, 'm) consumer_scheme" assume inv: "mirrors held refused s"
  obtain cs w' where f: "f (world s) = (cs, w')" by fastforce
  have "mirrors held refused (s\<lparr>world := w'\<rparr>)"
    using inv assms(2) [of "world s"] f by (simp add: mirrors_def same_assignment_def)
  moreover have "list_all served_names_ok cs" using assms(2) [of "world s"] f by simp
  ultimately show "mirrors held refused (snd (seqM (lib_call f) (serve_all A) s))"
    using preservesD [OF mirror_serve_all [OF assms(1)], of cs "s\<lparr>world := w'\<rparr>"] f by (simp add: seqM_split)
qed

section \<open>Every operation keeps the mirror\<close>

lemma mirror_polls:
  assumes "makes_changes A held refused" "others_keep A held refused"
  shows "preserves (mirrors held refused) (poll_library A t)"
    "preserves (mirrors held refused) (consumer_pollCallbacks A t)"
  using assms unfolding poll_library_def consumer_pollCallbacks_def
  by (auto intro!: mirror_serving simp: others_keep_def)

lemma mirror_await:
  assumes "makes_changes A held refused" "others_keep A held refused"
  shows "preserves (mirrors held refused) (await_or_time_out A fuel timeout what)"
  by (intro preserves_await mirror_polls [OF assms] mirror_others [OF assms(2)]) (simp add: mirrors_def)

lemma mirror_subscribe:
  assumes "makes_changes A held refused" "others_keep A held refused"
  shows "preserves (mirrors held refused) (subscribe A fuel topics cb timeout)"
  unfolding subscribe_def start_subscription_def
  by (intro inv_intros mirror_rules mirror_others [OF assms(2)] mirror_await [OF assms])

lemma mirror_unsubscribe:
  fixes A :: "('w, 'n) consumer_api_scheme"
  assumes "makes_changes A held refused" "others_keep A held refused"
  shows "preserves (mirrors held refused) (unsubscribe A fuel timeout :: (('w, 'm) consumer_scheme, exn, unit) prog)"
proof (rule preservesI)
  fix s :: "('w, 'm) consumer_scheme" assume inv: "mirrors held refused s"
  have start: "preserves (mirrors held refused) (start_unsubscription A fuel timeout)"
    unfolding start_unsubscription_def
    by (intro inv_intros mirror_rules mirror_others [OF assms(2)] mirror_await [OF assms])
  have give_up: "preserves (mirrors held refused)
      (seqM (changeAssignment A ev (userAssignment s)) (\<lambda>_. modM (\<lambda>s. s\<lparr>userAssignment := []\<rparr>)))" for ev
    using inv by (intro inv_intros mirror_rules mirror_changeAssignment [OF assms(1)]) (simp_all add: mirrors_def)
  show "mirrors held refused (snd (unsubscribe A fuel timeout s))"
    using inv preservesD [OF start inv] preservesD [OF give_up inv] by (auto simp: unsubscribe_def)
qed

lemma mirror_assign:
  fixes A :: "('w, 'n) consumer_api_scheme"
  assumes "makes_changes A held refused" "strictly_sorted tps" "\<forall>tp\<in>set tps. no_nul (fst tp)"
  shows "preserves (mirrors held refused) (consumer_assign A tps :: (('w, 'm) consumer_scheme, exn, unit) prog)"
proof -
  have "preserves (mirrors held refused) (modM (\<lambda>s. s\<lparr>userAssignment := tps\<rparr>) :: (('w, 'm) consumer_scheme, exn, unit) prog)"
    using assms(2,3) by (intro preserves_modM) (simp add: mirrors_def)
  then show ?thesis unfolding consumer_assign_def by (intro inv_intros mirror_changeAssignment [OF assms])
qed

lemma mirror_seek_all:
  assumes "others_keep A held refused"
  shows "preserves (mirrors held refused) (seek_all A fuel tps off timeout)"
proof (induction tps)
  case (Cons tp tps)
  have "preserves (mirrors held refused) (seek_loop A tp off until n)" for until n
  proof (induction n)
    case (Suc n)
    show ?case unfolding seek_loop.simps by (intro inv_intros mirror_others [OF assms] Suc)
  qed (simp only: seek_loop.simps preserves_throw)
  then have "preserves (mirrors held refused) (seek A fuel tp off timeout)"
    unfolding seek_def by (intro inv_intros mirror_others [OF assms])
  then show ?case unfolding seek_all.simps by (intro inv_intros Cons)
qed (simp only: seek_all.simps preserves_ret)

lemma mirror_commits:
  assumes "others_keep A held refused"
  shows "preserves (mirrors held refused) (commit A tpos type)"
    "preserves (mirrors held refused) (commitAsync_offsets A tpos cb)"
    "preserves (mirrors held refused) (commitStoredOffsetsIfNecessary A type)"
    "preserves (mirrors held refused) (pauseOrResumePartitions A tps op)"
proof -
  show *: "preserves (mirrors held refused) (commit A tpos type)" for tpos type
    unfolding commit_def by (intro inv_intros mirror_others [OF assms])
  show "preserves (mirrors held refused) (commitAsync_offsets A tpos cb)"
    unfolding commitAsync_offsets_def by (intro inv_intros mirror_others [OF assms])
  show "preserves (mirrors held refused) (commitStoredOffsetsIfNecessary A type)"
    unfolding commitStoredOffsetsIfNecessary_def by (intro inv_intros mirror_rules *)
  show "preserves (mirrors held refused) (pauseOrResumePartitions A tps op)"
    unfolding pauseOrResumePartitions_def Let_def by (cases op) (auto intro!: inv_intros mirror_others [OF assms])
qed

lemma mirror_poll:
  fixes A :: "('w, 'n) consumer_api_scheme"
  assumes "makes_changes A held refused" "others_keep A held refused"
  shows "preserves (mirrors held refused) (poll A timeout :: (('w, 'm) consumer_scheme, exn, ConsumerRecord list) prog)"
proof -
  let ?f = "\<lambda>n. rd_kafka_consume_batch_queue A (convertMsDurationToInt timeout) n"
  let ?k = "\<lambda>(callbacks, received). seqM (serve_all A callbacks) (\<lambda>_. case received of
         Inl lastError \<Rightarrow> throw (throw_error (Error_code lastError))
       | Inr recs \<Rightarrow> seqM (storeOffsetsIfNecessary recs) (\<lambda>_. ret recs))"
  have batch: "preserves (mirrors held refused) (seqM (lib_call (?f n)) ?k :: (('w, 'm) consumer_scheme, exn, ConsumerRecord list) prog)" for n
  proof (rule preservesI)
    fix s :: "('w, 'm) consumer_scheme" assume inv: "mirrors held refused s"
    obtain cs r w' where f: "?f n (world s) = ((cs, r), w')" by (metis prod.exhaust)
    have others: "same_assignment held refused (world s) (snd (?f n (world s))) \<and> list_all served_names_ok (fst (fst (?f n (world s))))"
      using assms(2) by (simp add: others_keep_def)
    then have cs: "list_all served_names_ok cs" and w': "mirrors held refused (s\<lparr>world := w'\<rparr>)"
      using inv f by (auto simp: mirrors_def same_assignment_def)
    have "preserves (mirrors held refused) (?k (cs, r) :: (('w, 'm) consumer_scheme, exn, ConsumerRecord list) prog)"
      using mirror_serve_all [OF assms(1) cs] by (simp only: prod.case) (intro inv_intros mirror_rules)
    from preservesD [OF this w'] show "mirrors held refused (snd (seqM (lib_call (?f n)) ?k s))"
      using f by (simp add: seqM_split)
  qed
  show ?thesis
    unfolding poll_def
    by (rule preserves_seqM, rule mirror_commits [OF assms(2)], rule preserves_seqM, rule preserves_getM,
        rule preserves_if, rule preserves_throw, rule batch)
qed

text \<open>
  The runs of a consumer that is not closed. Between the calls the library's state changes on its own or
  by a query, with no effect on the assignment.
\<close>

inductive open_run ::
  "('w, 'n) consumer_api_scheme \<Rightarrow> ('w \<Rightarrow> TopicPartition set) \<Rightarrow> ('w \<Rightarrow> bool) \<Rightarrow> 'w consumer \<Rightarrow> bool" for A held refused where
  begun: "fresh_consumer s \<Longrightarrow> held (world s) = {} \<Longrightarrow> open_run A held refused s"
| subscribed: "open_run A held refused s \<Longrightarrow> open_run A held refused (snd (subscribe A fuel topics cb timeout s))"
| unsubscribed: "open_run A held refused s \<Longrightarrow> open_run A held refused (snd (unsubscribe A fuel timeout s))"
| assigned: "open_run A held refused s \<Longrightarrow> strictly_sorted tps \<Longrightarrow> \<forall>tp\<in>set tps. no_nul (fst tp) \<Longrightarrow>
    open_run A held refused (snd (consumer_assign A tps s))"
| sought: "open_run A held refused s \<Longrightarrow> open_run A held refused (snd (seek_all A fuel tps off timeout s))"
| committed_now: "open_run A held refused s \<Longrightarrow> open_run A held refused (snd (commit A tpos type s))"
| committed_later: "open_run A held refused s \<Longrightarrow> open_run A held refused (snd (commitAsync_offsets A tpos cb s))"
| polled: "open_run A held refused s \<Longrightarrow> open_run A held refused (snd (poll A timeout s))"
| paused_or_resumed: "open_run A held refused s \<Longrightarrow> open_run A held refused (snd (pauseOrResumePartitions A tps op s))"
| polled_events: "open_run A held refused s \<Longrightarrow> open_run A held refused (snd (pollEvents (consumer_pollCallbacks A) timeout s))"
| library_went_on: "open_run A held refused s \<Longrightarrow> same_assignment held refused (world s) w \<Longrightarrow>
    open_run A held refused (s\<lparr>world := w\<rparr>)"

lemma open_run_mirrors:
  assumes "makes_changes A held refused" "others_keep A held refused" "open_run A held refused s"
  shows "mirrors held refused s"
  using assms(3)
proof induction
  case (begun s)
  then show ?case by (simp add: fresh_consumer_def mirrors_def)
next
  case (library_went_on s w)
  then show ?case by (simp add: mirrors_def same_assignment_def)
next
  case (polled_events s timeout)
  have "preserves (mirrors held refused) (pollEvents (consumer_pollCallbacks A) timeout)"
    unfolding pollEvents_def by (intro inv_intros mirror_polls [OF assms(1,2)])
  then show ?case by (rule preservesD) (rule polled_events.IH)
qed (rule preservesD, rule mirror_subscribe [OF assms(1,2)] mirror_unsubscribe [OF assms(1,2)] mirror_poll [OF assms(1,2)]
      mirror_seek_all [OF assms(2)] mirror_commits [OF assms(2)] mirror_assign [OF assms(1)], assumption+)+

text \<open>C4. Refinement: in every state that a program can bring a consumer into before it closes it, by any
  sequence of calls that return or throw and of rebalances served in them, the assignment the consumer
  keeps for itself is the library's, unless the library has refused a change of it. The calls reach
  the library: a successful \<open>assign\<close> makes it hold exactly the user's partitions, or adds them under the
  cooperative protocol; the rebalance callback makes it hold the partitions assigned, in addition to the
  others only under the cooperative protocol, and for a revocation gives up those revoked under the
  cooperative protocol and all of them otherwise.\<close>

theorem assignment_mirrors_library:
  assumes "makes_changes A held refused" "others_keep A held refused" "open_run A held refused s"
  shows "(refused (world s) \<or> set (curAssignment s) = held (world s)) \<and>
    (\<forall>tps s'. strictly_sorted tps \<and> (\<forall>tp\<in>set tps. no_nul (fst tp)) \<and> consumer_assign A tps s = (Inr (), s') \<longrightarrow>
      held (world s') = (if isCooperativeEnabled s then held (world s) else {}) \<union> set tps) \<and>
    (\<forall>l s'. list_all (\<lambda>e. no_nul (rktp_topic e)) (elems_of l) \<longrightarrow>
      (onRebalance A RD_KAFKA_RESP_ERR__ASSIGN_PARTITIONS l s = (Inr (), s') \<longrightarrow>
        held (world s') = (if isCooperativeEnabled (learn_protocol A s) then held (world s) else {}) \<union> set (getTopicPartitions l)) \<and>
      (onRebalance A RD_KAFKA_RESP_ERR__REVOKE_PARTITIONS l s = (Inr (), s') \<longrightarrow>
        held (world s') = (if isCooperativeEnabled (learn_protocol A s) then held (world s) - set (getTopicPartitions l) else {})))"
proof (intro conjI allI impI)
  note held = changeAssignment_held [OF assms(1)]
  show "refused (world s) \<or> set (curAssignment s) = held (world s)"
    using open_run_mirrors [OF assms] by (simp add: mirrors_def)
  {
    fix tps s'
    assume tps: "strictly_sorted tps \<and> (\<forall>tp\<in>set tps. no_nul (fst tp)) \<and> consumer_assign A tps s = (Inr (), s')"
    then have "changeAssignment A (if isCooperativeEnabled s then IncrementalAssign else Assign) tps (s\<lparr>userAssignment := tps\<rparr>) = (Inr (), s')"
      by (auto simp: consumer_assign_def split: if_splits)
    from held [OF _ _ this] tps show "held (world s') = (if isCooperativeEnabled s then held (world s) else {}) \<union> set tps"
      by (simp split: if_splits)
  next
    fix l s'
    assume "list_all (\<lambda>e. no_nul (rktp_topic e)) (elems_of l)"
    note names = sorted_getTopicPartitions names_of_list [OF this]
    {
      assume "onRebalance A RD_KAFKA_RESP_ERR__ASSIGN_PARTITIONS l s = (Inr (), s')"
      then obtain s2 where "changeAssignment A (rebalance_event RD_KAFKA_RESP_ERR__ASSIGN_PARTITIONS (learn_protocol A s))
          (getTopicPartitions l) (clear_pending RD_KAFKA_RESP_ERR__ASSIGN_PARTITIONS (learn_protocol A s)) = (Inr (), s2)"
        "world s' = world s2"
        by (auto simp: onRebalance_assign Let_def rebalance_event_def split: prod.splits sum.splits)
      from held [OF names this(1)] this(2)
      show "held (world s') = (if isCooperativeEnabled (learn_protocol A s) then held (world s) else {}) \<union> set (getTopicPartitions l)"
        by (simp add: rebalance_event_def split: if_splits)
    next
      let ?coop = "isCooperativeEnabled (learn_protocol A s)"
      assume "onRebalance A RD_KAFKA_RESP_ERR__REVOKE_PARTITIONS l s = (Inr (), s')"
      then obtain s1 where run: "changeAssignment A (rebalance_event RD_KAFKA_RESP_ERR__REVOKE_PARTITIONS (learn_protocol A s))
          (if ?coop then getTopicPartitions l else []) s1 = (Inr (), s')" and s1: "world s1 = world s"
        by (auto simp: onRebalance_revoke Let_def rebalance_event_def)
      show "held (world s') = (if ?coop then held (world s) - set (getTopicPartitions l) else {})"
        using held [OF _ _ run] names s1 by (cases ?coop) (simp_all add: rebalance_event_def)
    }
  }
qed

definition mirror_api :: "sim consumer_api" where
  \<comment> \<open>the simulated library, which hands out C strings only\<close>
  "mirror_api = sim_api\<lparr>
     rd_kafka_poll := (\<lambda>t w. (filter served_names_ok (sim_served w), w\<lparr>sim_served := []\<rparr>)),
     rd_kafka_queue_poll_callback := (\<lambda>t w. (filter served_names_ok (sim_served w), w\<lparr>sim_served := []\<rparr>))\<rparr>"

theorem assignment_mirrors_library_witness:
  "set (curAssignment (snd (pollEvents (consumer_pollCallbacks mirror_api) 0 (consumer_default (sim_start
       \<lparr>sim_served := [Served_rebalance RD_KAFKA_RESP_ERR__ASSIGN_PARTITIONS
          (Some [rktp_of ((''t'', 1), 0), rktp_of ((''u'', 0), 0)])]\<rparr>)\<lparr>pollable := True\<rparr>)))) = {(''t'', 1), (''u'', 0)}"
proof -
  let ?s = "snd (pollEvents (consumer_pollCallbacks mirror_api) 0 (consumer_default (sim_start
       \<lparr>sim_served := [Served_rebalance RD_KAFKA_RESP_ERR__ASSIGN_PARTITIONS
          (Some [rktp_of ((''t'', 1), 0), rktp_of ((''u'', 0), 0)])]\<rparr>)\<lparr>pollable := True\<rparr>))"
  let ?held = "\<lambda>w. set (sim_assigned w)"
  have changes: "makes_changes mirror_api ?held (\<lambda>_. False)"
    by (auto simp: makes_changes_def mirror_api_def sim_defs error_set_def)
  have others: "others_keep mirror_api ?held (\<lambda>_. False)"
    by (auto simp: others_keep_def same_assignment_def mirror_api_def sim_defs list_all_iff)
  have run: "open_run mirror_api ?held (\<lambda>_. False) ?s"
    by (intro open_run.polled_events open_run.begun) (simp_all add: fresh_consumer_def consumer_default_def client_default_def client.defs sim_start_def)
  have "set (curAssignment ?s) = set (sim_assigned (world ?s))"
    using assignment_mirrors_library [OF changes others run, THEN conjunct1] by (simp only: simp_thms)
  also have "\<dots> = {(''t'', 1), (''u'', 0)}" by code_simp
  finally show ?thesis .
qed

end
