(* ===== verification/Consumer_Loops.thy ===== *)
theory Consumer_Loops
  imports Consumer_Correctness
begin

text \<open>
  The consumer's waiting loops (\<open>subscribe\<close>, \<open>unsubscribe\<close>, \<open>seek\<close>), their end and their outcomes,
  the queries by time, and the validation of its configuration.
\<close>

section \<open>Time\<close>

text \<open>
  The clock: \<open>time\<close> reads it in a state of the library; it never goes back, and a call of
  \<open>rd_kafka_poll\<close> takes at least a nanosecond.
\<close>

definition clock_advances :: "('w, 'n) consumer_api_scheme \<Rightarrow> ('w \<Rightarrow> int) \<Rightarrow> bool" where
  "clock_advances A time \<longleftrightarrow>
     (\<forall>w. fst (steady_now A w) = time w \<and> time w \<le> time (snd (steady_now A w))) \<and>
     (\<forall>t w. time w < time (snd (rd_kafka_poll A t w))) \<and>
     (\<forall>l w. time w \<le> time (snd (rd_kafka_assign A l w))) \<and>
     (\<forall>l w. time w \<le> time (snd (rd_kafka_incremental_assign A l w))) \<and>
     (\<forall>l w. time w \<le> time (snd (rd_kafka_incremental_unassign A l w)))"

definition not_before :: "('w \<Rightarrow> int) \<Rightarrow> int \<Rightarrow> ('w, 'm) consumer_scheme \<Rightarrow> bool" where
  "not_before time t s \<longleftrightarrow> t \<le> time (world s)"

lemma time_changeAssignment:
  assumes "clock_advances A time"
  shows "preserves (not_before time t) (changeAssignment A ev tps)"
proof (rule preservesI)
  fix s :: "('a, 'c) consumer_scheme" assume t: "not_before time t s"
  have "time (world s) \<le> time (snd (library_change A ev tps (world s)))"
    using assms by (cases ev) (simp_all add: clock_advances_def library_change_def Let_def)
  with t show "not_before time t (snd (changeAssignment A ev tps s))"
    by (simp add: changeAssignment_eq not_before_def)
qed

lemma time_onRebalance:
  assumes "clock_advances A time"
  shows "preserves (not_before time t) (onRebalance A err l)"
proof -
  have "preserves (not_before time t) (modM (learn_protocol A))" "preserves (not_before time t) (modM (clear_pending err))"
    by (simp_all add: preserves_def not_before_def)
  moreover have "preserves (not_before time t) (call_cb cb e)" for cb e
    by (auto simp: preserves_def not_before_def call_cb_apply split: option.split)
  ultimately show ?thesis
    unfolding onRebalance_def Let_def by (intro inv_intros time_changeAssignment assms)
qed

lemma time_serve: "clock_advances A time \<Longrightarrow> preserves (not_before time t) (serve A c)"
proof (cases c)
  case (Served_rebalance err l)
  assume "clock_advances A time"
  then show ?thesis unfolding Served_rebalance serve_def served.case by (rule time_onRebalance)
qed (auto simp: serve_def offsetCommitCallback_def preserves_def not_before_def call_cb_apply split: option.split)

lemma time_poll_library:
  assumes "clock_advances A time"
  shows "time (world s) < time (world (snd (poll_library A t s)))"
proof -
  let ?w = "snd (rd_kafka_poll A t (world s))"
  have "not_before time (time ?w) (snd (serve_all A (fst (rd_kafka_poll A t (world s))) (s\<lparr>world := ?w\<rparr>)))"
    by (rule preservesD [OF preserves_serve_all [OF time_serve [OF assms]]]) (simp add: not_before_def)
  then show ?thesis
    using assms by (auto simp: poll_library_def seqM_split not_before_def clock_advances_def intro: less_le_trans)
qed

section \<open>What leaves a served callback\<close>

text \<open>The exceptions of a served callback are the library's refusals, which carry no message of the client.\<close>

definition plain_exception :: "exn \<Rightarrow> bool" where
  "plain_exception e \<longleftrightarrow> (\<exists>err. e = KafkaException err \<and> messageOpt err = None)"

lemma plain_throw [simp]:
  "plain_exception (throw_error (Error_copy (Error_code c)))" "plain_exception (throw_error (Error_copy (Error_rich r)))"
  by (simp_all add: plain_exception_def throw_error_def Error_copy_def error_defs)

lemma plain_library_change [simp]: "plain_exception (throw_error (Error_copy (fst (library_change A ev tps w))))"
  by (cases ev) (simp_all add: library_change_def Let_def del: Error_copy_code)

lemma throws_changeAssignment: "fst (changeAssignment A ev tps s) = Inl e \<Longrightarrow> plain_exception e"
  by (auto simp: changeAssignment_eq split: if_splits)

lemma throws_serve: "fst (serve A c s) = Inl e \<Longrightarrow> plain_exception e"
proof (cases c)
  case (Served_rebalance err l)
  assume throw: "fst (serve A c s) = Inl e"
  consider "err = RD_KAFKA_RESP_ERR__ASSIGN_PARTITIONS" | "err = RD_KAFKA_RESP_ERR__REVOKE_PARTITIONS"
    | "err \<noteq> RD_KAFKA_RESP_ERR__ASSIGN_PARTITIONS" "err \<noteq> RD_KAFKA_RESP_ERR__REVOKE_PARTITIONS" by blast
  then show ?thesis
  proof cases
    case 1
    with throw Served_rebalance show ?thesis
      by (auto simp: serve_def onRebalance_assign changeAssignment_eq Let_def split: if_splits)
  next
    case 2
    with throw Served_rebalance show ?thesis
      by (auto simp: serve_def onRebalance_revoke changeAssignment_eq Let_def split: if_splits)
  qed (use throw Served_rebalance in \<open>simp add: serve_def onRebalance_def Let_def\<close>)
qed (simp add: serve_def offsetCommitCallback_def)

lemma throws_serve_all: "fst (serve_all A cs s) = Inl e \<Longrightarrow> plain_exception e"
proof (induction cs arbitrary: s)
  case (Cons c cs)
  then show ?case using throws_serve [of A c s e]
    by (auto simp: seqM_split split: prod.splits sum.splits)
qed simp

lemma throws_poll_library: "fst (poll_library A t s) = Inl e \<Longrightarrow> plain_exception e"
  using throws_serve_all by (auto simp: poll_library_def seqM_split)

section \<open>The end of the waiting loop\<close>

lemma await_body_again:
  assumes "clock_advances A time" "await_body A until s = (Inr None, s')"
  shows "time (world s) < until \<and> time (world s) < time (world s')"
proof -
  let ?s1 = "s\<lparr>world := snd (steady_now A (world s))\<rparr>"
  have now: "fst (steady_now A (world s)) = time (world s)" "time (world s) \<le> time (world ?s1)"
    using assms(1) by (simp_all add: clock_advances_def)
  have "s' = snd (poll_library A EVENT_POLLING_INTERVAL_MS ?s1) \<and> time (world s) < until"
    using assms(2) now(1) by (auto simp: await_body_def seqM_split split: prod.splits sum.splits if_splits)
  then show ?thesis
    using time_poll_library [OF assms(1), of ?s1 EVENT_POLLING_INTERVAL_MS] now(2) by auto
qed

lemma await_body_no_fuel: "fst (await_body A until s) \<noteq> Inl Out_of_fuel"
  using throws_poll_library [of A EVENT_POLLING_INTERVAL_MS "s\<lparr>world := snd (steady_now A (world s))\<rparr>" Out_of_fuel]
  by (auto simp: await_body_def seqM_split plain_exception_def split: prod.splits sum.splits)

lemma await_event_ends:
  assumes "clock_advances A time" "nat (until - time (world s)) < fuel"
  shows "fst (await_event A until fuel s) \<noteq> Inl Out_of_fuel"
  by (rule await.enough_fuel [where I = "\<lambda>_. True" and \<mu> = "\<lambda>s. nat (until - time (world s))"])
     (use assms(2) await_body_again [OF assms(1)] await_body_no_fuel in \<open>force+\<close>)

definition await_fuel :: "('w, 'n) consumer_api_scheme \<Rightarrow> ('w \<Rightarrow> int) \<Rightarrow> int \<Rightarrow> 'w \<Rightarrow> nat" where
  \<comment> \<open>one round per nanosecond up to the deadline is enough\<close>
  "await_fuel A time timeout w =
     Suc (nat (deadline (time w) timeout - time (snd (steady_now A w))))"

lemma await_ends:
  assumes "clock_advances A time" "await_fuel A time timeout (world s) \<le> fuel"
  shows "fst (await_or_time_out A fuel timeout what s) \<noteq> Inl Out_of_fuel \<and>
    await_or_time_out A fuel timeout what s = await_or_time_out A (await_fuel A time timeout (world s)) timeout what s"
proof -
  let ?s1 = "s\<lparr>world := snd (steady_now A (world s))\<rparr>" and ?n = "await_fuel A time timeout (world s)"
  let ?until = "deadline (time (world s)) timeout"
  have now: "fst (steady_now A (world s)) = time (world s)" using assms(1) by (simp add: clock_advances_def)
  have end_n: "fst (await_event A ?until ?n ?s1) \<noteq> Inl Out_of_fuel"
    by (rule await_event_ends [OF assms(1)]) (simp add: await_fuel_def)
  have same: "await_event A ?until fuel ?s1 = await_event A ?until ?n ?s1"
    by (rule await.more_fuel [OF end_n assms(2)])
  show ?thesis
    using end_n same
    by (auto simp: await_or_time_out_def now seqM_split kafka_error_def throw_error_def split: prod.splits sum.splits)
qed

lemma start_subscription_split:
  "start_subscription A fuel topics cb timeout s =
     (let call = rd_kafka_subscribe A (createRkList_of_topics (the_lib A) topics) (world s);
          s1 = s\<lparr>userSubscription := topics, rebalanceCb := cb, world := snd call\<rparr>
      in if fst call \<noteq> RD_KAFKA_RESP_ERR_NO_ERROR then (Inl (throw_error (Error_code (fst call))), s1)
         else await_or_time_out A fuel timeout ''subscribe'' (s1\<lparr>pendingEvent := Some PartitionsAssignment\<rparr>))"
  by (simp add: start_subscription_def Let_def seqM_split)

lemma subscribe_split:
  "subscribe A fuel topics cb timeout s =
     (if userAssignment s \<noteq> [] then (Inl (kafka_error RD_KAFKA_RESP_ERR__FAIL
         ''Unexpected Operation! Once assign() was used, subscribe() should not be called any more!''), s)
      else if isCooperativeEnabled s \<and> topics = userSubscription s then (Inr (), s)
      else start_subscription A fuel topics cb timeout s)"
  by (simp add: subscribe_def)

section \<open>Properties\<close>

text \<open>C6. Termination: when the clock advances, \<open>subscribe\<close> returns or throws after finitely many rounds
  of its loop, whatever the library serves: from some amount of fuel on the fuel is never used up
  and the outcome no longer depends on it.\<close>

theorem subscribe_always_ends:
  assumes "clock_advances A time"
  shows "\<exists>n. \<forall>fuel\<ge>n. fst (subscribe A fuel topics cb timeout s) \<noteq> Inl Out_of_fuel \<and>
    subscribe A fuel topics cb timeout s = subscribe A n topics cb timeout s"
proof -
  define call where "call = rd_kafka_subscribe A (createRkList_of_topics (the_lib A) topics) (world s)"
  define n where "n = await_fuel A time timeout (snd call)"
  have "fst (subscribe A fuel topics cb timeout s) \<noteq> Inl Out_of_fuel \<and>
    subscribe A fuel topics cb timeout s = subscribe A n topics cb timeout s" if "n \<le> fuel" for fuel
    using await_ends [OF assms, of timeout "s\<lparr>userSubscription := topics, rebalanceCb := cb, world := snd call,
        pendingEvent := Some PartitionsAssignment\<rparr>" fuel "''subscribe''"] that
    by (auto simp: subscribe_split start_subscription_split Let_def kafka_error_def throw_error_def n_def
        simp flip: call_def)
  then show ?thesis by blast
qed

theorem subscribe_always_ends_witness:
  "\<exists>n. \<forall>fuel\<ge>n. fst (subscribe sim_api fuel [''t''] (Some 1) 30000 (consumer_default sim_start)) \<noteq> Inl Out_of_fuel"
proof -
  have "clock_advances sim_api sim_now"
    by (simp add: clock_advances_def sim_defs)
  from subscribe_always_ends [OF this, of "[''t'']" "Some 1" 30000 "consumer_default sim_start"]
  show ?thesis by blast
qed

lemma preserves_of_frame:
  assumes "\<And>s s'. same_user_state s s' \<Longrightarrow> I s \<Longrightarrow> I s'"
  shows "preserves I (poll_library A t)"
  by (rule preservesI) (rule assms [OF preservesD [OF frame_poll_library same_user_state_refl]])

lemma frame_await: "preserves (\<lambda>s. userSubscription s = topics \<and> rebalanceCb s = cb) (await_or_time_out A fuel timeout what)"
  by (rule preserves_await, rule preserves_of_frame) (auto simp: same_user_state_def preserves_def)

lemma await_event_returns:
  "await_event A until fuel s = (Inr True, s') \<Longrightarrow> pendingEvent s' = None"
proof -
  have "triple (\<lambda>_. True) (await_event A until fuel) (\<lambda>done s. done \<longrightarrow> pendingEvent s = None) (\<lambda>e s. e = Out_of_fuel \<or> True)"
    by (rule await.loop_triple)
       (auto simp: triple_def await_body_def seqM_split split: prod.splits sum.splits option.splits)
  then show "await_event A until fuel s = (Inr True, s') \<Longrightarrow> pendingEvent s' = None"
    by (auto dest: triple_returns)
qed

lemma await_body_throws: "await_body A until s = (Inl e, s') \<Longrightarrow> plain_exception e"
  using throws_poll_library [of A EVENT_POLLING_INTERVAL_MS "s\<lparr>world := snd (steady_now A (world s))\<rparr>" e]
  by (auto simp: await_body_def seqM_split split: prod.splits sum.splits if_splits)

lemma await_event_throws:
  assumes "await_event A until fuel s = (Inl e, s')"
  shows "e = Out_of_fuel \<or> plain_exception e"
proof -
  have "triple (\<lambda>_. True) (await_event A until fuel) (\<lambda>_ _. True) (\<lambda>e s. e = Out_of_fuel \<or> plain_exception e)"
    by (rule await.loop_triple, rule tripleI)
       (auto dest: await_body_throws split: prod.splits sum.splits option.splits)
  then show ?thesis using assms by (auto dest: triple_throws)
qed

definition subscribe_timed_out :: exn where
  "subscribe_timed_out = kafka_error RD_KAFKA_RESP_ERR__TIMED_OUT ''subscribe() timed out!''"

lemma not_plain_timed_out [simp]: "\<not> plain_exception subscribe_timed_out" "subscribe_timed_out \<noteq> Out_of_fuel"
  by (simp_all add: plain_exception_def subscribe_timed_out_def kafka_error_def throw_error_def Error_message_def
      Error_default_def Error_copy_def)

lemma await_outcome:
  assumes "await_or_time_out A fuel timeout ''subscribe'' s = (r, s')" "r = Inr () \<or> r = Inl subscribe_timed_out"
  shows "pendingEvent s' = None"
proof -
  define t where "t = steady_now A (world s)"
  obtain x s2 where loop: "await_event A (deadline (fst t) timeout) fuel (s\<lparr>world := snd t\<rparr>) = (x, s2)"
    by (cases "await_event A (deadline (fst t) timeout) fuel (s\<lparr>world := snd t\<rparr>)")
  show ?thesis
  proof (cases x)
    case (Inl e)
    then have "r = Inl e" using assms(1) loop by (simp add: await_or_time_out_def seqM_split t_def)
    then show ?thesis using assms(2) await_event_throws [OF loop [unfolded Inl]] by auto
  next
    case (Inr finished)
    then show ?thesis
      using assms(1) loop await_event_returns [of A "deadline (fst t) timeout" fuel "s\<lparr>world := snd t\<rparr>" s2]
      by (auto simp: await_or_time_out_def seqM_split t_def split: if_splits)
  qed
qed

text \<open>C22. Outcomes of \<open>subscribe\<close>: with a manual assignment it is refused and changes nothing; a
  cooperative consumer that already has the topics returns at once; otherwise the topics and the
  callback are recorded whatever happens next, a refusal by the library included, and when it
  returns or times out no event is awaited any more.\<close>

theorem subscribe_outcomes:
  assumes "subscribe A fuel topics cb timeout s = (r, s')"
  shows "if userAssignment s \<noteq> [] then s' = s \<and> (\<exists>e. r = Inl (KafkaException e) \<and> error_value e = RD_KAFKA_RESP_ERR__FAIL)
    else if isCooperativeEnabled s \<and> topics = userSubscription s then r = Inr () \<and> s' = s
    else userSubscription s' = topics \<and> rebalanceCb s' = cb \<and>
      (r = Inr () \<or> r = Inl subscribe_timed_out \<longrightarrow> pendingEvent s' = None)"
proof (cases "userAssignment s \<noteq> [] \<or> isCooperativeEnabled s \<and> topics = userSubscription s")
  case True
  then show ?thesis using assms by (auto simp: subscribe_split kafka_error_def throw_error_def)
next
  case False
  define call where "call = rd_kafka_subscribe A (createRkList_of_topics (the_lib A) topics) (world s)"
  define s1 where "s1 = s\<lparr>userSubscription := topics, rebalanceCb := cb, world := snd call,
    pendingEvent := Some PartitionsAssignment\<rparr>"
  show ?thesis
  proof (cases "fst call = RD_KAFKA_RESP_ERR_NO_ERROR")
    case refused: False
    have "throw_error (Error_code c) \<noteq> subscribe_timed_out" for c
      using not_plain_timed_out(1) plain_throw(1) by (metis Error_copy_code)
    then show ?thesis using assms False refused
      by (auto simp: subscribe_split start_subscription_split Let_def simp flip: call_def)
  next
    case ok: True
    then have run: "await_or_time_out A fuel timeout ''subscribe'' s1 = (r, s')"
      using assms False
      by (auto simp: subscribe_split start_subscription_split Let_def s1_def simp flip: call_def split: if_splits)
    then show ?thesis
      using preservesD [OF frame_await, of s1 topics cb A fuel timeout "''subscribe''"] await_outcome [OF run] False
      by (auto simp: s1_def)
  qed
qed

theorem subscribe_outcomes_witness:
  "userSubscription (snd (subscribe sim_api 3 [''t''] (Some 1) 1000 (consumer_default sim_start))) = [''t'']"
  using subscribe_outcomes [of sim_api 3 "[''t'']" "Some 1" 1000 "consumer_default sim_start"
      "fst (subscribe sim_api 3 [''t''] (Some 1) 1000 (consumer_default sim_start))"
      "snd (subscribe sim_api 3 [''t''] (Some 1) 1000 (consumer_default sim_start))"]
  by (simp add: consumer_default_def client_default_def client.defs)

lemma deadline_infinite:
  assumes "1000000 \<le> now" "now < 2 ^ 62"
  shows "deadline now InfiniteTimeout = now - 1000000"
proof -
  have "to_int64 (InfiniteTimeout * 1000000) = - 1000000"
    by (simp add: InfiniteTimeout_def INT64_MAX_def to_int64_def)
  then show ?thesis
    using to_int64_id [of "now - 1000000"] assms by (simp add: deadline_def)
qed

text \<open>C24. An infinite time-out of \<open>subscribe\<close> expires at once: in the 64-bit nanoseconds of the clock
  \<open>InfiniteTimeout\<close> wraps around to minus one millisecond, so the deadline is already past; the library
  is never polled, no callback is served, and the call throws its time-out error although the
  subscription has been accepted.\<close>

theorem infinite_timeout_expires_at_once:
  assumes "userAssignment s = []" "\<not> (isCooperativeEnabled s \<and> topics = userSubscription s)"
    and "rd_kafka_subscribe A (createRkList_of_topics (the_lib A) topics) (world s) = (RD_KAFKA_RESP_ERR_NO_ERROR, w1)"
    and "steady_now A w1 = (now, w2)" "1000000 \<le> now" "now < 2 ^ 62"
    and "steady_now A w2 = (now', w3)" "now \<le> now'"
  shows "subscribe A (Suc fuel) topics cb InfiniteTimeout s =
    (Inl subscribe_timed_out,
     s\<lparr>userSubscription := topics, rebalanceCb := cb, world := w3, pendingEvent := None\<rparr>)"
  using assms
  by (simp add: subscribe_split start_subscription_split await_or_time_out_def seqM_split deadline_infinite
      subscribe_timed_out_def del: String.char_of_def)

theorem infinite_timeout_expires_at_once_witness:
  "fst (subscribe sim_api 5 [''t''] None InfiniteTimeout (consumer_default sim_start)) = Inl subscribe_timed_out"
  using infinite_timeout_expires_at_once [of "consumer_default sim_start" "[''t'']" sim_api sim_start
      2000000 "sim_start\<lparr>sim_now := 2000001\<rparr>" 2000001 "sim_start\<lparr>sim_now := 2000002\<rparr>" 4 None]
  by (simp add: consumer_default_def client_default_def client.defs sim_defs isCooperativeEnabled_def)

section \<open>Seeking\<close>

text \<open>The states of the library after \<open>n\<close> attempts, each followed by a look at the clock.\<close>

primrec after_attempts :: "('w, 'n) consumer_api_scheme \<Rightarrow> TopicPartition \<Rightarrow> Offset \<Rightarrow> nat \<Rightarrow> 'w \<Rightarrow> 'w" where
  "after_attempts A tp off 0 w = w"
| "after_attempts A tp off (Suc n) w = after_attempts A tp off n
     (snd (steady_now A (snd (rd_kafka_seek A (c_str (fst tp)) (snd tp) off SEEK_RETRY_INTERVAL_MS w))))"

definition attempt_answer :: "('w, 'n) consumer_api_scheme \<Rightarrow> TopicPartition \<Rightarrow> Offset \<Rightarrow> 'w \<Rightarrow> rd_kafka_resp_err_t" where
  "attempt_answer A tp off w = fst (rd_kafka_seek A (c_str (fst tp)) (snd tp) off SEEK_RETRY_INTERVAL_MS w)"

definition attempt_time :: "('w, 'n) consumer_api_scheme \<Rightarrow> TopicPartition \<Rightarrow> Offset \<Rightarrow> 'w \<Rightarrow> int" where
  "attempt_time A tp off w =
     fst (steady_now A (snd (rd_kafka_seek A (c_str (fst tp)) (snd tp) off SEEK_RETRY_INTERVAL_MS w)))"

definition retries :: "('w, 'n) consumer_api_scheme \<Rightarrow> TopicPartition \<Rightarrow> Offset \<Rightarrow> int \<Rightarrow> 'w \<Rightarrow> bool" where
  "retries A tp off until w \<longleftrightarrow> seek_retriable (attempt_answer A tp off w) \<and> attempt_time A tp off w < until"

lemma seek_loop_step:
  "fst (seek_loop A tp off until (Suc fuel) s) =
     (if retries A tp off until (world s)
      then fst (seek_loop A tp off until fuel (s\<lparr>world := after_attempts A tp off 1 (world s)\<rparr>))
      else Inr (attempt_answer A tp off (world s)))"
  by (auto simp: seqM_split retries_def attempt_answer_def attempt_time_def)

lemma seek_loop_attempts:
  assumes "\<forall>i<k. retries A tp off until (after_attempts A tp off i (world s))"
    and "\<not> retries A tp off until (after_attempts A tp off k (world s))" "k < fuel"
  shows "fst (seek_loop A tp off until fuel s) = Inr (attempt_answer A tp off (after_attempts A tp off k (world s)))"
  using assms
proof (induction k arbitrary: s fuel)
  case 0
  then obtain f where "fuel = Suc f" by (cases fuel) auto
  then show ?case using 0 by (simp only: seek_loop_step) simp
next
  case (Suc k)
  then obtain f where f: "fuel = Suc f" "k < f" by (cases fuel) auto
  let ?s1 = "s\<lparr>world := after_attempts A tp off 1 (world s)\<rparr>"
  have "retries A tp off until (world s)" using Suc.prems(1) by force
  moreover have "\<forall>i<k. retries A tp off until (after_attempts A tp off i (world ?s1))"
  proof (intro allI impI)
    fix i assume "i < k"
    then have "retries A tp off until (after_attempts A tp off (Suc i) (world s))" using Suc.prems(1) by blast
    then show "retries A tp off until (after_attempts A tp off i (world ?s1))" by simp
  qed
  moreover have "\<not> retries A tp off until (after_attempts A tp off k (world ?s1))"
    using Suc.prems(2) by simp
  ultimately show ?case
    using Suc.IH [of ?s1 f] f by (simp only: seek_loop_step) simp
qed

lemma attempts_stop:
  assumes "\<And>w. (time w :: int) < attempt_time A tp off w" "\<And>w. attempt_time A tp off w \<le> time (after_attempts A tp off 1 w)"
  shows "\<exists>k. \<not> retries A tp off until (after_attempts A tp off k w)"
proof (rule ccontr)
  assume "\<not> ?thesis"
  then have all: "retries A tp off until (after_attempts A tp off k w)" for k by blast
  have snoc: "after_attempts A tp off (Suc k) w = after_attempts A tp off 1 (after_attempts A tp off k w)" for k w
    by (induction k arbitrary: w) simp_all
  have "time w + int k \<le> time (after_attempts A tp off k w)" for k
  proof (induction k)
    case (Suc k)
    have "time (after_attempts A tp off k w) < time (after_attempts A tp off (Suc k) w)"
      using assms(1) [of "after_attempts A tp off k w"] assms(2) [of "after_attempts A tp off k w"] snoc [of k w]
      by simp
    with Suc show ?case by simp
  qed simp
  from this [of "nat (until - time w)"] assms(1) [of "after_attempts A tp off (nat (until - time w)) w"]
    all [of "nat (until - time w)"]
  show False by (auto simp: retries_def split: if_splits)
qed

text \<open>C23. \<open>seek\<close> retries until it succeeds, fails for good or is out of time, and always ends: when
  every attempt takes time, there is a number of attempts of which all but the last were answered
  with a transient error (bad state, timed out, outdated) before the deadline and the last was not;
  the answer to the last one decides, as a return or as the exception with that code.\<close>

theorem seek_retries_and_ends:
  assumes "\<And>w. time w < attempt_time A tp off w"
    and "\<And>w. attempt_time A tp off w \<le> time (after_attempts A tp off 1 w)"
    and "rd_kafka_topic_new A (c_str (fst tp)) (world s) = (None, wa)" "steady_now A wa = (now, wb)"
  shows "\<exists>k. (\<forall>i<k. retries A tp off (deadline now timeout) (after_attempts A tp off i wb)) \<and>
    \<not> retries A tp off (deadline now timeout) (after_attempts A tp off k wb) \<and>
    (\<forall>fuel>k. fst (seek A fuel tp off timeout s) =
       (let e = attempt_answer A tp off (after_attempts A tp off k wb)
        in if e = RD_KAFKA_RESP_ERR_NO_ERROR then Inr () else Inl (throw_error (Error_code e))))"
proof -
  let ?until = "deadline now timeout"
  define k where "k = (LEAST k. \<not> retries A tp off ?until (after_attempts A tp off k wb))"
  have stop: "\<not> retries A tp off ?until (after_attempts A tp off k wb)"
    unfolding k_def by (rule LeastI_ex) (rule attempts_stop [OF assms(1,2)])
  have before: "\<forall>i<k. retries A tp off ?until (after_attempts A tp off i wb)"
    using not_less_Least unfolding k_def by blast
  have "fst (seek A fuel tp off timeout s) =
      (let e = attempt_answer A tp off (after_attempts A tp off k wb)
       in if e = RD_KAFKA_RESP_ERR_NO_ERROR then Inr () else Inl (throw_error (Error_code e)))" if "k < fuel" for fuel
  proof -
    have "fst (seek_loop A tp off ?until fuel (s\<lparr>world := wb\<rparr>)) = Inr (attempt_answer A tp off (after_attempts A tp off k wb))"
      using seek_loop_attempts [of k A tp off ?until "s\<lparr>world := wb\<rparr>" fuel] before stop that by simp
    then show ?thesis
      by (auto simp: seek_def assms(3,4) seqM_split split: prod.splits)
  qed
  with before stop show ?thesis by blast
qed

theorem seek_retries_and_ends_witness:
  "\<exists>k. \<forall>fuel>k. fst (seek sim_api fuel (''t'', 0) 5 1000 (consumer_default sim_start)) \<noteq> Inl Out_of_fuel"
proof -
  have "\<exists>k. (\<forall>i<k. retries sim_api (''t'', 0) 5 (deadline 2000000 1000) (after_attempts sim_api (''t'', 0) 5 i (sim_start\<lparr>sim_now := 2000001\<rparr>))) \<and>
    \<not> retries sim_api (''t'', 0) 5 (deadline 2000000 1000) (after_attempts sim_api (''t'', 0) 5 k (sim_start\<lparr>sim_now := 2000001\<rparr>)) \<and>
    (\<forall>fuel>k. fst (seek sim_api fuel (''t'', 0) 5 1000 (consumer_default sim_start)) =
       (let e = attempt_answer sim_api (''t'', 0) 5 (after_attempts sim_api (''t'', 0) 5 k (sim_start\<lparr>sim_now := 2000001\<rparr>))
        in if e = RD_KAFKA_RESP_ERR_NO_ERROR then Inr () else Inl (throw_error (Error_code e))))"
    by (rule seek_retries_and_ends [where time = "\<lambda>w. sim_now w - 1" and wa = sim_start])
       (simp_all add: attempt_time_def sim_defs consumer_default_def client_default_def client.defs)
  then show ?thesis by (force simp: throw_error_def Let_def split: if_splits)
qed

section \<open>Queries by time and validation\<close>

lemma omap_find_filter:
  assumes "omap_ok m"
  shows "omap_find k (filter (\<lambda>kv. P (snd kv)) m) = (case omap_find k m of Some v \<Rightarrow> if P v then Some v else None | None \<Rightarrow> None)"
  using assms
proof (induction m)
  case (Cons kv m)
  obtain k' v where kv: "kv = (k', v)" by (cases kv)
  have "omap_find k' m = None" if "omap_ok ((k', v) # m)"
    using that by (auto simp: omap_ok_Cons omap_find_None)
  with Cons show ?case
    by (auto simp: kv omap_ok_Cons split: option.splits)
qed simp

lemma omap_ok_filter: "omap_ok m \<Longrightarrow> omap_ok (filter P m)"
  by (simp add: omap_ok_def sorted_wrt_map sorted_wrt_filter)

text \<open>Offsets by time: without partitions there is no call and no result; otherwise the library gets
  the partitions with the time stamp in the place of the offset, an error is thrown, and the result
  has, for each partition the library lists, its last offset unless that is still the time stamp
  asked for.\<close>

lemma offsets_for_time_result:
  assumes "offsetsForTime A tps t timeout s = (Inr res, s')"
  shows "if tps = [] then res = [] \<and> s' = s
    else \<exists>l. rd_kafka_offsets_for_times A (map (\<lambda>e. e\<lparr>rktp_offset := t\<rparr>) (createRkList_of_tps (the_lib A) tps))
             (to_int32 timeout) (world s) = ((RD_KAFKA_RESP_ERR_NO_ERROR, l), world s') \<and>
         omap_ok res \<and>
         (\<forall>tp. omap_find tp res = (case omap_find tp (getTopicPartitionOffsets (Some l)) of
             Some off \<Rightarrow> if off = t then None else Some off | None \<Rightarrow> None))"
proof (cases "tps = []")
  case True
  then show ?thesis using assms by (simp add: offsetsForTime_def)
next
  case False
  let ?call = "rd_kafka_offsets_for_times A (map (\<lambda>e. e\<lparr>rktp_offset := t\<rparr>) (createRkList_of_tps (the_lib A) tps)) (to_int32 timeout) (world s)"
  define l where "l = snd (fst ?call)"
  have "fst (fst ?call) = RD_KAFKA_RESP_ERR_NO_ERROR" and s': "s' = s\<lparr>world := snd ?call\<rparr>"
    and res: "res = filter (\<lambda>tp_o. snd tp_o \<noteq> t) (getTopicPartitionOffsets (Some l))"
    using assms False by (auto simp: offsetsForTime_def seqM_split l_def split: if_splits)
  moreover have "omap_ok (getTopicPartitionOffsets (Some l))" by (simp add: getTopicPartitionOffsets_eq)
  ultimately have "?call = ((RD_KAFKA_RESP_ERR_NO_ERROR, l), world s')" "omap_ok res"
    "\<forall>tp. omap_find tp res = (case omap_find tp (getTopicPartitionOffsets (Some l)) of
             Some off \<Rightarrow> if off = t then None else Some off | None \<Rightarrow> None)"
    using omap_find_filter [of "getTopicPartitionOffsets (Some l)" _ "\<lambda>off. off \<noteq> t"]
    by (auto simp: l_def prod_eq_iff omap_ok_filter split: option.split)
  then show ?thesis using False by auto
qed

lemma consumer_keys_distinct [simp]:
  "ENABLE_AUTO_OFFSET_STORE \<noteq> AUTO_COMMIT_INTERVAL_MS"
  "ENABLE_AUTO_OFFSET_STORE \<noteq> ENABLE_AUTO_COMMIT"
  "AUTO_COMMIT_INTERVAL_MS \<noteq> ENABLE_AUTO_COMMIT"
  "AUTO_COMMIT_INTERVAL_MS \<noteq> ENABLE_AUTO_OFFSET_STORE"
  "ENABLE_AUTO_COMMIT \<noteq> ENABLE_AUTO_OFFSET_STORE"
  "ENABLE_AUTO_COMMIT \<noteq> AUTO_COMMIT_INTERVAL_MS"
  "MAX_POLL_RECORDS \<noteq> ENABLE_AUTO_OFFSET_STORE"
  "MAX_POLL_RECORDS \<noteq> AUTO_COMMIT_INTERVAL_MS"
  "MAX_POLL_RECORDS \<noteq> ENABLE_AUTO_COMMIT"
  "MAX_POLL_RECORDS \<noteq> GROUP_ID"
  "MAX_POLL_RECORDS \<noteq> CLIENT_ID"
  "MAX_POLL_RECORDS \<noteq> LOG_LEVEL"
  "BOOTSTRAP_SERVERS \<noteq> MAX_POLL_RECORDS"
  "GROUP_ID \<noteq> ENABLE_AUTO_OFFSET_STORE"
  "GROUP_ID \<noteq> AUTO_COMMIT_INTERVAL_MS"
  "GROUP_ID \<noteq> ENABLE_AUTO_COMMIT"
  "GROUP_ID \<noteq> MAX_POLL_RECORDS"
  by code_simp+

lemma consumer_keys_fit [simp]:
  "key_fits ENABLE_AUTO_OFFSET_STORE (StringObj v)" "key_fits AUTO_COMMIT_INTERVAL_MS (StringObj v)"
  by (simp_all add: key_fits_string nonStringValueKeys_def ENABLE_AUTO_OFFSET_STORE_def AUTO_COMMIT_INTERVAL_MS_def)

lemma put_string_Inr: "key_fits k (StringObj v) \<Longrightarrow> put_string k v (Inr p) = Inr (omap_put k (ValueType_of (StringObj v)) p)"
  by (simp add: put_string_def props_put_apply)

lemma prop_string_remove [simp]:
  "prop_string k (props_remove k' p) = (if k = k' then None else prop_string k p)"
  by (simp add: prop_string_def props_remove_def)

text \<open>Validation of a consumer's configuration: it fails exactly without bootstrap servers; otherwise
  the library is never given \<open>max.poll.records\<close>, always has its own automatic commit switched off and
  the automatic offset store on, whatever the user asked for, and has a group id, the user's if
  there is one.\<close>

lemma consumer_validation:
  assumes "props_ok p"
  shows "case consumer_validate random random_group p of
      Inl e \<Rightarrow> prop_string BOOTSTRAP_SERVERS p = None \<and> is_kafka_exception e
    | Inr q \<Rightarrow> prop_string BOOTSTRAP_SERVERS p \<noteq> None \<and> props_ok q \<and>
        prop_string MAX_POLL_RECORDS q = None \<and> prop_string ENABLE_AUTO_COMMIT q = Some ''false'' \<and>
        prop_string AUTO_COMMIT_INTERVAL_MS q = Some ''0'' \<and> prop_string ENABLE_AUTO_OFFSET_STORE q = Some ''true'' \<and>
        prop_string GROUP_ID q = Some (case prop_string GROUP_ID p of Some g \<Rightarrow> g | None \<Rightarrow> random_group)"
proof -
  have ok: "props_ok (reformed random (props_remove MAX_POLL_RECORDS p))"
    using assms by (simp add: props_remove_def)
  show ?thesis
    using ok
    by (auto simp: consumer_validate_def validate_eq getProperty_eq put_string_Inr prop_string_reformed split: option.split)
qed

end
