(* ===== verification/Kafka_Producer.thy ===== *)
theory Kafka_Producer
  imports Kafka_Client "HOL-Library.Word"
begin

unbundle bit_operations_syntax

text \<open>
  \<open>KafkaProducer.h\<close>: the validation of a producer's configuration, the message handed to the library,
  the delivery callbacks, synchronous sending, closing and transactions. Delivery reports are what a
  call that serves callbacks returns: the messages with the opaque object of their \<open>send\<close>.
\<close>

section \<open>State and interface\<close>

text \<open>
  The callback of a \<open>send\<close> is the user's or the local one of \<open>syncSend\<close>, which writes the two local
  variables modelled by \<open>syncResult\<close>.
\<close>

datatype delivery_cb = User_callback callback | Sync_callback

record DeliveryCbOpaque =
  opaque_recordId :: "nat option"
  opaque_deliveryCb :: delivery_cb

datatype rd_kafka_vu_t =
    VTYPE_END
  | VTYPE_TOPIC string
  | VTYPE_PARTITION int
  | VTYPE_MSGFLAGS int
  | VTYPE_KEY ConstBuffer
  | VTYPE_VALUE ConstBuffer
  | VTYPE_OPAQUE DeliveryCbOpaque
  | VTYPE_HEADER string ConstBuffer

type_synonym deliveries = "(rd_kafka_message_t \<times> DeliveryCbOpaque option) list"

record 'w producer = "'w client" +
  syncResult :: "(Error \<times> RecordMetadata) option"

record 'w producer_api = "'w client_api" +
  RD_KAFKA_MSG_F_COPY :: "32 word"
  RD_KAFKA_MSG_F_BLOCK :: "32 word"
  RD_KAFKA_PURGE_F_QUEUE :: "32 word"
  RD_KAFKA_PURGE_F_INFLIGHT :: "32 word"
  rd_kafka_produceva :: "rd_kafka_vu_t list \<Rightarrow> 'w \<Rightarrow> rk_error option \<times> 'w"
  producer_rd_kafka_poll :: "int \<Rightarrow> 'w \<Rightarrow> deliveries \<times> 'w"
  rd_kafka_flush :: "int \<Rightarrow> 'w \<Rightarrow> (deliveries \<times> rd_kafka_resp_err_t) \<times> 'w"
  rd_kafka_purge :: "int \<Rightarrow> 'w \<Rightarrow> rd_kafka_resp_err_t \<times> 'w"
  rd_kafka_init_transactions :: "int \<Rightarrow> 'w \<Rightarrow> rk_error option \<times> 'w"
  rd_kafka_begin_transaction :: "'w \<Rightarrow> rk_error option \<times> 'w"
  rd_kafka_commit_transaction :: "int \<Rightarrow> 'w \<Rightarrow> rk_error option \<times> 'w"
  rd_kafka_abort_transaction :: "int \<Rightarrow> 'w \<Rightarrow> rk_error option \<times> 'w"
  rd_kafka_send_offsets_to_transaction ::
    "rd_kafka_topic_partition_list_t \<Rightarrow> nat \<Rightarrow> int \<Rightarrow> 'w \<Rightarrow> rk_error option \<times> 'w"

datatype SendOption = NoCopyRecordValue | ToCopyRecordValue

datatype ActionWhileQueueIsFull = Block | NoBlock

section \<open>Configuration\<close>

definition availPartitioners :: "string list" where
  \<comment> \<open>in the order of the set\<close>
  "availPartitioners = [''consistent'', ''consistent_random'', ''fnv1a'', ''fnv1a_random'',
     ''murmur2'', ''murmur2_random'', ''random'']"

definition KAFKA_IDEMP_MAX_INFLIGHT :: int where
  "KAFKA_IDEMP_MAX_INFLIGHT = 5"

definition check_partitioner :: "Properties \<Rightarrow> exn + unit" where
  "check_partitioner p = (case props_getProperty PARTITIONER p of
       Inl e \<Rightarrow> Inl e
     | Inr None \<Rightarrow> Inr ()
     | Inr (Some v) \<Rightarrow>
         if v \<notin> set availPartitioners then
           Inl (invalid_arg (''Invalid partitioner ['' @ v @ '']! Valid options: '' @
             stream_with '', '' True availPartitioners @ ''.''))
         else Inr ())"

definition check_in_flight :: "Properties \<Rightarrow> exn + unit" where
  "check_in_flight p = (case props_getProperty MAX_IN_FLIGHT p of
       Inl e \<Rightarrow> Inl e
     | Inr None \<Rightarrow> Inr ()
     | Inr (Some v) \<Rightarrow> (case stoi v of
           Inl e \<Rightarrow> Inl (StdException e)
         | Inr n \<Rightarrow>
             if n > KAFKA_IDEMP_MAX_INFLIGHT then
               Inl (invalid_arg (''`max.in.flight` must be set <= '' @ show_int KAFKA_IDEMP_MAX_INFLIGHT @
                 '' when `enable.idempotence` is `true`''))
             else Inr ()))"

definition check_acks :: "Properties \<Rightarrow> exn + unit" where
  "check_acks p = (case props_getProperty ACKS p of
       Inl e \<Rightarrow> Inl e
     | Inr None \<Rightarrow> Inr ()
     | Inr (Some v) \<Rightarrow>
         if v \<noteq> ''all'' \<and> v \<noteq> ''-1'' then
           Inl (invalid_arg ''`acks` must be set to `all`/`-1` when `enable.idempotence` is `true`'')
         else Inr ())"

definition producer_validate :: "string \<Rightarrow> Properties \<Rightarrow> exn + Properties" where
  "producer_validate random p =
     (case validateAndReformProperties random p of Inl e \<Rightarrow> Inl e | Inr p1 \<Rightarrow>
     (case check_partitioner p1 of Inl e \<Rightarrow> Inl e | Inr _ \<Rightarrow>
     (case props_getProperty ENABLE_IDEMPOTENCE p1 of Inl e \<Rightarrow> Inl e | Inr idem \<Rightarrow>
      if idem = Some ''true'' then
        (case check_in_flight p1 of Inl e \<Rightarrow> Inl e | Inr _ \<Rightarrow>
        (case check_acks p1 of Inl e \<Rightarrow> Inl e | Inr _ \<Rightarrow> Inr p1))
      else Inr p1)))"

definition producer_default :: "'w \<Rightarrow> 'w producer" where
  "producer_default w = client.extend (client_default w) \<lparr>syncResult = None\<rparr>"

definition construct_producer ::
  "('w, 'n) producer_api_scheme \<Rightarrow> string \<Rightarrow> Properties \<Rightarrow> (('w, 'm) producer_scheme, exn, unit) prog" where
  "construct_producer A random p =
     seqM (liftE (producer_validate random p)) (\<lambda>p'.
     seqM (construct_client A KafkaProducer p' (register_callback A (Some Conf_dr_msg_cb))) (\<lambda>_.
     startBackgroundPollingIfNecessary))"

section \<open>Delivery callbacks\<close>

definition run_delivery_cb ::
  "rdkafka_lib \<Rightarrow> DeliveryCbOpaque \<Rightarrow> rd_kafka_message_t \<Rightarrow> (('w, 'm) producer_scheme, exn, unit) prog" where
  \<comment> \<open>\<open>DeliveryCbOpaque::operator()\<close>; calling an empty function throws \<open>std::bad_function_call\<close>\<close>
  "run_delivery_cb L opaque msg =
     (let metadata = RecordMetadata_of_msg msg (opaque_recordId opaque); err = Error_code (rkm_err msg)
      in case opaque_deliveryCb opaque of
        User_callback None \<Rightarrow> throw (StdException (Runtime_error ''bad_function_call''))
      | User_callback (Some h) \<Rightarrow> emit (DeliveryEvent h metadata err)
      | Sync_callback \<Rightarrow> seqM (liftE (lift_std (rm_assign L metadata))) (\<lambda>copy.
          modM (\<lambda>s. s\<lparr>syncResult := Some (Error_copy err, copy)\<rparr>)))"

definition deliveryCallback ::
  "rdkafka_lib \<Rightarrow> rd_kafka_message_t \<times> DeliveryCbOpaque option \<Rightarrow> (('w, 'm) producer_scheme, exn, unit) prog" where
  "deliveryCallback L d = (case snd d of None \<Rightarrow> ret () | Some opaque \<Rightarrow> run_delivery_cb L opaque (fst d))"

fun deliver_all :: "rdkafka_lib \<Rightarrow> deliveries \<Rightarrow> (('w, 'm) producer_scheme, exn, unit) prog" where
  "deliver_all L [] = ret ()"
| "deliver_all L (d # ds) = seqM (deliveryCallback L d) (\<lambda>_. deliver_all L ds)"

definition producer_pollCallbacks :: "('w, 'n) producer_api_scheme \<Rightarrow> int \<Rightarrow> (('w, 'm) producer_scheme, exn, unit) prog" where
  "producer_pollCallbacks A timeoutMs =
     seqM (lib_call (producer_rd_kafka_poll A timeoutMs)) (deliver_all (the_lib A))"

section \<open>Sending\<close>

definition put_vu :: "nat \<times> rd_kafka_vu_t list \<Rightarrow> rd_kafka_vu_t \<Rightarrow> nat \<times> rd_kafka_vu_t list" where
  \<comment> \<open>\<open>rkVUs[uvCount++] = ..\<close>\<close>
  "put_vu cv vu = (fst cv + 1, (snd cv)[fst cv := vu])"

definition message_flags ::
  "('w, 'n) producer_api_scheme \<Rightarrow> bool \<Rightarrow> SendOption \<Rightarrow> ActionWhileQueueIsFull \<Rightarrow> 32 word" where
  "message_flags A auto_polling option action =
     (let queueFullAction = (if auto_polling then action else NoBlock)
      in (if option = ToCopyRecordValue then RD_KAFKA_MSG_F_COPY A else 0) OR
         (if queueFullAction = Block then RD_KAFKA_MSG_F_BLOCK A else 0))"

definition build_vus :: "ProducerRecord \<Rightarrow> 32 word \<Rightarrow> DeliveryCbOpaque \<Rightarrow> nat \<times> rd_kafka_vu_t list" where
  "build_vus rec flags opaque =
     (let vus = (0, replicate (6 + length (pr_headers rec)) VTYPE_END);
          vus = put_vu vus (VTYPE_TOPIC (c_str (pr_topic rec)));
          vus = put_vu vus (VTYPE_PARTITION (pr_partition rec));
          vus = put_vu vus (VTYPE_MSGFLAGS (sint flags));
          vus = put_vu vus (VTYPE_KEY (pr_key rec));
          vus = put_vu vus (VTYPE_VALUE (pr_value rec));
          vus = put_vu vus (VTYPE_OPAQUE opaque)
      in foldl (\<lambda>vus h. put_vu vus (VTYPE_HEADER (c_str (header_key h)) (header_value h))) vus (pr_headers rec))"

definition send ::
  "('w, 'n) producer_api_scheme \<Rightarrow> ProducerRecord \<Rightarrow> delivery_cb \<Rightarrow> SendOption \<Rightarrow> ActionWhileQueueIsFull \<Rightarrow>
     (('w, 'm) producer_scheme, exn, unit) prog" where
  "send A rec cb option action =
     seqM (getM isWithAutoEventsPolling) (\<lambda>auto_polling.
     let opaque = \<lparr>opaque_recordId = pr_id rec, opaque_deliveryCb = cb\<rparr>;
         (uvCount, rkVUs) = build_vus rec (message_flags A auto_polling option action) opaque
     in if uvCount \<noteq> length rkVUs then throw (StdException (Undefined_behaviour ''assertion in KafkaProducer::send''))
        else seqM (lib_call (rd_kafka_produceva A rkVUs)) (\<lambda>r. throw_if (Error_rich r)))"

definition send_no_throw ::
  "('w, 'n) producer_api_scheme \<Rightarrow> ProducerRecord \<Rightarrow> delivery_cb \<Rightarrow> Error \<Rightarrow> SendOption \<Rightarrow> ActionWhileQueueIsFull \<Rightarrow>
     (('w, 'm) producer_scheme, exn, Error) prog" where
  \<comment> \<open>the overload with the reference parameter \<open>error\<close>, whose final value is the result\<close>
  "send_no_throw A rec cb error option action =
     catchM (seqM (send A rec cb option action) (\<lambda>_. ret error))
       (\<lambda>e. case e of KafkaException err \<Rightarrow> ret (Error_copy err) | _ \<Rightarrow> throw e)"

text \<open>
  The wait of \<open>syncSend\<close> on its condition variable. Between two looks at the result the background
  thread, if there is one, polls once; no other thread does.
\<close>

fun await_delivery :: "('w, 'n) producer_api_scheme \<Rightarrow> nat \<Rightarrow> (('w, 'm) producer_scheme, exn, Error \<times> RecordMetadata) prog" where
  "await_delivery A 0 = throw Out_of_fuel"
| "await_delivery A (Suc fuel) = seqM (getM (\<lambda>s. s)) (\<lambda>s. case syncResult s of
       Some r \<Rightarrow> ret r
     | None \<Rightarrow>
         seqM (if pollThread s then producer_pollCallbacks A CALLBACK_POLLING_INTERVAL_MS else ret ())
           (\<lambda>_. await_delivery A fuel))"

definition delivery_body :: "('w, 'n) producer_api_scheme \<Rightarrow> (('w, 'm) producer_scheme, exn, (Error \<times> RecordMetadata) option) prog" where
  \<comment> \<open>one look at the result and, if there is none yet, one poll of the background thread\<close>
  "delivery_body A = (\<lambda>s. if syncResult s \<noteq> None then ret (syncResult s) s
     else seqM (if pollThread s then producer_pollCallbacks A CALLBACK_POLLING_INTERVAL_MS else ret ()) (\<lambda>_. ret None) s)"

interpretation delivery: fuel_loop "await_delivery A" "delivery_body A" Out_of_fuel
  for A :: "('w, 'n) producer_api_scheme"
  by unfold_locales
    (auto simp: delivery_body_def fun_eq_iff seqM_split split: prod.splits sum.splits option.splits)

definition syncSend ::
  "('w, 'n) producer_api_scheme \<Rightarrow> nat \<Rightarrow> ProducerRecord \<Rightarrow> (('w, 'm) producer_scheme, exn, RecordMetadata) prog" where
  "syncSend A fuel rec =
     seqM (modM (\<lambda>s. s\<lparr>syncResult := None\<rparr>)) (\<lambda>_.
     seqM (send A rec Sync_callback NoCopyRecordValue Block) (\<lambda>_.
     seqM (await_delivery A fuel) (\<lambda>(deliveryResult, recordMetadata).
     seqM (throw_if deliveryResult) (\<lambda>_. ret recordMetadata))))"

section \<open>Flushing, purging and closing\<close>

definition flush :: "('w, 'n) producer_api_scheme \<Rightarrow> int \<Rightarrow> (('w, 'm) producer_scheme, exn, Error) prog" where
  "flush A timeout =
     seqM (lib_call (rd_kafka_flush A (convertMsDurationToInt timeout))) (\<lambda>(ds, err).
     seqM (deliver_all (the_lib A) ds) (\<lambda>_. ret (Error_code err)))"

definition purge :: "('w, 'n) producer_api_scheme \<Rightarrow> (('w, 'm) producer_scheme, exn, Error) prog" where
  "purge A =
     seqM (lib_call (rd_kafka_purge A (sint (RD_KAFKA_PURGE_F_QUEUE A OR RD_KAFKA_PURGE_F_INFLIGHT A))))
       (\<lambda>err. ret (Error_code err))"

definition close_producer :: "('w, 'n) producer_api_scheme \<Rightarrow> int \<Rightarrow> (('w, 'm) producer_scheme, exn, unit) prog" where
  "close_producer A timeout =
     seqM (modM (\<lambda>s. s\<lparr>opened := False\<rparr>)) (\<lambda>_.
     seqM stopBackgroundPollingIfNecessary (\<lambda>_.
     seqM (flush A timeout) (\<lambda>result.
     seqM (if error_value result = RD_KAFKA_RESP_ERR__TIMED_OUT then seqM (purge A) (\<lambda>_. ret ()) else ret ()) (\<lambda>_.
     producer_pollCallbacks A 0))))"

section \<open>Transactions\<close>

definition initTransactions :: "('w, 'n) producer_api_scheme \<Rightarrow> int \<Rightarrow> (('w, 'm) producer_scheme, exn, unit) prog" where
  "initTransactions A timeout =
     seqM (lib_call (rd_kafka_init_transactions A (to_int32 timeout))) (\<lambda>r. throw_if (Error_rich r))"

definition beginTransaction :: "('w, 'n) producer_api_scheme \<Rightarrow> (('w, 'm) producer_scheme, exn, unit) prog" where
  "beginTransaction A = seqM (lib_call (rd_kafka_begin_transaction A)) (\<lambda>r. throw_if (Error_rich r))"

definition commitTransaction :: "('w, 'n) producer_api_scheme \<Rightarrow> int \<Rightarrow> (('w, 'm) producer_scheme, exn, unit) prog" where
  "commitTransaction A timeout =
     seqM (lib_call (rd_kafka_commit_transaction A (to_int32 timeout))) (\<lambda>r. throw_if (Error_rich r))"

definition abortTransaction :: "('w, 'n) producer_api_scheme \<Rightarrow> int \<Rightarrow> (('w, 'm) producer_scheme, exn, unit) prog" where
  "abortTransaction A timeout =
     seqM (lib_call (rd_kafka_abort_transaction A (to_int32 timeout))) (\<lambda>r. throw_if (Error_rich r))"

definition sendOffsetsToTransaction ::
  "('w, 'n) producer_api_scheme \<Rightarrow> TopicPartitionOffsets \<Rightarrow> nat \<Rightarrow> int \<Rightarrow> (('w, 'm) producer_scheme, exn, unit) prog" where
  \<comment> \<open>the group metadata is the handle the consumer returned\<close>
  "sendOffsetsToTransaction A tpos grp timeout =
     seqM (lib_call (rd_kafka_send_offsets_to_transaction A (createRkTopicPartitionList tpos) grp (to_int32 timeout)))
       (\<lambda>r. throw_if (Error_rich r))"

end
