(* ===== verification/Producer_Correctness.thy ===== *)
theory Producer_Correctness
  imports Kafka_Producer "HOL-Library.Multiset"
begin

text \<open>
  What the producer promises: the validation of its configuration, what a \<open>send\<close> hands to the library,
  the delivery reports, the wait of \<open>syncSend\<close>, closing, and the time-outs of the transactions.
\<close>

section \<open>The message of a \<open>send\<close>\<close>

definition record_vus :: "ProducerRecord \<Rightarrow> 32 word \<Rightarrow> DeliveryCbOpaque \<Rightarrow> rd_kafka_vu_t list" where
  \<comment> \<open>what the variadic interface is meant to get\<close>
  "record_vus rec flags opaque =
     [VTYPE_TOPIC (c_str (pr_topic rec)), VTYPE_PARTITION (pr_partition rec), VTYPE_MSGFLAGS (sint flags),
      VTYPE_KEY (pr_key rec), VTYPE_VALUE (pr_value rec), VTYPE_OPAQUE opaque] @
     map (\<lambda>h. VTYPE_HEADER (c_str (header_key h)) (header_value h)) (pr_headers rec)"

definition filled :: "rd_kafka_vu_t list \<Rightarrow> nat \<Rightarrow> nat \<times> rd_kafka_vu_t list" where
  \<comment> \<open>\<open>xs\<close> written, room for \<open>n\<close> more\<close>
  "filled xs n = (length xs, xs @ replicate n VTYPE_END)"

lemma put_vu_filled: "put_vu (filled xs (Suc n)) vu = filled (xs @ [vu]) n"
  by (simp add: put_vu_def filled_def list_update_append)

lemma put_headers_filled:
  "foldl (\<lambda>vus h. put_vu vus (f h)) (filled xs (length hs)) hs = filled (xs @ map f hs) 0"
  by (induction hs arbitrary: xs) (simp_all add: put_vu_filled)

lemma build_vus_eq: "build_vus rec flags opaque = (6 + length (pr_headers rec), record_vus rec flags opaque)"
proof -
  have start: "(0, replicate (6 + length (pr_headers rec)) VTYPE_END) =
      filled [] (Suc (Suc (Suc (Suc (Suc (Suc (length (pr_headers rec))))))))"
    by (simp add: filled_def eval_nat_numeral)
  show ?thesis
    unfolding build_vus_def Let_def start put_vu_filled
    by (simp add: put_headers_filled) (simp add: filled_def record_vus_def)
qed

abbreviation opaque_of :: "ProducerRecord \<Rightarrow> delivery_cb \<Rightarrow> DeliveryCbOpaque" where
  "opaque_of rec cb \<equiv> \<lparr>opaque_recordId = pr_id rec, opaque_deliveryCb = cb\<rparr>"

abbreviation sent_vus ::
  "('w, 'n) producer_api_scheme \<Rightarrow> ('w, 'm) producer_scheme \<Rightarrow> ProducerRecord \<Rightarrow> delivery_cb \<Rightarrow> SendOption \<Rightarrow>
     ActionWhileQueueIsFull \<Rightarrow> rd_kafka_vu_t list" where
  "sent_vus A s rec cb option action \<equiv>
     record_vus rec (message_flags A (isWithAutoEventsPolling s) option action) (opaque_of rec cb)"

lemma length_record_vus [simp]: "length (record_vus rec flags opaque) = 6 + length (pr_headers rec)"
  by (simp add: record_vus_def)

lemma send_eq:
  "send A rec cb option action s =
     (let (r, w) = rd_kafka_produceva A (sent_vus A s rec cb option action) (world s)
      in (if error_set (Error_rich r) then Inl (throw_error (Error_rich r)) else Inr (), s\<lparr>world := w\<rparr>))"
  by (simp add: send_def build_vus_eq Let_def case_prod_unfold)

text \<open>C15. What a send hands over: one call of the library with exactly the topic, the partition, the
  flags, the key, the value, the opaque object and the headers of the record, in this order and with
  no element unset (the count of the assertion is met); the record is copied only on demand and the
  call blocks on a full queue only with automatic polling; the error of the call is thrown, or put
  into the reference parameter by the other overload; nothing else of the producer changes.\<close>

theorem send_hands_over_record:
  "let fl = message_flags A (isWithAutoEventsPolling s) option action;
       (r, w) = rd_kafka_produceva A
         ([VTYPE_TOPIC (c_str (pr_topic rec)), VTYPE_PARTITION (pr_partition rec), VTYPE_MSGFLAGS (sint fl),
           VTYPE_KEY (pr_key rec), VTYPE_VALUE (pr_value rec), VTYPE_OPAQUE (opaque_of rec cb)] @
          map (\<lambda>h. VTYPE_HEADER (c_str (header_key h)) (header_value h)) (pr_headers rec)) (world s)
   in send A rec cb option action s =
        (if error_set (Error_rich r) then Inl (throw_error (Error_rich r)) else Inr (), s\<lparr>world := w\<rparr>) \<and>
      send_no_throw A rec cb err option action s =
        (Inr (if error_set (Error_rich r) then Error_copy (Error_copy (Error_rich r)) else err), s\<lparr>world := w\<rparr>) \<and>
      fl = (if option = ToCopyRecordValue then RD_KAFKA_MSG_F_COPY A else 0) OR
           (if action = Block \<and> \<not> enableManualEventsPoll s then RD_KAFKA_MSG_F_BLOCK A else 0)"
proof -
  have "fl = message_flags A (isWithAutoEventsPolling s) option action \<Longrightarrow>
      fl = (if option = ToCopyRecordValue then RD_KAFKA_MSG_F_COPY A else 0) OR
           (if action = Block \<and> \<not> enableManualEventsPoll s then RD_KAFKA_MSG_F_BLOCK A else 0)" for fl
    by (auto simp: message_flags_def isWithAutoEventsPolling_def)
  then show ?thesis
    by (auto simp: send_eq send_no_throw_def catchM_def seqM_split throw_error_def record_vus_def [symmetric]
        Let_def case_prod_unfold simp del: append.simps)
qed

section \<open>Delivery reports\<close>

definition callable :: "rd_kafka_message_t \<times> DeliveryCbOpaque option \<Rightarrow> bool" where
  \<comment> \<open>the report is not for an empty \<open>std::function\<close>\<close>
  "callable d \<longleftrightarrow> (case snd d of None \<Rightarrow> True | Some opaque \<Rightarrow> opaque_deliveryCb opaque \<noteq> User_callback None)"

definition report_events :: "rd_kafka_message_t \<times> DeliveryCbOpaque option \<Rightarrow> client_event list" where
  "report_events d = (case snd d of
       None \<Rightarrow> []
     | Some opaque \<Rightarrow> (case opaque_deliveryCb opaque of
           User_callback (Some h) \<Rightarrow>
             [DeliveryEvent h (RecordMetadata_of_msg (fst d) (opaque_recordId opaque)) (Error_code (rkm_err (fst d)))]
         | _ \<Rightarrow> []))"

definition metadata_copy :: "rdkafka_lib \<Rightarrow> rd_kafka_message_t \<Rightarrow> nat option \<Rightarrow> RecordMetadata" where
  \<comment> \<open>the copy that no longer refers to the message\<close>
  "metadata_copy L msg i = \<lparr>cachedInfo = Some \<lparr>ci_topic = cr_topic msg, ci_partition = rkm_partition msg,
       ci_offset = rkm_offset msg, ci_keySize = buffer_size (rkm_key msg), ci_valueSize = buffer_size (rkm_payload msg),
       ci_timestamp = cr_timestamp msg, ci_persistedStatus = getMsgPersistedStatus msg\<rparr>,
     rkmsg = None, recordId = i\<rparr>"

definition report_result ::
  "rdkafka_lib \<Rightarrow> rd_kafka_message_t \<times> DeliveryCbOpaque option \<Rightarrow> (Error \<times> RecordMetadata) option" where
  "report_result L d = (case snd d of
       None \<Rightarrow> None
     | Some opaque \<Rightarrow> (case opaque_deliveryCb opaque of
           Sync_callback \<Rightarrow> Some (Error_code (rkm_err (fst d)), metadata_copy L (fst d) (opaque_recordId opaque))
         | _ \<Rightarrow> None))"

definition deliver :: "rdkafka_lib \<Rightarrow> deliveries \<Rightarrow> ('w, 'm) producer_scheme \<Rightarrow> ('w, 'm) producer_scheme" where
  "deliver L ds s = s\<lparr>events := events s @ concat (map report_events ds),
     syncResult := fold (\<lambda>d r. case report_result L d of None \<Rightarrow> r | Some x \<Rightarrow> Some x) ds (syncResult s)\<rparr>"

lemma rm_assign_of_msg: "rm_assign L (RecordMetadata_of_msg msg i) = Inr (metadata_copy L msg i)"
  by (simp add: rm_assign_def rm_accessors RecordMetadata_of_msg_def metadata_copy_def)

lemma deliver_Nil [simp]: "deliver L [] s = s"
  by (simp add: deliver_def)

lemma deliver_append: "deliver L (ds @ es) s = deliver L es (deliver L ds s)"
  by (simp add: deliver_def)

lemma deliver_Cons: "deliver L (d # ds) s = deliver L ds (deliver L [d] s)"
  using deliver_append [of L "[d]" ds s] by simp

lemma deliveryCallback_eq:
  "deliveryCallback L d s =
     (if callable d then (Inr (), deliver L [d] s)
      else (Inl (StdException (Runtime_error ''bad_function_call'')), s))"
proof (cases "snd d")
  case (Some opaque)
  then show ?thesis
    by (cases opaque; cases "opaque_deliveryCb opaque"; cases "syncResult s")
       (auto simp: deliveryCallback_def run_delivery_cb_def callable_def deliver_def report_events_def report_result_def
         emit_def rm_assign_of_msg lift_std_def Let_def split: option.split)
qed (simp add: deliveryCallback_def callable_def deliver_def report_events_def report_result_def)

lemma deliver_all_eq:
  "deliver_all L ds s =
     (if \<forall>d\<in>set ds. callable d then Inr () else Inl (StdException (Runtime_error ''bad_function_call'')),
      deliver L (takeWhile callable ds) s)"
  by (induction ds arbitrary: s) (simp_all add: seqM_split deliveryCallback_eq deliver_Cons [of L _ "takeWhile callable _"])

lemma deliver_all_callable: "\<forall>d\<in>set ds. callable d \<Longrightarrow> deliver_all L ds s = (Inr (), deliver L ds s)"
  by (simp add: deliver_all_eq takeWhile_eq_all_conv [THEN iffD2])

lemma deliver_frame [simp]:
  "world (deliver L ds s) = world s" "opened (deliver L ds s) = opened s" "pollThread (deliver L ds s) = pollThread s"
  "pollable (deliver L ds s) = pollable s" "enableManualEventsPoll (deliver L ds s) = enableManualEventsPoll s"
  by (simp_all add: deliver_def)

lemma deliver_world: "(deliver L ds s)\<lparr>world := w\<rparr> = deliver L ds (s\<lparr>world := w\<rparr>)"
  by (simp add: deliver_def)

text \<open>C21. Delivery reports: one poll serves the library's reports in their order; every one with a
  callback calls it exactly once, with the report's own message, the id of its record and the error of
  the message, and a report without an opaque object calls nothing. The only exception is the call of an
  empty function, which a \<open>send\<close> does not refuse: it ends the poll there and the reports behind it are
  not served.\<close>

theorem delivery_reports_in_order:
  "let (ds, w) = producer_rd_kafka_poll A ms (world s);
       served = takeWhile callable ds
   in producer_pollCallbacks A ms s =
     (if served = ds then Inr () else Inl (StdException (Runtime_error ''bad_function_call'')),
      s\<lparr>world := w, events := events s @ concat (map report_events served),
        syncResult := fold (\<lambda>d r. case report_result (the_lib A) d of None \<Rightarrow> r | Some x \<Rightarrow> Some x) served (syncResult s)\<rparr>)"
  by (auto simp: producer_pollCallbacks_def seqM_split deliver_all_eq deliver_def Let_def case_prod_unfold
      takeWhile_eq_all_conv)

section \<open>Waiting for the report\<close>

fun polled :: "('w, 'n) producer_api_scheme \<Rightarrow> nat \<Rightarrow> 'w \<Rightarrow> deliveries \<times> 'w" where
  \<comment> \<open>the reports of the first polls of the background thread\<close>
  "polled A 0 w = ([], w)"
| "polled A (Suc k) w =
     (let (ds, w1) = producer_rd_kafka_poll A CALLBACK_POLLING_INTERVAL_MS w; (es, w2) = polled A k w1 in (ds @ es, w2))"

definition foreign :: "rdkafka_lib \<Rightarrow> rd_kafka_message_t \<times> DeliveryCbOpaque option \<Rightarrow> bool" where
  \<comment> \<open>a report of another \<open>send\<close>, with a callback that can be called\<close>
  "foreign L d \<longleftrightarrow> callable d \<and> report_result L d = None"

lemma deliver_foreign_result:
  "\<forall>d\<in>set ds. foreign L d \<Longrightarrow> syncResult (deliver L ds s) = syncResult s"
  by (induction ds arbitrary: s) (simp_all add: deliver_def foreign_def)

lemma delivery_body_polls:
  assumes "syncResult s = None" "pollThread s" "producer_rd_kafka_poll A CALLBACK_POLLING_INTERVAL_MS (world s) = (ds, w)"
    and "\<forall>d\<in>set ds. callable d"
  shows "delivery_body A s = (Inr None, deliver (the_lib A) ds (s\<lparr>world := w\<rparr>))"
  using assms by (simp add: delivery_body_def producer_pollCallbacks_def seqM_split deliver_all_callable)

lemma await_skips_foreign:
  assumes "syncResult s = None" "pollThread s" "polled A k (world s) = (ds, w)" "\<forall>d\<in>set ds. foreign (the_lib A) d"
  shows "await_delivery A (k + n) s = await_delivery A n (deliver (the_lib A) ds (s\<lparr>world := w\<rparr>))"
  using assms
proof (induction k arbitrary: s ds)
  case (Suc k)
  obtain ds1 wa es where p: "producer_rd_kafka_poll A CALLBACK_POLLING_INTERVAL_MS (world s) = (ds1, wa)"
    "polled A k wa = (es, w)" "ds = ds1 @ es"
    using Suc.prems(3) by (auto simp: Let_def split: prod.splits)
  let ?s = "deliver (the_lib A) ds1 (s\<lparr>world := wa\<rparr>)"
  have body: "delivery_body A s = (Inr None, ?s)"
    by (rule delivery_body_polls) (use Suc.prems p in \<open>auto simp: foreign_def\<close>)
  have "syncResult ?s = None" using Suc.prems(1,4) p(3) by (simp add: deliver_foreign_result)
  then have "await_delivery A (k + n) ?s = await_delivery A n (deliver (the_lib A) es (?s\<lparr>world := w\<rparr>))"
    using Suc.IH [of ?s es] Suc.prems(2,4) p by simp
  then show ?case
    using delivery.loop_apply [of A "k + n" s] by (simp add: body p(3) deliver_append deliver_world del: await_delivery.simps)
qed auto

lemma await_without_thread:
  "syncResult s = None \<Longrightarrow> \<not> pollThread s \<Longrightarrow> await_delivery A n s = (Inl Out_of_fuel, s)"
  by (induction n) (simp_all add: seqM_split)

lemma syncSend_sent:
  assumes "rd_kafka_produceva A (sent_vus A s rec Sync_callback NoCopyRecordValue Block) (world s) = (r, w)"
    and "\<not> error_set (Error_rich r)"
  shows "syncSend A n rec s =
    (case await_delivery A n (s\<lparr>syncResult := None, world := w\<rparr>) of
       (Inl e, s') \<Rightarrow> (Inl e, s')
     | (Inr (err, m), s') \<Rightarrow> (if error_set err then Inl (throw_error err) else Inr m, s'))"
  using assms by (auto simp: syncSend_def seqM_split send_eq isWithAutoEventsPolling_def split: prod.splits sum.splits)

text \<open>C7. Synchronous sending: once the library has taken the record, \<open>syncSend\<close> waits through any number
  of polls that report other records and, as soon as a poll reports this one, returns with enough
  fuel: a failed delivery is thrown with the code of the report, a successful one returns a copy of its
  metadata, which survives the message, with the id of the record; the other reports served
  meanwhile have called their callbacks, in order.\<close>

theorem sync_send_returns:
  assumes "pollThread s"
    and "rd_kafka_produceva A (sent_vus A s rec Sync_callback NoCopyRecordValue Block) (world s) = (r, wa)"
    and "\<not> error_set (Error_rich r)"
    and "polled A k wa = (early, wb)"
    and "producer_rd_kafka_poll A CALLBACK_POLLING_INTERVAL_MS wb =
      (ahead @ (msg, Some (opaque_of rec Sync_callback)) # behind, wc)"
    and "\<forall>d \<in> set (early @ ahead @ behind). foreign (the_lib A) d"
    and "k + 2 \<le> n"
  shows "fst (syncSend A n rec s) =
      (if rkm_err msg = RD_KAFKA_RESP_ERR_NO_ERROR then Inr (metadata_copy (the_lib A) msg (pr_id rec))
       else Inl (KafkaException (Error_code (rkm_err msg)))) \<and>
    world (snd (syncSend A n rec s)) = wc \<and>
    events (snd (syncSend A n rec s)) = events s @ concat (map report_events (early @ ahead @ behind))"
proof -
  let ?L = "the_lib A" and ?d = "(msg, Some (opaque_of rec Sync_callback))"
  let ?res = "(Error_code (rkm_err msg), metadata_copy ?L msg (pr_id rec))"
  let ?s1 = "deliver ?L early (s\<lparr>syncResult := None, world := wb\<rparr>)"
  let ?s2 = "deliver ?L (ahead @ ?d # behind) (?s1\<lparr>world := wc\<rparr>)"
  obtain j where n: "n = k + Suc (Suc j)" using assms(7) by (auto simp: le_iff_add)
  have early: "syncResult ?s1 = None" using assms(6) by (simp add: deliver_foreign_result)
  have round1: "delivery_body A ?s1 = (Inr None, ?s2)"
    by (rule delivery_body_polls)
      (use assms(1,5,6) early in \<open>auto simp: foreign_def callable_def\<close>)
  have result: "report_result ?L ?d = Some ?res" "report_events ?d = []"
    by (simp_all add: report_result_def report_events_def)
  then have "syncResult ?s2 = Some ?res"
    using assms(6) by (simp add: deliver_append deliver_Cons [of _ ?d behind] deliver_foreign_result) (simp add: deliver_def)
  then have round2: "delivery_body A ?s2 = (Inr (Some ?res), ?s2)"
    by (simp add: delivery_body_def)
  have "await_delivery A n (s\<lparr>syncResult := None, world := wa\<rparr>) = await_delivery A (Suc (Suc j)) ?s1"
    using await_skips_foreign [of "s\<lparr>syncResult := None, world := wa\<rparr>" A k early wb "Suc (Suc j)"] assms(1,4,6) n
    by (simp del: await_delivery.simps)
  also have "\<dots> = await_delivery A (Suc j) ?s2"
    by (simp only: delivery.loop_apply [of A "Suc j" ?s1] round1) simp
  also have "\<dots> = (Inr ?res, ?s2)"
    by (simp only: delivery.loop_apply [of A j ?s2] round2) simp
  finally have "await_delivery A n (s\<lparr>syncResult := None, world := wa\<rparr>) = (Inr ?res, ?s2)" .
  moreover have "events ?s2 = events s @ concat (map report_events (early @ ahead @ behind))"
    by (simp add: deliver_def result(2))
  ultimately show ?thesis
    by (simp add: syncSend_sent [OF assms(2,3)] throw_error_def)
qed

section \<open>A library for the witnesses\<close>

text \<open>
  A library that keeps the messages produced, reports them from the second poll on, and whose flush
  times out until the messages are purged.
\<close>

definition sample_message :: rd_kafka_message_t where
  "sample_message = \<lparr>rkm_topic_name = Some ''t'', rkm_partition = 3, rkm_offset = 42, rkm_key = None,
     rkm_payload = Some ''v'', rkm_err = RD_KAFKA_RESP_ERR_NO_ERROR, rkm_timestamp = (0, RD_KAFKA_TIMESTAMP_CREATE_TIME),
     rkm_headers = Inr [], rkm_last_header = (\<lambda>_. Inl RD_KAFKA_RESP_ERR__FAIL),
     rkm_status = RD_KAFKA_MSG_STATUS_PERSISTED\<rparr>"

definition vus_opaque :: "rd_kafka_vu_t list \<Rightarrow> DeliveryCbOpaque option" where
  "vus_opaque vus = (case [x. VTYPE_OPAQUE x \<leftarrow> vus] of x # _ \<Rightarrow> Some x | [] \<Rightarrow> None)"

definition slow_api :: "(deliveries \<times> bool) producer_api" where
  "slow_api = client_api.extend quiet_api \<lparr>
     RD_KAFKA_MSG_F_COPY = 2, RD_KAFKA_MSG_F_BLOCK = 4, RD_KAFKA_PURGE_F_QUEUE = 1, RD_KAFKA_PURGE_F_INFLIGHT = 2,
     rd_kafka_produceva = (\<lambda>vus (ds, ready). (None, (ds @ [(sample_message, vus_opaque vus)], ready))),
     producer_rd_kafka_poll = (\<lambda>ms (ds, ready). if ready then (ds, ([], True)) else ([], (ds, True))),
     rd_kafka_flush = (\<lambda>ms w. (([], if fst w = [] then RD_KAFKA_RESP_ERR_NO_ERROR else RD_KAFKA_RESP_ERR__TIMED_OUT), w)),
     rd_kafka_purge = (\<lambda>fl (ds, ready). (RD_KAFKA_RESP_ERR_NO_ERROR, (ds, True))),
     rd_kafka_init_transactions = (\<lambda>ms w. (None, w)),
     rd_kafka_begin_transaction = (\<lambda>w. (None, w)),
     rd_kafka_commit_transaction = (\<lambda>ms w. (None, w)),
     rd_kafka_abort_transaction = (\<lambda>ms w. (None, w)),
     rd_kafka_send_offsets_to_transaction = (\<lambda>l g ms w. (None, w))\<rparr>"

lemmas slow_defs = slow_api_def quiet_api_def client_api.defs

abbreviation running :: "'w \<Rightarrow> 'w producer" where
  "running w \<equiv> (producer_default w)\<lparr>pollThread := True\<rparr>"

abbreviation sample_record :: ProducerRecord where
  "sample_record \<equiv> ProducerRecord_with_id ''t'' 3 None (Some ''v'') 7"

abbreviation sample_report :: "rd_kafka_message_t \<times> DeliveryCbOpaque option" where
  "sample_report \<equiv> (sample_message, Some (opaque_of sample_record Sync_callback))"

lemma slow_api_simps [simp]:
  "the_lib slow_api = rdkafka_h"
  "rd_kafka_produceva slow_api vus w = (None, (fst w @ [(sample_message, vus_opaque vus)], snd w))"
  "producer_rd_kafka_poll slow_api ms w = (if snd w then (fst w, ([], True)) else ([], (fst w, True)))"
  "rd_kafka_flush slow_api ms w = (([], if fst w = [] then RD_KAFKA_RESP_ERR_NO_ERROR else RD_KAFKA_RESP_ERR__TIMED_OUT), w)"
  "rd_kafka_purge slow_api fl w = (RD_KAFKA_RESP_ERR_NO_ERROR, (fst w, True))"
  by (simp_all add: slow_defs case_prod_unfold)

lemma vus_opaque_record [simp]: "vus_opaque (record_vus rec flags opaque) = Some opaque"
  by (simp add: vus_opaque_def record_vus_def)

lemma producer_default_simps [simp]:
  "world (producer_default w) = w" "pollThread (producer_default w) = False" "events (producer_default w) = []"
  "syncResult (producer_default w) = None"
  by (simp_all add: producer_default_def client.defs client_default_def)

lemma sample_message_err [simp]: "rkm_err sample_message = RD_KAFKA_RESP_ERR_NO_ERROR"
  by (simp add: sample_message_def)

theorem sync_send_returns_witness:
  "fst (syncSend slow_api 3 sample_record (running ([], False))) =
     Inr (metadata_copy rdkafka_h sample_message (Some 7))"
  using sync_send_returns [of "running ([], False)" slow_api sample_record None "([sample_report], False)"
      1 "[]" "([sample_report], True)" "[]" sample_message "[]" "([], True)" 3]
  by (simp add: ProducerRecord_with_id_def)

text \<open>Without the background thread nobody reports the record while \<open>syncSend\<close> waits: with manual polling
  of the events it never returns, whatever the fuel, unless the library refuses the record.\<close>

lemma sync_send_waits_for_polling:
  assumes "\<not> pollThread s"
    and "rd_kafka_produceva A (sent_vus A s rec Sync_callback NoCopyRecordValue Block) (world s) = (r, w)"
  shows "fst (syncSend A n rec s) =
    (if error_set (Error_rich r) then Inl (throw_error (Error_rich r)) else Inl Out_of_fuel)"
proof (cases "error_set (Error_rich r)")
  case True
  then show ?thesis
    using assms(2) by (simp add: syncSend_def seqM_split send_eq isWithAutoEventsPolling_def)
next
  case False
  then show ?thesis
    using assms(1) by (simp add: syncSend_sent [OF assms(2)] await_without_thread)
qed

section \<open>Closing\<close>

abbreviation purge_flags :: "('w, 'n) producer_api_scheme \<Rightarrow> int" where
  "purge_flags A \<equiv> sint (RD_KAFKA_PURGE_F_QUEUE A OR RD_KAFKA_PURGE_F_INFLIGHT A)"

text \<open>
  The contract of the library on which closing relies, over the messages that still owe a report:
  \<open>rd_kafka_flush\<close> reports some of them, and all unless it times out; \<open>rd_kafka_purge\<close> of the queued and the
  in-flight messages drops none (it only changes their result); the poll after it reports all of them, and
  a poll with nothing outstanding reports nothing.
\<close>

definition reports_outstanding :: "('w, 'n) producer_api_scheme \<Rightarrow> ('w \<Rightarrow> deliveries) \<Rightarrow> bool" where
  "reports_outstanding A owed \<longleftrightarrow>
     (\<forall>t w. case rd_kafka_flush A t w of ((ds, err), w1) \<Rightarrow>
        mset (map snd (owed w)) = mset (map snd ds) + mset (map snd (owed w1)) \<and>
        (err \<noteq> RD_KAFKA_RESP_ERR__TIMED_OUT \<longrightarrow> owed w1 = [])) \<and>
     (\<forall>w. case rd_kafka_purge A (purge_flags A) w of (err, w1) \<Rightarrow>
        mset (map snd (owed w)) = mset (map snd (owed w1)) \<and>
        mset (map snd (fst (producer_rd_kafka_poll A 0 w1))) = mset (map snd (owed w1))) \<and>
     (\<forall>w. owed w = [] \<longrightarrow> fst (producer_rd_kafka_poll A 0 w) = [])"

lemma callable_of_snd:
  assumes "\<forall>d\<in>set ds. callable d" "set (map snd es) \<subseteq> set (map snd ds)"
  shows "\<forall>e\<in>set es. callable e"
proof
  fix e assume "e \<in> set es"
  then have "snd e \<in> set (map snd ds)" using assms(2) by auto
  then obtain d where "d \<in> set ds" "snd d = snd e" by auto
  with assms(1) show "callable e" by (metis callable_def)
qed

lemma close_producer_eq:
  "close_producer A timeout s =
     (let ((ds, err), wa) = rd_kafka_flush A (convertMsDurationToInt timeout) (world s);
          wb = (if err = RD_KAFKA_RESP_ERR__TIMED_OUT then snd (rd_kafka_purge A (purge_flags A) wa) else wa)
      in seqM (deliver_all (the_lib A) ds) (\<lambda>_. seqM (modM (\<lambda>s. s\<lparr>world := wb\<rparr>)) (\<lambda>_. producer_pollCallbacks A 0))
           (s\<lparr>opened := False, pollThread := False, pollable := False, world := wa\<rparr>))"
  by (auto simp: close_producer_def stopBackgroundPollingIfNecessary_def flush_def purge_def seqM_split Let_def
      deliver_all_eq deliver_world case_prod_unfold)

lemma flush_reports:
  assumes "reports_outstanding A owed" "rd_kafka_flush A t w = ((ds, err), wa)"
  shows "mset (map snd (owed w)) = mset (map snd ds) + mset (map snd (owed wa))"
    and "err \<noteq> RD_KAFKA_RESP_ERR__TIMED_OUT \<Longrightarrow> owed wa = []"
proof -
  have "case rd_kafka_flush A t w of ((ds, err), w1) \<Rightarrow>
        mset (map snd (owed w)) = mset (map snd ds) + mset (map snd (owed w1)) \<and>
        (err \<noteq> RD_KAFKA_RESP_ERR__TIMED_OUT \<longrightarrow> owed w1 = [])"
    using assms(1) unfolding reports_outstanding_def by (elim conjE) (drule spec, drule spec)
  then show "mset (map snd (owed w)) = mset (map snd ds) + mset (map snd (owed wa))"
    "err \<noteq> RD_KAFKA_RESP_ERR__TIMED_OUT \<Longrightarrow> owed wa = []"
    by (simp_all add: assms(2) del: mset_map)
qed

lemma purge_then_poll_reports:
  assumes "reports_outstanding A owed"
  shows "mset (map snd (fst (producer_rd_kafka_poll A 0 (snd (rd_kafka_purge A (purge_flags A) w))))) = mset (map snd (owed w))"
proof -
  have "case rd_kafka_purge A (purge_flags A) w of (err, w1) \<Rightarrow>
        mset (map snd (owed w)) = mset (map snd (owed w1)) \<and>
        mset (map snd (fst (producer_rd_kafka_poll A 0 w1))) = mset (map snd (owed w1))"
    using assms unfolding reports_outstanding_def by (elim conjE) (drule spec)
  then show ?thesis by (simp add: case_prod_unfold del: mset_map)
qed

lemma empty_poll_reports:
  "reports_outstanding A owed \<Longrightarrow> owed w = [] \<Longrightarrow> fst (producer_rd_kafka_poll A 0 w) = []"
  by (simp add: reports_outstanding_def)

lemma close_reports:
  assumes "reports_outstanding A owed"
    and "\<forall>d \<in> set (owed (world s)). callable d"
  shows "\<exists>ds s'. close_producer A timeout s = (Inr (), s') \<and> \<not> opened s' \<and> \<not> pollThread s' \<and> \<not> pollable s' \<and>
    mset (map snd ds) = mset (map snd (owed (world s))) \<and>
    events s' = events s @ concat (map report_events ds)"
proof -
  obtain ds err wa where f: "rd_kafka_flush A (convertMsDurationToInt timeout) (world s) = ((ds, err), wa)"
    by (metis prod.exhaust)
  define wb where "wb = (if err = RD_KAFKA_RESP_ERR__TIMED_OUT then snd (rd_kafka_purge A (purge_flags A) wa) else wa)"
  obtain es wc where p: "producer_rd_kafka_poll A 0 wb = (es, wc)" by (metis prod.exhaust)
  let ?s0 = "s\<lparr>opened := False, pollThread := False, pollable := False, world := wa\<rparr>"
  let ?s' = "deliver (the_lib A) es (deliver (the_lib A) ds ?s0\<lparr>world := wc\<rparr>)"
  note flushed = flush_reports [OF assms(1) f]
  have "mset (map snd es) = mset (map snd (owed wa))"
    using purge_then_poll_reports [OF assms(1), of wa] empty_poll_reports [OF assms(1) flushed(2)] p flushed(2)
    by (cases "err = RD_KAFKA_RESP_ERR__TIMED_OUT") (auto simp: wb_def simp del: mset_map)
  with flushed(1) have all: "mset (map snd (ds @ es)) = mset (map snd (owed (world s)))" by simp
  then have "\<forall>d\<in>set (ds @ es). callable d"
    by (intro callable_of_snd [OF assms(2)]) (metis order_refl set_mset_mset)
  then have "close_producer A timeout s = (Inr (), ?s')"
    using p by (simp add: close_producer_eq f wb_def [symmetric] seqM_split deliver_all_callable producer_pollCallbacks_def)
  then show ?thesis
    using all by (intro exI [of _ "ds @ es"] exI [of _ ?s']) (simp add: deliver_def)
qed

text \<open>C3. Closing: when the library reports outstanding messages as documented, \<open>close\<close> returns with the
  producer closed and without its background thread, and every message that was outstanding has had its
  callback called exactly once, whether the flush finished or timed out and the rest was purged.\<close>

theorem close_reports_outstanding:
  assumes "reports_outstanding A owed"
    and "\<forall>d \<in> set (owed (world s)). callable d"
  shows "\<exists>ds s'. close_producer A timeout s = (Inr (), s') \<and> \<not> opened s' \<and> \<not> pollThread s' \<and> \<not> pollable s' \<and>
    mset (map snd ds) = mset (map snd (owed (world s))) \<and>
    events s' = events s @ concat (map report_events ds)"
  using close_reports [OF assms] .

theorem close_reports_outstanding_witness:
  "\<exists>ds s'. close_producer slow_api 100 (running ([sample_report], False)) = (Inr (), s') \<and> \<not> opened s' \<and>
    map snd ds = [snd sample_report] \<and> events s' = concat (map report_events ds)"
proof -
  have "reports_outstanding slow_api fst" by (simp add: reports_outstanding_def)
  then show ?thesis
    using close_reports_outstanding [of slow_api fst "running ([sample_report], False)" 100]
    by (simp add: callable_def del: mset_map) metis
qed

section \<open>Configuration\<close>

definition in_flight_ok :: "Properties \<Rightarrow> bool" where
  "in_flight_ok p \<longleftrightarrow> (case prop_string MAX_IN_FLIGHT p of
       None \<Rightarrow> True | Some v \<Rightarrow> (case stoi v of Inl _ \<Rightarrow> False | Inr n \<Rightarrow> n \<le> 5))"

definition producer_config_ok :: "Properties \<Rightarrow> bool" where
  "producer_config_ok p \<longleftrightarrow> prop_string BOOTSTRAP_SERVERS p \<noteq> None \<and>
     prop_string PARTITIONER p \<in> insert None (Some ` {''murmur2_random'', ''murmur2'', ''random'', ''consistent'',
       ''consistent_random'', ''fnv1a'', ''fnv1a_random''}) \<and>
     (prop_string ENABLE_IDEMPOTENCE p = Some ''true'' \<longrightarrow>
       in_flight_ok p \<and> prop_string ACKS p \<in> {None, Some ''all'', Some ''-1''})"

lemma producer_keys [simp]:
  "k \<in> {PARTITIONER, ENABLE_IDEMPOTENCE, MAX_IN_FLIGHT, ACKS} \<Longrightarrow> k \<noteq> CLIENT_ID \<and> k \<noteq> LOG_LEVEL"
  by (auto simp: config_keys)

lemma reformed_producer_keys [simp]:
  "prop_string PARTITIONER (reformed r p) = prop_string PARTITIONER p"
  "prop_string ENABLE_IDEMPOTENCE (reformed r p) = prop_string ENABLE_IDEMPOTENCE p"
  "prop_string MAX_IN_FLIGHT (reformed r p) = prop_string MAX_IN_FLIGHT p"
  "prop_string ACKS (reformed r p) = prop_string ACKS p"
  by (simp_all add: prop_string_reformed)

lemma check_partitioner_eq:
  "check_partitioner p = Inr () \<longleftrightarrow> prop_string PARTITIONER p \<in> insert None (Some ` set availPartitioners)"
  "check_partitioner p = Inl e \<Longrightarrow> is_kafka_exception e"
  by (auto simp: check_partitioner_def getProperty_eq split: option.splits if_splits)

lemma check_in_flight_eq:
  "check_in_flight p = Inr () \<longleftrightarrow> in_flight_ok p"
  "check_in_flight p = Inl e \<Longrightarrow> is_kafka_exception e \<or>
     (\<exists>x v. e = StdException x \<and> prop_string MAX_IN_FLIGHT p = Some v \<and> stoi v = Inl x)"
  by (auto simp: check_in_flight_def in_flight_ok_def KAFKA_IDEMP_MAX_INFLIGHT_def getProperty_eq
      split: option.splits if_splits sum.splits)

lemma check_acks_eq:
  "check_acks p = Inr () \<longleftrightarrow> prop_string ACKS p \<in> {None, Some ''all'', Some ''-1''}"
  "check_acks p = Inl e \<Longrightarrow> is_kafka_exception e"
  by (auto simp: check_acks_def getProperty_eq split: option.splits if_splits)

lemma producer_validate_cases:
  "(producer_validate random p = Inr q \<longleftrightarrow> producer_config_ok p \<and> q = reformed random p) \<and>
   (producer_validate random p = Inl e \<longrightarrow> is_kafka_exception e \<or>
      (\<exists>x v. e = StdException x \<and> prop_string ENABLE_IDEMPOTENCE p = Some ''true'' \<and>
        prop_string MAX_IN_FLIGHT p = Some v \<and> stoi v = Inl x))"
proof -
  let ?q = "reformed random p"
  have parts: "check_partitioner ?q = Inr () \<longleftrightarrow> prop_string PARTITIONER p \<in> insert None (Some ` {''murmur2_random'', ''murmur2'', ''random'', ''consistent'',
       ''consistent_random'', ''fnv1a'', ''fnv1a_random''})"
    unfolding check_partitioner_eq by (simp add: availPartitioners_def) blast
  have flight: "check_in_flight ?q = Inr () \<longleftrightarrow> in_flight_ok p"
    unfolding check_in_flight_eq by (simp add: in_flight_ok_def)
  have acks: "check_acks ?q = Inr () \<longleftrightarrow> prop_string ACKS p \<in> {None, Some ''all'', Some ''-1''}"
    unfolding check_acks_eq by simp
  have ok: "producer_validate random p = Inr q \<longleftrightarrow> producer_config_ok p \<and> q = reformed random p"
    unfolding producer_config_ok_def parts [symmetric] flight [symmetric] acks [symmetric]
    by (auto simp: producer_validate_def validate_eq getProperty_eq split: sum.splits)
  have "producer_validate random p = Inl e \<Longrightarrow> is_kafka_exception e \<or>
      (\<exists>x v. e = StdException x \<and> prop_string ENABLE_IDEMPOTENCE p = Some ''true'' \<and>
        prop_string MAX_IN_FLIGHT p = Some v \<and> stoi v = Inl x)"
    using check_partitioner_eq(2) [of ?q e] check_in_flight_eq(2) [of ?q e] check_acks_eq(2) [of ?q e]
    by (auto simp: producer_validate_def validate_eq getProperty_eq split: sum.splits if_splits)
  with ok show ?thesis by blast
qed

text \<open>C25. Validation of a producer's configuration: it succeeds exactly when there is a string for the
  bootstrap servers, the partitioner, if given, is one of the seven, and, with idempotence switched on, a given
  limit of requests in flight is a number of at most 5 and given acks are \<open>all\<close> or \<open>-1\<close>; the result only
  adds a client id and a log level. What it throws is a \<open>KafkaException\<close>, but for a limit in flight that is no
  number, whose exception of \<open>std::stoi\<close> escapes.\<close>

theorem producer_validation:
  "(producer_validate random p = Inr q \<longleftrightarrow> producer_config_ok p \<and> q = reformed random p) \<and>
   (producer_validate random p = Inl e \<longrightarrow> is_kafka_exception e \<or>
      (\<exists>x v. e = StdException x \<and> prop_string ENABLE_IDEMPOTENCE p = Some ''true'' \<and>
        prop_string MAX_IN_FLIGHT p = Some v \<and> stoi v = Inl x))"
  by (rule producer_validate_cases)

theorem producer_validation_witness:
  "producer_validate ''id'' sample_properties = Inr (reformed ''id'' sample_properties)"
  using producer_validation [of "''id''" sample_properties "reformed ''id'' sample_properties"]
  by (simp add: producer_config_ok_def config_keys)

section \<open>Transactions\<close>

definition thrown_by :: "rk_error option \<Rightarrow> exn + unit" where
  "thrown_by r = (case r of
       None \<Rightarrow> Inr ()
     | Some x \<Rightarrow> if rd_kafka_error_code x = RD_KAFKA_RESP_ERR_NO_ERROR then Inr ()
         else Inl (KafkaException (Error_copy (Error_rich (Some x)))))"

lemma throw_if_rich: "throw_if (Error_rich r) s = (thrown_by r, s)"
  by (simp add: thrown_by_def error_set_def throw_error_def split: option.split)

lemma copy_of_rich [simp]:
  "error_value (Error_copy e) = error_value e" "error_isFatal (Error_copy e) = error_isFatal e"
  "error_isRetriable (Error_copy e) = error_isRetriable e" "\<not> error_transactionRequiresAbort (Error_copy e)"
  "error_isFatal (Error_rich (Some x)) = rd_kafka_error_is_fatal x"
  "error_isRetriable (Error_rich (Some x)) = Some (rd_kafka_error_is_retriable x)"
  by (simp_all add: Error_copy_def error_defs split: option.split)

lemma to_int32_wraps: "to_int32 (t + 2 ^ 32) = to_int32 t"
proof -
  have "(t + 2 ^ 32 + 2 ^ 31) mod 2 ^ 32 = (t + 2 ^ 31 + 2 ^ 32) mod (2 ^ 32 :: int)" by (simp only: ac_simps)
  then show ?thesis unfolding to_int32_def by (simp only: mod_add_self2)
qed

lemma commitTransaction_eq:
  "commitTransaction A t s =
     (let (r, w) = rd_kafka_commit_transaction A (to_int32 t) (world s) in (thrown_by r, s\<lparr>world := w\<rparr>))"
  by (simp add: commitTransaction_def seqM_split throw_if_rich Let_def case_prod_unfold del: throw_if_apply)

lemma initTransactions_eq:
  "initTransactions A t s =
     (let (r, w) = rd_kafka_init_transactions A (to_int32 t) (world s) in (thrown_by r, s\<lparr>world := w\<rparr>))"
  by (simp add: initTransactions_def seqM_split throw_if_rich Let_def case_prod_unfold del: throw_if_apply)

lemma thrown_by_Inl:
  "thrown_by r = Inl e \<Longrightarrow> \<exists>x err. e = KafkaException err \<and> r = Some x \<and>
     error_value err = rd_kafka_error_code x \<and> error_isFatal err = rd_kafka_error_is_fatal x \<and>
     error_isRetriable err = Some (rd_kafka_error_is_retriable x) \<and> \<not> error_transactionRequiresAbort err"
  by (auto simp: thrown_by_def split: option.splits if_splits)

text \<open>Transactions: the time-outs are cast to 32 bits, so they agree with the checked conversion that
  every other call uses from 0 to \<open>INT_MAX\<close> milliseconds and for \<open>InfiniteTimeout\<close>, but wrap around above:
  \<open>2 ^ 32\<close> milliseconds more are the same call, and \<open>2 ^ 32\<close> itself is a time-out of 0 and not an infinite one. An
  error of the library is thrown with its code and its flags, except that the exception never asks for the
  transaction to be aborted, even where the error does.\<close>

lemma transaction_calls:
  "(\<forall>t. 0 \<le> t \<and> t \<le> INT_MAX \<or> t = InfiniteTimeout \<longrightarrow>
      commitTransaction A t s = (let (r, w) = rd_kafka_commit_transaction A (convertMsDurationToInt t) (world s)
        in (thrown_by r, s\<lparr>world := w\<rparr>))) \<and>
   initTransactions A (t + 2 ^ 32) = initTransactions A t \<and> commitTransaction A (t + 2 ^ 32) = commitTransaction A t \<and>
   abortTransaction A (t + 2 ^ 32) = abortTransaction A t \<and>
   sendOffsetsToTransaction A tpos g (t + 2 ^ 32) = sendOffsetsToTransaction A tpos g t \<and>
   initTransactions A (2 ^ 32) s = (let (r, w) = rd_kafka_init_transactions A 0 (world s) in (thrown_by r, s\<lparr>world := w\<rparr>)) \<and>
   convertMsDurationToInt (2 ^ 32) = TIMEOUT_INFINITE \<and>
   (fst (commitTransaction A t s) = Inl e \<longrightarrow> (\<exists>x err. e = KafkaException err \<and>
      fst (rd_kafka_commit_transaction A (to_int32 t) (world s)) = Some x \<and>
      error_value err = rd_kafka_error_code x \<and> error_isFatal err = rd_kafka_error_is_fatal x \<and>
      error_isRetriable err = Some (rd_kafka_error_is_retriable x) \<and> \<not> error_transactionRequiresAbort err))"
proof -
  have in_range: "0 \<le> t \<and> t \<le> INT_MAX \<or> t = InfiniteTimeout \<Longrightarrow> convertMsDurationToInt t = to_int32 t" for t
    by (auto simp: convertMsDurationToInt_def InfiniteTimeout_def INT64_MAX_def INT_MAX_def TIMEOUT_INFINITE_def to_int32_def)
  have zero: "to_int32 (2 ^ 32) = 0" by (simp add: to_int32_def)
  show ?thesis
  proof (intro conjI allI impI)
    fix t assume "0 \<le> t \<and> t \<le> INT_MAX \<or> t = InfiniteTimeout"
    then show "commitTransaction A t s = (let (r, w) = rd_kafka_commit_transaction A (convertMsDurationToInt t) (world s)
        in (thrown_by r, s\<lparr>world := w\<rparr>))"
      by (simp only: in_range commitTransaction_eq)
  next
    show "initTransactions A (2 ^ 32) s =
        (let (r, w) = rd_kafka_init_transactions A 0 (world s) in (thrown_by r, s\<lparr>world := w\<rparr>))"
      by (simp only: initTransactions_eq zero)
    show "convertMsDurationToInt (2 ^ 32) = TIMEOUT_INFINITE"
      by (simp add: convertMsDurationToInt_def INT_MAX_def)
  next
    assume "fst (commitTransaction A t s) = Inl e"
    then have "thrown_by (fst (rd_kafka_commit_transaction A (to_int32 t) (world s))) = Inl e"
      by (simp add: commitTransaction_eq Let_def case_prod_unfold)
    from thrown_by_Inl [OF this] show "\<exists>x err. e = KafkaException err \<and>
        fst (rd_kafka_commit_transaction A (to_int32 t) (world s)) = Some x \<and>
        error_value err = rd_kafka_error_code x \<and> error_isFatal err = rd_kafka_error_is_fatal x \<and>
        error_isRetriable err = Some (rd_kafka_error_is_retriable x) \<and> \<not> error_transactionRequiresAbort err" .
  qed (simp_all only: initTransactions_def commitTransaction_def abortTransaction_def sendOffsetsToTransaction_def to_int32_wraps)
qed

end
