(* ===== verification/Recoverable_Producer.thy ===== *)
theory Recoverable_Producer
  imports Producer_Correctness
begin

text \<open>
  \<open>addons/KafkaRecoverableProducer.h\<close>: a producer that a polling thread replaces after a fatal error. The
  calls of the user and the polling thread interleave at the operations on the mutex: what runs under the
  lock, or between two looks of the thread at the shared state, is one step; a \<open>syncSend\<close> that waits for its
  report keeps the lock.
\<close>

section \<open>State\<close>

text \<open>
  Where the polling thread is: before its next poll, after the poll, waiting for the lock, ended, or dead by an
  exception, which takes the whole process with it.
\<close>

datatype poll_phase = Poll_head | Poll_check | Poll_lock | Poll_ended | Poll_crashed

record 'w recoverable =
  rp_properties :: Properties
  rp_fatalError :: "Error option"
  rp_producer :: "'w producer option"
  rp_stop :: bool
  rp_phase :: poll_phase
  rp_waiting :: bool  \<comment> \<open>a \<open>syncSend\<close> holds \<open>_producerMutex\<close>\<close>

text \<open>The errors a poll serves, after the delivery reports.\<close>

record 'w recoverable_api = "'w producer_api" +
  polled_errors :: "int \<Rightarrow> 'w \<Rightarrow> (rd_kafka_resp_err_t \<times> string) list \<times> 'w"

definition fatal_error_cb :: nat where
  \<comment> \<open>the handle of the lambda registered as \<open>error_cb\<close>\<close>
  "fatal_error_cb = 1"

definition on_error_event :: "client_event \<Rightarrow> Error option \<Rightarrow> Error option" where
  \<comment> \<open>what a call of that lambda does to \<open>_fatalError\<close>\<close>
  "on_error_event ev fatal = (case ev of
       ErrorEvent h e \<Rightarrow> if h = fatal_error_cb \<and> error_isFatal e then Some (Error_copy e) else fatal
     | _ \<Rightarrow> fatal)"

definition on_producer :: "('w producer, exn, 'a) prog \<Rightarrow> ('w recoverable, exn, 'a) prog" where
  \<comment> \<open>\<open>_producer->..\<close>, with the calls of the error callback it makes\<close>
  "on_producer m = (\<lambda>s. case rp_producer s of
       None \<Rightarrow> (Inl (StdException (Undefined_behaviour ''null _producer'')), s)
     | Some p \<Rightarrow> (case m p of (r, p') \<Rightarrow> (r, s\<lparr>rp_producer := Some p',
         rp_fatalError := fold on_error_event (drop (length (events p)) (events p')) (rp_fatalError s)\<rparr>)))"

section \<open>Construction\<close>

definition createProducer ::
  "('w, 'n) recoverable_api_scheme \<Rightarrow> string \<Rightarrow> Properties \<Rightarrow> 'w \<Rightarrow> (exn + unit) \<times> 'w producer" where
  "createProducer A random p w = construct_producer A random p (producer_default w)"

definition recoverable_properties :: "Properties \<Rightarrow> exn + Properties" where
  "recoverable_properties p =
     (case props_put ENABLE_MANUAL_EVENTS_POLL (StringObj ''true'') p of
        (Inl e, _) \<Rightarrow> Inl e
      | (Inr _, p1) \<Rightarrow>
     (case props_put ERROR_CB (ErrorCallbackObj (Some fatal_error_cb)) p1 of
        (Inl e, _) \<Rightarrow> Inl e
      | (Inr _, p2) \<Rightarrow> Inr p2))"

definition construct_recoverable ::
  "('w, 'n) recoverable_api_scheme \<Rightarrow> string \<Rightarrow> Properties \<Rightarrow> 'w \<Rightarrow> exn + 'w recoverable" where
  "construct_recoverable A random p w =
     (case recoverable_properties p of
        Inl e \<Rightarrow> Inl e
      | Inr p2 \<Rightarrow> (case createProducer A random p2 w of
          (Inl e, _) \<Rightarrow> Inl e
        | (Inr _, made) \<Rightarrow> Inr \<lparr>rp_properties = p2, rp_fatalError = None, rp_producer = Some made,
            rp_stop = False, rp_phase = Poll_head, rp_waiting = False\<rparr>))"

section \<open>The polling thread\<close>

fun serve_errors ::
  "('w, 'n) client_api_scheme \<Rightarrow> (rd_kafka_resp_err_t \<times> string) list \<Rightarrow> (('w, 'm) client_scheme, exn, unit) prog" where
  "serve_errors A [] = ret ()"
| "serve_errors A (e # es) = seqM (errorCallback A (fst e) (snd e)) (\<lambda>_. serve_errors A es)"

definition poll_with_errors ::
  "('w, 'n) recoverable_api_scheme \<Rightarrow> int \<Rightarrow> ('w producer, exn, unit) prog" where
  "poll_with_errors A ms =
     seqM (producer_pollCallbacks A ms) (\<lambda>_.
     seqM (lib_call (polled_errors A ms)) (\<lambda>es.
     serve_errors A es))"

definition poll_head :: "('w, 'n) recoverable_api_scheme \<Rightarrow> 'w recoverable \<Rightarrow> 'w recoverable" where
  "poll_head A s =
     (if rp_stop s then s\<lparr>rp_phase := Poll_ended\<rparr>
      else case on_producer (pollEvents (poll_with_errors A) 1) s of
        (Inl _, s') \<Rightarrow> s'\<lparr>rp_phase := Poll_crashed\<rparr>
      | (Inr _, s') \<Rightarrow> s'\<lparr>rp_phase := Poll_check\<rparr>)"

definition poll_check :: "('w, 'n) recoverable_api_scheme \<Rightarrow> 'w recoverable \<Rightarrow> 'w recoverable" where
  "poll_check A s =
     (if rp_fatalError s = None then s\<lparr>rp_phase := Poll_head\<rparr>
      else case on_producer (purge A) s of
        (Inl _, s') \<Rightarrow> s'\<lparr>rp_phase := Poll_crashed\<rparr>
      | (Inr _, s') \<Rightarrow>
          if rp_stop s' then s'\<lparr>rp_phase := Poll_ended\<rparr>
          else s'\<lparr>rp_fatalError := None, rp_phase := Poll_lock\<rparr>)"

definition replace_producer ::
  "('w, 'n) recoverable_api_scheme \<Rightarrow> string \<Rightarrow> ('w recoverable, exn, unit) prog" where
  \<comment> \<open>the record of the events goes on\<close>
  "replace_producer A random = (\<lambda>s. case rp_producer s of
       None \<Rightarrow> (Inl (StdException (Undefined_behaviour ''null _producer'')), s)
     | Some old \<Rightarrow> (case createProducer A random (rp_properties s) (world old) of
           (Inl e, _) \<Rightarrow> (Inl e, s)
         | (Inr _, new) \<Rightarrow> (Inr (), s\<lparr>rp_producer := Some (new\<lparr>events := events old @ events new\<rparr>)\<rparr>)))"

definition poll_recover :: "('w, 'n) recoverable_api_scheme \<Rightarrow> string \<Rightarrow> 'w recoverable \<Rightarrow> 'w recoverable" where
  \<comment> \<open>under the lock\<close>
  "poll_recover A random s =
     (case seqM (on_producer (close_producer A InfiniteTimeout)) (\<lambda>_. replace_producer A random) s of
        (Inl _, s') \<Rightarrow> s'\<lparr>rp_phase := Poll_crashed\<rparr>
      | (Inr _, s') \<Rightarrow> s'\<lparr>rp_phase := Poll_head\<rparr>)"

section \<open>The user's calls\<close>

datatype user_call =
    Send ProducerRecord callback SendOption ActionWhileQueueIsFull
  | Send_error ProducerRecord callback Error SendOption ActionWhileQueueIsFull
  | Flush int
  | Purge
  | InitTransactions int
  | BeginTransaction
  | CommitTransaction int
  | AbortTransaction int
  | SendOffsets TopicPartitionOffsets nat int
  | SetLogLevel int

definition rp_setLogLevel :: "('w, 'n) recoverable_api_scheme \<Rightarrow> int \<Rightarrow> ('w recoverable, exn, unit) prog" where
  \<comment> \<open>the level is stored as given, the producer's own call brings it into the range\<close>
  "rp_setLogLevel A level =
     seqM (\<lambda>s. case props_put LOG_LEVEL (StringObj (show_int level)) (rp_properties s) of
         (r, p) \<Rightarrow> (r, s\<lparr>rp_properties := p\<rparr>)) (\<lambda>_.
     on_producer (setLogLevel A level))"

definition rp_flush :: "('w, 'n) recoverable_api_scheme \<Rightarrow> int \<Rightarrow> ('w recoverable, exn, Error) prog" where
  "rp_flush A timeout = on_producer (flush A timeout)"

definition rp_purge :: "('w, 'n) recoverable_api_scheme \<Rightarrow> ('w recoverable, exn, Error) prog" where
  "rp_purge A = on_producer (purge A)"

fun user_run :: "('w, 'n) recoverable_api_scheme \<Rightarrow> user_call \<Rightarrow> ('w recoverable, exn, unit) prog" where
  "user_run A (Send rec cb opt act) = on_producer (send A rec (User_callback cb) opt act)"
| "user_run A (Send_error rec cb err opt act) =
     on_producer (seqM (send_no_throw A rec (User_callback cb) err opt act) (\<lambda>_. ret ()))"
| "user_run A (Flush t) = seqM (rp_flush A t) (\<lambda>_. ret ())"
| "user_run A Purge = seqM (rp_purge A) (\<lambda>_. ret ())"
| "user_run A (InitTransactions t) = on_producer (initTransactions A t)"
| "user_run A BeginTransaction = on_producer (beginTransaction A)"
| "user_run A (CommitTransaction t) = on_producer (commitTransaction A t)"
| "user_run A (AbortTransaction t) = on_producer (abortTransaction A t)"
| "user_run A (SendOffsets tpos g t) = on_producer (sendOffsetsToTransaction A tpos g t)"
| "user_run A (SetLogLevel l) = rp_setLogLevel A l"

definition rp_clientId :: "('w recoverable, exn, string) prog" where
  "rp_clientId = on_producer (getM clientId)"

definition rp_name :: "('w recoverable, exn, string) prog" where
  "rp_name = on_producer (getM clientName)"

definition rp_properties_of :: "('w recoverable, exn, Properties) prog" where
  \<comment> \<open>\<open>properties()\<close>: those of the current producer\<close>
  "rp_properties_of = on_producer (getM properties)"

definition rp_getProperty :: "('w, 'n) recoverable_api_scheme \<Rightarrow> string \<Rightarrow> ('w recoverable, exn, string option) prog" where
  "rp_getProperty A name = on_producer (\<lambda>p. (client_getProperty A name p, p))"

definition rp_fetchBrokerMetadata ::
  "('w, 'n) recoverable_api_scheme \<Rightarrow> string \<Rightarrow> int \<Rightarrow> ('w recoverable, exn, BrokerMetadata option) prog" where
  "rp_fetchBrokerMetadata A topic timeout = on_producer (fetchBrokerMetadata A topic timeout)"

definition sync_start :: "('w, 'n) recoverable_api_scheme \<Rightarrow> ProducerRecord \<Rightarrow> ('w recoverable, exn, unit) prog" where
  \<comment> \<open>\<open>syncSend\<close> up to its wait\<close>
  "sync_start A rec =
     seqM (on_producer (seqM (modM (\<lambda>p. p\<lparr>syncResult := None\<rparr>)) (\<lambda>_. send A rec Sync_callback NoCopyRecordValue Block))) (\<lambda>_.
     modM (\<lambda>s. s\<lparr>rp_waiting := True\<rparr>))"

definition sync_result :: "'w recoverable \<Rightarrow> (Error \<times> RecordMetadata) option" where
  "sync_result s = (case rp_producer s of None \<Rightarrow> None | Some p \<Rightarrow> syncResult p)"

definition rp_close :: "('w, 'n) recoverable_api_scheme \<Rightarrow> int \<Rightarrow> ('w recoverable, exn, unit) prog" where
  \<comment> \<open>\<open>close\<close> once the polling thread has been joined\<close>
  "rp_close A timeout =
     seqM (on_producer (close_producer A timeout)) (\<lambda>_. modM (\<lambda>s. s\<lparr>rp_producer := None\<rparr>))"

section \<open>Interleavings\<close>

inductive rp_step :: "('w, 'n) recoverable_api_scheme \<Rightarrow> 'w recoverable \<Rightarrow> 'w recoverable \<Rightarrow> bool"
  for A :: "('w, 'n) recoverable_api_scheme" where
  thread_polls: "rp_phase s = Poll_head \<Longrightarrow> rp_step A s (poll_head A s)"
| thread_checks: "rp_phase s = Poll_check \<Longrightarrow> rp_step A s (poll_check A s)"
| thread_recovers: "rp_phase s = Poll_lock \<Longrightarrow> \<not> rp_waiting s \<Longrightarrow> rp_step A s (poll_recover A random s)"
| user_calls: "rp_phase s \<noteq> Poll_crashed \<Longrightarrow> \<not> rp_waiting s \<Longrightarrow> rp_producer s \<noteq> None \<Longrightarrow> rp_step A s (snd (user_run A c s))"
| sync_starts: "rp_phase s \<noteq> Poll_crashed \<Longrightarrow> \<not> rp_waiting s \<Longrightarrow> rp_producer s \<noteq> None \<Longrightarrow> rp_step A s (snd (sync_start A rec s))"
| sync_ends: "rp_phase s \<noteq> Poll_crashed \<Longrightarrow> rp_waiting s \<Longrightarrow> sync_result s = Some r \<Longrightarrow> rp_step A s (s\<lparr>rp_waiting := False\<rparr>)"
| close_starts: "rp_phase s \<noteq> Poll_crashed \<Longrightarrow> rp_producer s \<noteq> None \<Longrightarrow> rp_step A s (s\<lparr>rp_stop := True\<rparr>)"
| close_ends: "rp_phase s = Poll_ended \<Longrightarrow> rp_stop s \<Longrightarrow> \<not> rp_waiting s \<Longrightarrow> rp_producer s \<noteq> None \<Longrightarrow>
    rp_step A s (snd (rp_close A timeout s))"

inductive_cases rp_stepE: "rp_step A s s'"

section \<open>The polling thread and the producer\<close>

lemma on_producer_frame [simp]:
  "rp_phase (snd (on_producer m s)) = rp_phase s" "rp_stop (snd (on_producer m s)) = rp_stop s"
  "rp_waiting (snd (on_producer m s)) = rp_waiting s" "rp_properties (snd (on_producer m s)) = rp_properties s"
  "(rp_producer (snd (on_producer m s)) = None) = (rp_producer s = None)"
  by (simp_all add: on_producer_def split: option.split prod.split)

lemma on_producer_frame_eq:
  assumes "on_producer m s = (r, s')"
  shows "rp_phase s' = rp_phase s" "rp_stop s' = rp_stop s" "rp_waiting s' = rp_waiting s"
    "rp_properties s' = rp_properties s" "(rp_producer s' = None) = (rp_producer s = None)"
  using on_producer_frame [of m s] assms by simp_all

definition rp_inv :: "'w recoverable \<Rightarrow> bool" where
  "rp_inv s \<longleftrightarrow> (rp_phase s \<in> {Poll_head, Poll_check, Poll_lock} \<longrightarrow> rp_producer s \<noteq> None) \<and>
     (rp_waiting s \<longrightarrow> rp_producer s \<noteq> None) \<and> (rp_phase s = Poll_ended \<longrightarrow> rp_stop s)"

lemma user_run_frame:
  "rp_phase (snd (user_run A c s)) = rp_phase s" "rp_stop (snd (user_run A c s)) = rp_stop s"
  "rp_waiting (snd (user_run A c s)) = rp_waiting s" "(rp_producer (snd (user_run A c s)) = None) = (rp_producer s = None)"
  by (cases c; auto simp: rp_setLogLevel_def rp_flush_def rp_purge_def seqM_split dest: on_producer_frame_eq
    split: prod.split sum.split)+

lemma sync_start_frame:
  "rp_phase (snd (sync_start A rec s)) = rp_phase s" "rp_stop (snd (sync_start A rec s)) = rp_stop s"
  "(rp_producer (snd (sync_start A rec s)) = None) = (rp_producer s = None)"
  by (auto simp: sync_start_def seqM_split dest: on_producer_frame_eq split: prod.split sum.split)

lemma replace_producer_frame:
  "rp_phase (snd (replace_producer A random s)) = rp_phase s" "rp_stop (snd (replace_producer A random s)) = rp_stop s"
  "rp_waiting (snd (replace_producer A random s)) = rp_waiting s"
  "(rp_producer (snd (replace_producer A random s)) = None) = (rp_producer s = None)"
  by (simp_all add: replace_producer_def split: option.split prod.split sum.split)

lemma rp_step_inv: "rp_step A s s' \<Longrightarrow> rp_inv s \<Longrightarrow> rp_inv s'"
proof (induction rule: rp_step.induct)
  case (thread_polls s)
  then show ?case
    by (auto simp: rp_inv_def poll_head_def dest: on_producer_frame_eq split: prod.split sum.split)
next
  case (thread_checks s)
  then show ?case
    by (auto simp: rp_inv_def poll_check_def dest: on_producer_frame_eq split: prod.split sum.split)
next
  case (thread_recovers s random)
  obtain r s1 where close: "on_producer (close_producer A InfiniteTimeout) s = (r, s1)" by fastforce
  obtain r2 s2 where replace: "replace_producer A random s1 = (r2, s2)" by fastforce
  show ?case
    using thread_recovers on_producer_frame_eq [OF close] replace_producer_frame [of A random s1] replace
    by (cases r; cases r2) (simp_all add: poll_recover_def seqM_split close rp_inv_def)
next
  case (user_calls s c)
  then show ?case by (auto simp: rp_inv_def user_run_frame)
next
  case (sync_starts s rec)
  then show ?case by (auto simp: rp_inv_def sync_start_frame)
next
  case (close_ends s timeout)
  then show ?case
    by (auto simp: rp_inv_def rp_close_def seqM_split dest: on_producer_frame_eq split: prod.split sum.split)
qed (auto simp: rp_inv_def)

inductive rp_reachable :: "('w, 'n) recoverable_api_scheme \<Rightarrow> 'w recoverable \<Rightarrow> bool"
  for A :: "('w, 'n) recoverable_api_scheme" where
  constructed: "construct_recoverable A random p w = Inr s \<Longrightarrow> rp_reachable A s"
| stepped: "rp_reachable A s \<Longrightarrow> rp_step A s s' \<Longrightarrow> rp_reachable A s'"

lemma rp_reachable_inv: "rp_reachable A s \<Longrightarrow> rp_inv s"
proof (induction rule: rp_reachable.induct)
  case (constructed random p w s)
  then show ?case
    by (auto simp: construct_recoverable_def rp_inv_def split: sum.splits prod.splits)
qed (rule rp_step_inv)

lemma rp_steps_reachable: "(rp_step A)\<^sup>*\<^sup>* s s' \<Longrightarrow> rp_reachable A s \<Longrightarrow> rp_reachable A s'"
  by (induction rule: rtranclp_induct) (auto intro: rp_reachable.stepped)

section \<open>Who waits for whom\<close>

definition rp_deadlock :: "'w recoverable \<Rightarrow> bool" where
  \<comment> \<open>the polling thread waits for the lock of a \<open>syncSend\<close> that waits for the polling thread\<close>
  "rp_deadlock s \<longleftrightarrow> rp_phase s = Poll_lock \<and> rp_waiting s \<and> sync_result s = None"

lemma deadlock_stays: "rp_step A s s' \<Longrightarrow> rp_deadlock s \<Longrightarrow> rp_deadlock s' \<and> rp_producer s' = rp_producer s"
  by (induction rule: rp_step.induct) (auto simp: rp_deadlock_def sync_result_def)

lemma deadlock_for_ever:
  "(rp_step A)\<^sup>*\<^sup>* s s' \<Longrightarrow> rp_deadlock s \<Longrightarrow> rp_deadlock s' \<and> rp_producer s' = rp_producer s"
  by (induction rule: rtranclp_induct) (auto dest: deadlock_stays)

definition served_error :: "('w, 'n) client_api_scheme \<Rightarrow> 'w \<Rightarrow> rd_kafka_resp_err_t \<times> string \<Rightarrow> Error" where
  \<comment> \<open>the error \<open>errorCallback\<close> passes on\<close>
  "served_error A w e = (if fst e \<noteq> RD_KAFKA_RESP_ERR__FATAL then Error_message (fst e) (snd e)
     else Error_fatal (fst (rd_kafka_fatal_error A w)) (snd (rd_kafka_fatal_error A w)) True)"

lemma serve_errors_eq:
  "errorCb s = Some h \<Longrightarrow> serve_errors A es s =
     (Inr (), s\<lparr>events := events s @ map (\<lambda>e. ErrorEvent h (served_error A (world s) e)) es\<rparr>)"
  by (induction es arbitrary: s) (simp_all add: seqM_split errorCallback_def onError_def call_cb_apply served_error_def)

lemma deliver_errorCb [simp]: "errorCb (deliver L ds s) = errorCb s"
  by (simp add: deliver_def)

lemma poll_with_errors_eq:
  assumes "producer_rd_kafka_poll A ms (world p) = (ds, wa)" "\<forall>d\<in>set ds. callable d"
    and "polled_errors A ms wa = (es, wb)" "errorCb p = Some h"
  shows "poll_with_errors A ms p = (Inr (), (deliver (the_lib A) ds (p\<lparr>world := wb\<rparr>))
    \<lparr>events := events p @ concat (map report_events ds) @ map (\<lambda>e. ErrorEvent h (served_error A wb e)) es\<rparr>)"
proof -
  have "producer_pollCallbacks A ms p = (Inr (), deliver (the_lib A) ds (p\<lparr>world := wa\<rparr>))"
    using assms(1,2) by (simp add: producer_pollCallbacks_def seqM_split deliver_all_callable)
  then show ?thesis
    using assms(3,4) by (simp add: poll_with_errors_def seqM_split serve_errors_eq deliver_world) (simp add: deliver_def)
qed

lemma fold_fatal:
  assumes "ErrorEvent fatal_error_cb e \<in> set evs" "error_isFatal e"
  shows "fold on_error_event evs x \<noteq> None"
proof -
  have keeps: "fold on_error_event evs (Some y) \<noteq> None" for evs y
    by (induction evs arbitrary: y) (auto simp: on_error_event_def split: client_event.split)
  from assms(1) obtain us vs where "evs = us @ ErrorEvent fatal_error_cb e # vs"
    by (auto dest: split_list)
  then show ?thesis using assms(2) keeps by (simp add: on_error_event_def)
qed

lemma error_isFatal_served [simp]: "error_isFatal (served_error A w (RD_KAFKA_RESP_ERR__FATAL, reason))"
  by (simp add: served_error_def error_defs)

lemma poll_head_fatal:
  assumes "rp_phase s = Poll_head" "\<not> rp_stop s" "rp_producer s = Some p" "pollable p"
    and "producer_rd_kafka_poll A 1 (world p) = (ds, wa)" "\<forall>d\<in>set ds. foreign (the_lib A) d"
    and "polled_errors A 1 wa = (es, wb)" "errorCb p = Some fatal_error_cb"
    and "RD_KAFKA_RESP_ERR__FATAL \<in> fst ` set es"
  shows "\<exists>p' err. poll_head A s = s\<lparr>rp_producer := Some p', rp_fatalError := Some err, rp_phase := Poll_check\<rparr> \<and>
    syncResult p' = syncResult p"
proof -
  let ?p = "(deliver (the_lib A) ds (p\<lparr>world := wb\<rparr>))
    \<lparr>events := events p @ concat (map report_events ds) @ map (\<lambda>e. ErrorEvent fatal_error_cb (served_error A wb e)) es\<rparr>"
  have ms: "convertMsDurationToInt 1 = 1" by (simp add: convertMsDurationToInt_def INT_MAX_def to_int32_def)
  have run: "pollEvents (poll_with_errors A) 1 p = (Inr (), ?p)"
    using poll_with_errors_eq [OF assms(5) _ assms(7,8)] assms(4,6)
    by (simp add: pollEvents_def seqM_split ms foreign_def)
  obtain reason where "(RD_KAFKA_RESP_ERR__FATAL, reason) \<in> set es" using assms(9) by auto
  then have "ErrorEvent fatal_error_cb (served_error A wb (RD_KAFKA_RESP_ERR__FATAL, reason)) \<in>
      set (drop (length (events p)) (events ?p))" by auto
  from fold_fatal [OF this error_isFatal_served]
  obtain err where "fold on_error_event (drop (length (events p)) (events ?p)) (rp_fatalError s) = Some err" by blast
  moreover have "syncResult ?p = syncResult p" using assms(6) by (simp add: deliver_foreign_result)
  ultimately show ?thesis
    using assms(1,2,3) run by (intro exI [of _ ?p] exI [of _ err]) (simp add: poll_head_def on_producer_def)
qed

lemma purge_frame: "purge A p = (Inr (Error_code (fst (rd_kafka_purge A (purge_flags A) (world p)))),
    p\<lparr>world := snd (rd_kafka_purge A (purge_flags A) (world p))\<rparr>)"
  by (simp add: purge_def seqM_split)

section \<open>Recovery\<close>

lemma started_producer:
  assumes "createProducer A random p w = (Inr (), new)" "props_ok p"
  shows "opened new \<and> pollable new \<and> accepted_from (reformed random p) (properties new) \<and> producer_config_ok p"
proof -
  obtain q where q: "producer_validate random p = Inr q"
    using assms(1) by (cases "producer_validate random p") (auto simp: createProducer_def construct_producer_def)
  then have ok: "producer_config_ok p" "q = reformed random p"
    using producer_validate_cases [of random p q] by simp_all
  obtain r s1 where run: "construct_client A KafkaProducer q (register_callback A (Some Conf_dr_msg_cb)) (producer_default w) = (r, s1)"
    by fastforce
  have "under_construction q (producer_default w)"
    by (simp add: under_construction_def producer_default_def client.defs client_default_def accepted_from_def)
  moreover have "r = Inr ()" "new = snd (startBackgroundPollingIfNecessary s1)"
    using assms(1) run
    by (auto simp: createProducer_def construct_producer_def q seqM_split split: sum.splits prod.splits)
  ultimately have "under_construction q s1 \<and> opened s1"
    using triple_returns [OF construct_client_establishes [of q A KafkaProducer "Some Conf_dr_msg_cb"]] run assms(2) ok(2) by auto
  then show ?thesis
    using \<open>new = _\<close> ok by (auto simp: startBackgroundPollingIfNecessary_def seqM_split under_construction_def)
qed

lemma fold_reports [simp]: "fold on_error_event (concat (map report_events ds)) x = x"
proof (induction ds arbitrary: x)
  case (Cons d ds)
  have "fold on_error_event (report_events d) x = x"
    by (auto simp: report_events_def on_error_event_def split: option.split delivery_cb.split)
  with Cons show ?case by simp
qed simp

lemma purge_keeps_owed:
  assumes "reports_outstanding A owed"
  shows "mset (map snd (owed (snd (rd_kafka_purge A (purge_flags A) w)))) = mset (map snd (owed w))"
proof -
  have "case rd_kafka_purge A (purge_flags A) w of (err, w1) \<Rightarrow>
        mset (map snd (owed w)) = mset (map snd (owed w1)) \<and>
        mset (map snd (fst (producer_rd_kafka_poll A 0 w1))) = mset (map snd (owed w1))"
    using assms unfolding reports_outstanding_def by (elim conjE) (drule spec)
  then show ?thesis by (simp add: case_prod_unfold del: mset_map)
qed

lemma bad_level_refused:
  assumes "l < 0 \<or> 7 < l" "- (2 ^ 31) \<le> l" "l < 2 ^ 31" "prop_string LOG_LEVEL q = Some (show_int l)"
  shows "\<exists>e. fst (createProducer A random q w) = Inl e"
proof (cases "producer_validate random q")
  case (Inr r)
  have "r = reformed random q" using producer_validate_cases [of random q r] Inr by simp
  then have level: "prop_string LOG_LEVEL r = Some (show_int l)" using assms(4) by (simp add: prop_string_reformed)
  have "triple (\<lambda>_. True) (save_log_level r) (\<lambda>_ _. False) (\<lambda>_ _. True)"
    using assms(1) by (auto simp: save_log_level_def getProperty_eq level stoi_show_int [OF assms(2,3)] check_log_level_def triple_def)
  then have "triple (\<lambda>_. True) (construct_client A KafkaProducer r (register_callback A (Some Conf_dr_msg_cb))) (\<lambda>_ _. False) (\<lambda>_ _. True)"
    unfolding construct_client_def
    by (intro triple_seqM [where R = "\<lambda>_ _. True"] triple_seqM [where R = "\<lambda>_ _. False"])
      (auto simp: triple_def split: prod.split sum.split)
  then obtain e s1 where "construct_client A KafkaProducer r (register_callback A (Some Conf_dr_msg_cb)) (producer_default w) = (Inl e, s1)"
    using triple_returns by (metis old.sum.exhaust surj_pair)
  then show ?thesis
    by (simp add: createProducer_def construct_producer_def Inr seqM_split)
qed (simp add: createProducer_def construct_producer_def)

lemma bad_level_crashes:
  assumes "l < 0 \<or> 7 < l" "- (2 ^ 31) \<le> l" "l < 2 ^ 31" "prop_string LOG_LEVEL (rp_properties s) = Some (show_int l)"
  shows "rp_phase (poll_recover A random s) = Poll_crashed"
proof -
  obtain r s1 where close: "on_producer (close_producer A InfiniteTimeout) s = (r, s1)" by fastforce
  then have "prop_string LOG_LEVEL (rp_properties s1) = Some (show_int l)"
    using assms(4) on_producer_frame_eq(4) by metis
  note refused = bad_level_refused [OF assms(1-3) this, of A random]
  have "\<exists>e s2. replace_producer A random s1 = (Inl e, s2)"
  proof (cases "rp_producer s1")
    case (Some old)
    from refused [of "world old"] obtain e new where "createProducer A random (rp_properties s1) (world old) = (Inl e, new)"
      by (metis prod.collapse)
    then show ?thesis by (simp add: replace_producer_def Some)
  qed (simp add: replace_producer_def)
  then show ?thesis
    by (cases r) (auto simp: poll_recover_def seqM_split close)
qed

section \<open>A library for the witnesses\<close>

text \<open>The library of the producer's witnesses, whose every poll serves a fatal error.\<close>

definition fatal_api :: "(deliveries \<times> bool) recoverable_api" where
  "fatal_api = producer_api.extend slow_api \<lparr>polled_errors = (\<lambda>ms w. ([(RD_KAFKA_RESP_ERR__FATAL, ''fenced'')], w))\<rparr>"

lemma fatal_api_simps [simp]:
  "the_lib fatal_api = rdkafka_h" "polled_errors fatal_api ms w = ([(RD_KAFKA_RESP_ERR__FATAL, ''fenced'')], w)"
  "rd_kafka_produceva fatal_api vus w = (None, (fst w @ [(sample_message, vus_opaque vus)], snd w))"
  "producer_rd_kafka_poll fatal_api ms w = (if snd w then (fst w, ([], True)) else ([], (fst w, True)))"
  "rd_kafka_flush fatal_api ms w = (([], if fst w = [] then RD_KAFKA_RESP_ERR_NO_ERROR else RD_KAFKA_RESP_ERR__TIMED_OUT), w)"
  "rd_kafka_purge fatal_api fl w = (RD_KAFKA_RESP_ERR_NO_ERROR, (fst w, True))"
  by (simp_all add: fatal_api_def producer_api.defs slow_defs case_prod_unfold)

definition started_well :: "(deliveries \<times> bool) recoverable \<Rightarrow> bool" where
  "started_well s \<longleftrightarrow> rp_phase s = Poll_head \<and> \<not> rp_stop s \<and> \<not> rp_waiting s \<and> rp_fatalError s = None \<and>
     (case rp_producer s of None \<Rightarrow> False
      | Some p \<Rightarrow> pollable p \<and> errorCb p = Some fatal_error_cb \<and> fst (world p) = [] \<and> \<not> snd (world p))"

lemma fatal_api_constructs:
  obtains s where "construct_recoverable fatal_api ''id'' sample_properties ([], False) = Inr s" "started_well s"
proof -
  have "case construct_recoverable fatal_api ''id'' sample_properties ([], False) of Inr s \<Rightarrow> started_well s | Inl _ \<Rightarrow> False"
    by code_simp
  then show ?thesis by (auto intro: that split: sum.splits)
qed

lemma fatal_api_waits:
  assumes "started_well s"
  obtains p where "sync_start fatal_api sample_record s = (Inr (), s\<lparr>rp_producer := Some p, rp_waiting := True\<rparr>)"
    "pollable p" "errorCb p = Some fatal_error_cb" "world p = ([sample_report], False)" "syncResult p = None"
proof -
  obtain p where p: "rp_producer s = Some p" "pollable p" "errorCb p = Some fatal_error_cb" "world p = ([], False)"
    using assms by (auto simp: started_well_def prod_eq_iff split: option.splits)
  let ?p = "p\<lparr>syncResult := None, world := ([sample_report], False)\<rparr>"
  have "sync_start fatal_api sample_record s = (Inr (), s\<lparr>rp_producer := Some ?p, rp_waiting := True\<rparr>)"
    using p assms by (simp add: sync_start_def on_producer_def seqM_split send_eq started_well_def)
  then show ?thesis using p by (intro that [of ?p]) simp_all
qed

section \<open>Properties\<close>

text \<open>C11. Invariant of the polling thread: in every interleaving of the user's calls with the polling thread,
  the thread never meets a missing producer: as long as it runs there is one, a waiting \<open>syncSend\<close> has one
  too, and the thread has ended only when it was asked to.\<close>

theorem polling_thread_has_producer:
  assumes "rp_reachable A s"
  shows "(rp_phase s \<in> {Poll_head, Poll_check, Poll_lock} \<longrightarrow> rp_producer s \<noteq> None) \<and>
     (rp_waiting s \<longrightarrow> rp_producer s \<noteq> None) \<and> (rp_phase s = Poll_ended \<longrightarrow> rp_stop s)"
  using rp_reachable_inv [OF assms] by (simp add: rp_inv_def)

theorem polling_thread_has_producer_witness:
  "\<exists>s. rp_reachable fatal_api s \<and> rp_waiting s \<and> rp_producer s \<noteq> None"
proof -
  obtain s where s: "construct_recoverable fatal_api ''id'' sample_properties ([], False) = Inr s" "started_well s"
    by (rule fatal_api_constructs)
  let ?s = "snd (sync_start fatal_api sample_record s)"
  have "rp_step fatal_api s ?s"
    by (rule rp_step.sync_starts) (use s(2) in \<open>auto simp: started_well_def split: option.splits\<close>)
  with s(1) have reach: "rp_reachable fatal_api ?s" by (blast intro: rp_reachable.intros)
  have "rp_waiting ?s" by (rule fatal_api_waits [OF s(2)]) simp
  with polling_thread_has_producer [OF reach] reach show ?thesis by blast
qed

text \<open>C10. A fatal error during a \<open>syncSend\<close> is a deadlock: while \<open>syncSend\<close> holds the lock and waits, a poll that
  serves a fatal error but not the report of its record leads the polling thread to the lock, and from
  there on no interleaving ever serves the report or replaces the producer: the recovery never happens,
  \<open>syncSend\<close> never returns, and no other call gets the lock.\<close>

theorem sync_send_deadlocks:
  assumes "rp_phase s = Poll_head" "\<not> rp_stop s" "rp_waiting s" "rp_producer s = Some p" "syncResult p = None"
    and "pollable p" "errorCb p = Some fatal_error_cb"
    and "producer_rd_kafka_poll A 1 (world p) = (ds, wa)" "\<forall>d \<in> set ds. foreign (the_lib A) d"
    and "polled_errors A 1 wa = (es, wb)" "RD_KAFKA_RESP_ERR__FATAL \<in> fst ` set es"
  shows "\<exists>s1. (rp_step A)\<^sup>*\<^sup>* s s1 \<and> rp_deadlock s1 \<and>
    (\<forall>s2. (rp_step A)\<^sup>*\<^sup>* s1 s2 \<longrightarrow> rp_deadlock s2 \<and> rp_producer s2 = rp_producer s1)"
proof -
  from poll_head_fatal [OF assms(1,2,4,6,8,9,10,7,11)] obtain p' err where
    head: "poll_head A s = s\<lparr>rp_producer := Some p', rp_fatalError := Some err, rp_phase := Poll_check\<rparr>"
    "syncResult p' = syncResult p" by blast
  let ?s1 = "poll_check A (poll_head A s)"
  have "rp_step A s (poll_head A s)" using assms(1) by (rule rp_step.thread_polls)
  moreover have "rp_step A (poll_head A s) ?s1" by (rule rp_step.thread_checks) (simp add: head)
  ultimately have "(rp_step A)\<^sup>*\<^sup>* s ?s1" by simp
  moreover have "rp_deadlock ?s1"
    using assms(2,3,5) head(2)
    by (simp add: head(1) poll_check_def on_producer_def purge_frame rp_deadlock_def sync_result_def)
  ultimately show ?thesis using deadlock_for_ever by blast
qed

theorem sync_send_deadlocks_witness:
  "\<exists>s. rp_reachable fatal_api s \<and> rp_deadlock s \<and> (\<forall>s2. (rp_step fatal_api)\<^sup>*\<^sup>* s s2 \<longrightarrow> rp_deadlock s2)"
proof -
  obtain s where s: "construct_recoverable fatal_api ''id'' sample_properties ([], False) = Inr s" "started_well s"
    by (rule fatal_api_constructs)
  then obtain p where p: "sync_start fatal_api sample_record s = (Inr (), s\<lparr>rp_producer := Some p, rp_waiting := True\<rparr>)"
    "pollable p" "errorCb p = Some fatal_error_cb" "world p = ([sample_report], False)" "syncResult p = None"
    by (blast elim: fatal_api_waits)
  let ?s = "s\<lparr>rp_producer := Some p, rp_waiting := True\<rparr>"
  have "rp_step fatal_api s (snd (sync_start fatal_api sample_record s))"
    by (rule rp_step.sync_starts) (use s(2) in \<open>auto simp: started_well_def split: option.splits\<close>)
  then have reach: "rp_reachable fatal_api ?s" using s(1) p(1) by (auto intro: rp_reachable.intros)
  obtain s1 where "(rp_step fatal_api)\<^sup>*\<^sup>* ?s s1" "rp_deadlock s1"
    "\<forall>s2. (rp_step fatal_api)\<^sup>*\<^sup>* s1 s2 \<longrightarrow> rp_deadlock s2 \<and> rp_producer s2 = rp_producer s1"
    using sync_send_deadlocks [of ?s p fatal_api "[]" "([sample_report], True)" "[(RD_KAFKA_RESP_ERR__FATAL, ''fenced'')]"
        "([sample_report], True)"] s(2) p
    by (auto simp: started_well_def)
  then show ?thesis using rp_steps_reachable reach by blast
qed

text \<open>C9. Recovery: when the polling thread finds a fatal error and gets the lock, it leaves a new producer that
  is open, polled by hand and configured from the stored properties; the fatal error is forgotten, and every
  message that was outstanding at the old producer has had its callback called exactly once.\<close>

theorem recovery_replaces_producer:
  assumes "rp_phase s = Poll_check" "rp_fatalError s = Some err" "\<not> rp_stop s" "rp_producer s = Some p"
    and "props_ok (rp_properties s)" "reports_outstanding A owed" "\<forall>d \<in> set (owed (world p)). callable d"
    and "fst (createProducer A random (rp_properties s)
      (world (snd (close_producer A InfiniteTimeout (snd (purge A p)))))) = Inr ()"
  shows "rp_phase (poll_check A s) = Poll_lock \<and> rp_waiting (poll_check A s) = rp_waiting s \<and>
    (\<exists>new ds rest. poll_recover A random (poll_check A s) =
        s\<lparr>rp_phase := Poll_head, rp_fatalError := None, rp_producer := Some new\<rparr> \<and>
      opened new \<and> pollable new \<and> accepted_from (reformed random (rp_properties s)) (properties new) \<and>
      mset (map snd ds) = mset (map snd (owed (world p))) \<and>
      events new = events p @ concat (map report_events ds) @ rest)"
proof -
  let ?w = "snd (rd_kafka_purge A (purge_flags A) (world p))"
  let ?p = "p\<lparr>world := ?w\<rparr>"
  have check: "poll_check A s = s\<lparr>rp_producer := Some ?p, rp_fatalError := None, rp_phase := Poll_lock\<rparr>"
    using assms(2,3,4) by (simp add: poll_check_def on_producer_def purge_frame)
  note owed = purge_keeps_owed [OF assms(6), of "world p"]
  have "\<forall>d\<in>set (owed ?w). callable d"
    by (rule callable_of_snd [OF assms(7)]) (use owed in \<open>metis order_refl set_mset_mset\<close>)
  then obtain ds p1 where close: "close_producer A InfiniteTimeout ?p = (Inr (), p1)"
    "mset (map snd ds) = mset (map snd (owed ?w))" "events p1 = events p @ concat (map report_events ds)"
    using close_reports [OF assms(6), of ?p InfiniteTimeout] by auto
  obtain new where new: "createProducer A random (rp_properties s) (world p1) = (Inr (), new)"
    using assms(8) close(1) by (metis prod.collapse purge_frame snd_conv)
  let ?new = "new\<lparr>events := events p1 @ events new\<rparr>"
  have "poll_recover A random (poll_check A s) = s\<lparr>rp_phase := Poll_head, rp_fatalError := None, rp_producer := Some ?new\<rparr>"
    using close new by (simp add: check poll_recover_def seqM_split on_producer_def replace_producer_def)
  moreover have "opened ?new \<and> pollable ?new \<and> accepted_from (reformed random (rp_properties s)) (properties ?new)"
    using started_producer [OF new assms(5)] by simp
  moreover have "events ?new = events p @ concat (map report_events ds) @ events new" using close(3) by simp
  ultimately show ?thesis using close(2) owed check by (intro conjI exI [of _ ?new]) (simp_all, blast+)
qed

theorem recovery_replaces_producer_witness:
  "\<exists>s new. rp_producer s = Some ((producer_default ([sample_report], False))\<lparr>pollable := True\<rparr>) \<and>
     rp_phase s = Poll_check \<and>
     rp_producer (poll_recover fatal_api ''id'' (poll_check fatal_api s)) = Some new \<and> opened new"
proof -
  let ?s = "\<lparr>rp_properties = sample_properties, rp_fatalError = Some (Error_code RD_KAFKA_RESP_ERR__FATAL),
    rp_producer = Some ((producer_default ([sample_report], False))\<lparr>pollable := True\<rparr>), rp_stop = False,
    rp_phase = Poll_check, rp_waiting = False\<rparr>"
  have law: "reports_outstanding fatal_api fst" by (simp add: reports_outstanding_def)
  have created: "fst (createProducer fatal_api ''id'' (rp_properties ?s)
      (world (snd (close_producer fatal_api InfiniteTimeout (snd (purge fatal_api (the (rp_producer ?s)))))))) = Inr ()"
    by code_simp
  have "\<exists>new. rp_producer (poll_recover fatal_api ''id'' (poll_check fatal_api ?s)) = Some new \<and> opened new"
    using recovery_replaces_producer [of ?s "Error_code RD_KAFKA_RESP_ERR__FATAL" _ fatal_api fst "''id''", OF _ _ _ _ _ law]
      created
    by (auto simp: callable_def)
  then show ?thesis by (intro exI [of _ ?s]) auto
qed

text \<open>C12. A log level out of range is kept for the next producer: \<open>setLogLevel\<close> brings the level into the range only
  for the current producer but stores it as given, so the next recovery fails to create a producer and its
  exception ends the polling thread, and the process with it.\<close>

theorem stored_log_level_breaks_recovery:
  assumes "l < 0 \<or> 7 < l" "- (2 ^ 31) \<le> l" "l < 2 ^ 31" "rp_producer s = Some p"
  shows "let (r, s1) = rp_setLogLevel A l s
    in r = Inr () \<and> (\<exists>p1. rp_producer s1 = Some p1 \<and> logLevel p1 = (if l < 0 then 0 else 7)) \<and>
       (\<forall>s2. rp_properties s2 = rp_properties s1 \<longrightarrow> rp_phase (poll_recover A random s2) = Poll_crashed)"
proof -
  let ?q = "omap_put LOG_LEVEL (ValueType_of (StringObj (show_int l))) (rp_properties s)"
  obtain p1 where set_level: "setLogLevel A l p = (Inr (), p1)" "logLevel p1 = (if l < 0 then 0 else 7)" "events p1 = events p"
    using assms(1) by (auto simp: setLogLevel_def)
  have "rp_setLogLevel A l s = (Inr (), s\<lparr>rp_properties := ?q, rp_producer := Some p1\<rparr>)"
    using assms(4) set_level(1,3) by (simp add: rp_setLogLevel_def seqM_split props_put_apply on_producer_def)
  moreover have "prop_string LOG_LEVEL ?q = Some (show_int l)" by simp
  then have "rp_phase (poll_recover A random s2) = Poll_crashed" if "rp_properties s2 = ?q" for s2
    using bad_level_crashes [OF assms(1-3)] that by metis
  ultimately show ?thesis using set_level(2) by simp
qed

theorem stored_log_level_breaks_recovery_witness:
  "\<exists>s1. rp_setLogLevel fatal_api 9 \<lparr>rp_properties = sample_properties, rp_fatalError = None,
      rp_producer = Some (producer_default ([], False)), rp_stop = False, rp_phase = Poll_head, rp_waiting = False\<rparr> = (Inr (), s1) \<and>
     rp_phase (poll_recover fatal_api ''id'' (s1\<lparr>rp_phase := Poll_lock\<rparr>)) = Poll_crashed"
proof -
  let ?s = "\<lparr>rp_properties = sample_properties, rp_fatalError = None,
      rp_producer = Some (producer_default ([], False)), rp_stop = False, rp_phase = Poll_head, rp_waiting = False\<rparr>"
  obtain r s1 where run: "rp_setLogLevel fatal_api 9 ?s = (r, s1)" by fastforce
  then show ?thesis
    using stored_log_level_breaks_recovery [of 9 ?s _ fatal_api "''id''"] by auto
qed

end
