(* ===== verification/Admin_Client.thy ===== *)
theory Admin_Client
  imports Kafka_Client
begin

text \<open>
  \<open>AdminClient.h\<close> and \<open>AdminCommon.h\<close>: creating, deleting and listing topics, deleting records. A request
  puts its result as an event on a queue; the client polls the queue until the event or the end of the
  time-out. What the library was given for a new topic is the list of the calls' arguments; what an event
  answers to its accessors is a record.
\<close>

section \<open>Interface\<close>

datatype rd_kafka_event_type_t =
    RD_KAFKA_EVENT_NONE
  | RD_KAFKA_EVENT_CREATETOPICS_RESULT
  | RD_KAFKA_EVENT_DELETETOPICS_RESULT
  | RD_KAFKA_EVENT_DELETERECORDS_RESULT
  | RD_KAFKA_EVENT_other int

record rd_kafka_topic_result_t =
  rd_kafka_topic_result_error :: rd_kafka_resp_err_t
  rd_kafka_topic_result_name :: string
  rd_kafka_topic_result_error_string :: string

record rd_kafka_event_t =
  event_type :: rd_kafka_event_type_t
  rd_kafka_event_error :: rd_kafka_resp_err_t
  rd_kafka_event_error_string :: string
  result_topics :: "rd_kafka_topic_result_t list"
  result_offsets :: "rd_kafka_topic_partition_list_t option"

record rd_kafka_NewTopic_t =
  new_topic :: string
  num_partitions :: int
  replication_factor :: int
  new_topic_config :: "(string \<times> string) list"

record 'w admin_api = "'w client_api" +
  admin_steady_now :: "'w \<Rightarrow> int \<times> 'w"
  rd_kafka_NewTopic_accepts :: "string \<Rightarrow> int \<Rightarrow> int \<Rightarrow> bool"
  rd_kafka_NewTopic_set_config :: "rd_kafka_NewTopic_t \<Rightarrow> string \<Rightarrow> string \<Rightarrow> rd_kafka_resp_err_t"
  rd_kafka_CreateTopics :: "rd_kafka_NewTopic_t list \<Rightarrow> 'w \<Rightarrow> 'w"
  rd_kafka_DeleteTopics :: "string list \<Rightarrow> 'w \<Rightarrow> 'w"
  rd_kafka_DeleteRecords :: "rd_kafka_topic_partition_list_t \<Rightarrow> 'w \<Rightarrow> 'w"
  rd_kafka_queue_poll :: "int \<Rightarrow> 'w \<Rightarrow> rd_kafka_event_t option \<times> 'w"

definition DEFAULT_COMMAND_TIMEOUT_MS :: int where
  "DEFAULT_COMMAND_TIMEOUT_MS = 30000"

definition rd_kafka_event_type :: "rd_kafka_event_t option \<Rightarrow> rd_kafka_event_type_t" where
  \<comment> \<open>a null event has the type \<open>RD_KAFKA_EVENT_NONE\<close>\<close>
  "rd_kafka_event_type ev = (case ev of None \<Rightarrow> RD_KAFKA_EVENT_NONE | Some e \<Rightarrow> event_type e)"

record ListTopicsResult =
  list_error :: Error
  list_topics :: Topics

section \<open>Errors of a response\<close>

fun getPerTopicResults :: "rd_kafka_topic_result_t list \<Rightarrow> Error list" where
  "getPerTopicResults [] = []"
| "getPerTopicResults (r # rs) =
     (if rd_kafka_topic_result_error r \<noteq> RD_KAFKA_RESP_ERR_NO_ERROR
      then [Error_message (rd_kafka_topic_result_error r)
              (''topic['' @ rd_kafka_topic_result_name r @ ''] with error['' @ rd_kafka_topic_result_error_string r @ '']'')]
      else []) @ getPerTopicResults rs"

definition partition_error :: "rdkafka_lib \<Rightarrow> rd_kafka_topic_partition_t \<Rightarrow> Error list" where
  \<comment> \<open>what one round of the loop appends\<close>
  "partition_error L e =
     (if rktp_err e \<noteq> RD_KAFKA_RESP_ERR_NO_ERROR
      then [Error_message (rktp_err e)
              (''topic-partition['' @ rktp_topic e @ ''-'' @ show_int (rktp_partition e) @ ''] with error['' @
               rd_kafka_err2str L (rktp_err e) @ '']'')]
      else [])"

definition getPerTopicPartitionResults ::
  "rdkafka_lib \<Rightarrow> rd_kafka_topic_partition_list_t option \<Rightarrow> Error list" where
  "getPerTopicPartitionResults L partitionResults = concat (map (partition_error L) (elems_of partitionResults))"

definition combineErrors :: "rdkafka_lib \<Rightarrow> Error list \<Rightarrow> Error" where
  "combineErrors L es =
     (case es of
        e # _ \<Rightarrow> Error_message (error_value e)
          (foldl (\<lambda>msg err. msg @ (if msg \<noteq> [] then ''; '' else []) @ error_message L err) [] es)
      | [] \<Rightarrow> Error_message RD_KAFKA_RESP_ERR_NO_ERROR ''Success'')"

definition event_errors :: "rd_kafka_event_t \<Rightarrow> Error list" where
  "event_errors ev =
     (if rd_kafka_event_error ev \<noteq> RD_KAFKA_RESP_ERR_NO_ERROR
      then [Error_message (rd_kafka_event_error ev) (rd_kafka_event_error_string ev)] else [])"

section \<open>Waiting for the response\<close>

fun await_response ::
  "('w, 'n) admin_api_scheme \<Rightarrow> rd_kafka_event_type_t \<Rightarrow> int \<Rightarrow> nat \<Rightarrow>
     (('w, 'm) client_scheme, exn, rd_kafka_event_t option) prog" where
  \<comment> \<open>any other event is dropped\<close>
  "await_response A type until 0 = throw Out_of_fuel"
| "await_response A type until (Suc fuel) =
     seqM (lib_call (rd_kafka_queue_poll A EVENT_POLLING_INTERVAL_MS)) (\<lambda>rk_ev.
     if rd_kafka_event_type rk_ev = type then ret rk_ev
     else seqM (lib_call (admin_steady_now A)) (\<lambda>now.
       if now < until then await_response A type until fuel else ret None))"

definition response_body ::
  "('w, 'n) admin_api_scheme \<Rightarrow> rd_kafka_event_type_t \<Rightarrow> int \<Rightarrow>
     (('w, 'm) client_scheme, exn, rd_kafka_event_t option option) prog" where
  "response_body A type until =
     seqM (lib_call (rd_kafka_queue_poll A EVENT_POLLING_INTERVAL_MS)) (\<lambda>rk_ev.
     if rd_kafka_event_type rk_ev = type then ret (Some rk_ev)
     else seqM (lib_call (admin_steady_now A)) (\<lambda>now. ret (if now < until then None else Some None)))"

interpretation response: fuel_loop "await_response A type until" "response_body A type until" Out_of_fuel
  for A :: "('w, 'n) admin_api_scheme" and type until
  by unfold_locales (auto simp: response_body_def fun_eq_iff seqM_split)

section \<open>Commands\<close>

definition time_limit_error :: Error where
  "time_limit_error = Error_message RD_KAFKA_RESP_ERR__TIMED_OUT ''No response within the time limit''"

definition listTopics ::
  "('w, 'n) admin_api_scheme \<Rightarrow> int \<Rightarrow> (('w, 'm) client_scheme, exn, ListTopicsResult) prog" where
  "listTopics A timeout =
     seqM (lib_call (rd_kafka_metadata_call A True (convertMsDurationToInt timeout))) (\<lambda>(err, md).
     if err \<noteq> RD_KAFKA_RESP_ERR_NO_ERROR then
       ret \<lparr>list_error = Error_message err (rd_kafka_err2str (the_lib A) err), list_topics = []\<rparr>
     else ret \<lparr>list_error = Error_default,
         list_topics = foldl (\<lambda>names t. oset_insert (mt_topic t) names) [] (metadata_topics md)\<rparr>)"

fun add_configs ::
  "('w, 'n) admin_api_scheme \<Rightarrow> Properties \<Rightarrow> (string \<times> ValueType) list \<Rightarrow> rd_kafka_NewTopic_t \<Rightarrow>
     exn + (Error + rd_kafka_NewTopic_t)" where
  \<comment> \<open>\<open>Inl\<close> of the inner sum is an early return\<close>
  "add_configs A config [] t = Inr (Inr t)"
| "add_configs A config ((k, _) # confs) t = (case props_getProperty k config of
       Inl e \<Rightarrow> Inl e
     | Inr None \<Rightarrow> add_configs A config confs t
     | Inr (Some v) \<Rightarrow>
         if rd_kafka_NewTopic_set_config A t (c_str k) (c_str v) \<noteq> RD_KAFKA_RESP_ERR_NO_ERROR then
           Inr (Inl (Error_message RD_KAFKA_RESP_ERR__INVALID_ARG (''Invalid config['' @ k @ ''='' @ v @ '']'')))
         else add_configs A config confs (t\<lparr>new_topic_config := new_topic_config t @ [(c_str k, c_str v)]\<rparr>))"

fun build_new_topics ::
  "('w, 'n) admin_api_scheme \<Rightarrow> int \<Rightarrow> int \<Rightarrow> Properties \<Rightarrow> Topics \<Rightarrow> exn + (Error + rd_kafka_NewTopic_t list)" where
  "build_new_topics A parts repl config [] = Inr (Inr [])"
| "build_new_topics A parts repl config (topic # topics) =
     (if \<not> rd_kafka_NewTopic_accepts A (c_str topic) parts repl then
        Inr (Inl (Error_message RD_KAFKA_RESP_ERR__INVALID_ARG (rd_kafka_err2str (the_lib A) RD_KAFKA_RESP_ERR__INVALID_ARG)))
      else case add_configs A config config
             \<lparr>new_topic = c_str topic, num_partitions = parts, replication_factor = repl, new_topic_config = []\<rparr> of
          Inl e \<Rightarrow> Inl e
        | Inr (Inl err) \<Rightarrow> Inr (Inl err)
        | Inr (Inr t) \<Rightarrow> (case build_new_topics A parts repl config topics of
              Inl e \<Rightarrow> Inl e
            | Inr (Inl err) \<Rightarrow> Inr (Inl err)
            | Inr (Inr ts) \<Rightarrow> Inr (Inr (t # ts))))"

fun update_metadata ::
  "('w, 'n) admin_api_scheme \<Rightarrow> int \<Rightarrow> nat \<Rightarrow> (('w, 'm) client_scheme, exn, Error) prog" where
  "update_metadata A until 0 = throw Out_of_fuel"
| "update_metadata A until (Suc fuel) =
     seqM (listTopics A DEFAULT_COMMAND_TIMEOUT_MS) (\<lambda>res.
     if \<not> error_set (list_error res) then ret (Error_message RD_KAFKA_RESP_ERR_NO_ERROR ''Success'')
     else seqM (lib_call (admin_steady_now A)) (\<lambda>now.
       if now < until then update_metadata A until fuel
       else ret (Error_message RD_KAFKA_RESP_ERR__TIMED_OUT ''Updating metadata timed out'')))"

definition metadata_body ::
  "('w, 'n) admin_api_scheme \<Rightarrow> int \<Rightarrow> (('w, 'm) client_scheme, exn, Error option) prog" where
  "metadata_body A until =
     seqM (listTopics A DEFAULT_COMMAND_TIMEOUT_MS) (\<lambda>res.
     if \<not> error_set (list_error res) then ret (Some (Error_message RD_KAFKA_RESP_ERR_NO_ERROR ''Success''))
     else seqM (lib_call (admin_steady_now A)) (\<lambda>now.
       ret (if now < until then None else Some (Error_message RD_KAFKA_RESP_ERR__TIMED_OUT ''Updating metadata timed out''))))"

interpretation updating: fuel_loop "update_metadata A until" "metadata_body A until" Out_of_fuel
  for A :: "('w, 'n) admin_api_scheme" and until
  by unfold_locales (auto simp: metadata_body_def fun_eq_iff seqM_split split: prod.splits sum.splits)

definition create_result ::
  "('w, 'n) admin_api_scheme \<Rightarrow> int \<Rightarrow> rd_kafka_event_t option \<Rightarrow> nat \<Rightarrow> (('w, 'm) client_scheme, exn, Error) prog" where
  \<comment> \<open>what is left to do after the wait\<close>
  "create_result A until rk_ev fuel = (case rk_ev of
       None \<Rightarrow> ret time_limit_error
     | Some ev \<Rightarrow>
         (let es = event_errors ev @ getPerTopicResults (result_topics ev)
          in if es \<noteq> [] then ret (combineErrors (the_lib A) es) else update_metadata A until fuel))"

definition createTopics ::
  "('w, 'n) admin_api_scheme \<Rightarrow> nat \<Rightarrow> Topics \<Rightarrow> int \<Rightarrow> int \<Rightarrow> Properties \<Rightarrow> int \<Rightarrow> (('w, 'm) client_scheme, exn, Error) prog" where
  "createTopics A fuel topics parts repl config timeout =
     seqM (liftE (build_new_topics A parts repl config topics)) (\<lambda>built. case built of
       Inl err \<Rightarrow> ret err
     | Inr rk_topics \<Rightarrow>
         seqM (lib_do (rd_kafka_CreateTopics A rk_topics)) (\<lambda>_.
         seqM (lib_call (admin_steady_now A)) (\<lambda>now.
         seqM (await_response A RD_KAFKA_EVENT_CREATETOPICS_RESULT (deadline now timeout) fuel) (\<lambda>rk_ev.
         create_result A (deadline now timeout) rk_ev fuel))))"

definition deleteTopics ::
  "('w, 'n) admin_api_scheme \<Rightarrow> nat \<Rightarrow> Topics \<Rightarrow> int \<Rightarrow> (('w, 'm) client_scheme, exn, Error) prog" where
  "deleteTopics A fuel topics timeout =
     seqM (lib_do (rd_kafka_DeleteTopics A (map c_str topics))) (\<lambda>_.
     seqM (lib_call (admin_steady_now A)) (\<lambda>now.
     seqM (await_response A RD_KAFKA_EVENT_DELETETOPICS_RESULT (deadline now timeout) fuel) (\<lambda>rk_ev. ret (case rk_ev of
         None \<Rightarrow> time_limit_error
       | Some ev \<Rightarrow> combineErrors (the_lib A) (event_errors ev @ getPerTopicResults (result_topics ev))))))"

definition deleteRecords ::
  "('w, 'n) admin_api_scheme \<Rightarrow> nat \<Rightarrow> TopicPartitionOffsets \<Rightarrow> int \<Rightarrow> (('w, 'm) client_scheme, exn, Error) prog" where
  "deleteRecords A fuel tpos timeout =
     seqM (lib_do (rd_kafka_DeleteRecords A (createRkTopicPartitionList tpos))) (\<lambda>_.
     seqM (lib_call (admin_steady_now A)) (\<lambda>now.
     seqM (await_response A RD_KAFKA_EVENT_DELETERECORDS_RESULT (deadline now timeout) fuel) (\<lambda>rk_ev. ret (case rk_ev of
         None \<Rightarrow> time_limit_error
       | Some ev \<Rightarrow> combineErrors (the_lib A) (event_errors ev @ getPerTopicPartitionResults (the_lib A) (result_offsets ev))))))"

definition construct_admin ::
  "('w, 'n) admin_api_scheme \<Rightarrow> string \<Rightarrow> Properties \<Rightarrow> (('w, 'm) client_scheme, exn, unit) prog" where
  "construct_admin A random p =
     seqM (liftE (validateAndReformProperties random p)) (\<lambda>p'. construct_client A AdminClient p' (register_callback A None))"

section \<open>The waits end\<close>

text \<open>The clock never goes back, and a poll of the queue and a metadata request take at least a nanosecond.\<close>

definition admin_clock_advances :: "('w, 'n) admin_api_scheme \<Rightarrow> ('w \<Rightarrow> int) \<Rightarrow> bool" where
  "admin_clock_advances A time \<longleftrightarrow>
     (\<forall>w. fst (admin_steady_now A w) = time w \<and> time w \<le> time (snd (admin_steady_now A w))) \<and>
     (\<forall>t w. time w < time (snd (rd_kafka_queue_poll A t w))) \<and>
     (\<forall>al t w. time w < time (snd (rd_kafka_metadata_call A al t w)))"

lemma admin_clock:
  assumes "admin_clock_advances A time"
  shows "fst (admin_steady_now A w) = time w" "time w \<le> time (snd (admin_steady_now A w))"
    "time w < time (snd (rd_kafka_queue_poll A t w))" "time w < time (snd (rd_kafka_metadata_call A al t w))"
  using assms by (simp_all add: admin_clock_advances_def)

lemma response_body_split:
  "response_body A type until s =
     (let (ev, wa) = rd_kafka_queue_poll A EVENT_POLLING_INTERVAL_MS (world s); (now, wb) = admin_steady_now A wa
      in if rd_kafka_event_type ev = type then (Inr (Some ev), s\<lparr>world := wa\<rparr>)
         else (Inr (if now < until then None else Some None), s\<lparr>world := wb\<rparr>))"
  by (simp add: response_body_def seqM_split Let_def case_prod_unfold)

lemma listTopics_split:
  "listTopics A timeout s =
     (let ((err, md), w) = rd_kafka_metadata_call A True (convertMsDurationToInt timeout) (world s)
      in (Inr (if err \<noteq> RD_KAFKA_RESP_ERR_NO_ERROR
           then \<lparr>list_error = Error_message err (rd_kafka_err2str (the_lib A) err), list_topics = []\<rparr>
           else \<lparr>list_error = Error_default, list_topics = oset_of_list (map mt_topic (metadata_topics md))\<rparr>), s\<lparr>world := w\<rparr>))"
  by (simp add: listTopics_def seqM_split Let_def case_prod_unfold oset_of_list_def foldl_map)

lemma metadata_body_split:
  "metadata_body A until s =
     (let ((err, md), wa) = rd_kafka_metadata_call A True (convertMsDurationToInt DEFAULT_COMMAND_TIMEOUT_MS) (world s);
          (now, wb) = admin_steady_now A wa
      in if err = RD_KAFKA_RESP_ERR_NO_ERROR
         then (Inr (Some (Error_message RD_KAFKA_RESP_ERR_NO_ERROR ''Success'')), s\<lparr>world := wa\<rparr>)
         else (Inr (if now < until then None
             else Some (Error_message RD_KAFKA_RESP_ERR__TIMED_OUT ''Updating metadata timed out'')), s\<lparr>world := wb\<rparr>))"
  by (simp add: metadata_body_def listTopics_split seqM_split Let_def case_prod_unfold error_set_def)

lemma await_response_ends:
  assumes "admin_clock_advances A time" "nat (until - time (world s)) < fuel"
  shows "fst (await_response A type until fuel s) \<noteq> Inl Out_of_fuel"
proof (rule response.enough_fuel [where I = "\<lambda>_. True" and \<mu> = "\<lambda>s. nat (until - time (world s))"])
  fix s s' :: "('a, 'c) client_scheme" assume "response_body A type until s = (Inr None, s')"
  then show "True \<and> nat (until - time (world s')) < nat (until - time (world s))"
    using admin_clock(1,2) [OF assms(1), of "snd (rd_kafka_queue_poll A EVENT_POLLING_INTERVAL_MS (world s))"]
      admin_clock(3) [OF assms(1), of "world s" EVENT_POLLING_INTERVAL_MS]
    by (auto simp: response_body_split Let_def case_prod_unfold split: if_splits)
qed (use assms(2) in \<open>simp_all add: response_body_split Let_def case_prod_unfold\<close>)

lemma update_metadata_ends:
  assumes "admin_clock_advances A time" "nat (until - time (world s)) < fuel"
  shows "fst (update_metadata A until fuel s) \<noteq> Inl Out_of_fuel"
proof (rule updating.enough_fuel [where I = "\<lambda>_. True" and \<mu> = "\<lambda>s. nat (until - time (world s))"])
  let ?t = "convertMsDurationToInt DEFAULT_COMMAND_TIMEOUT_MS"
  fix s s' :: "('a, 'c) client_scheme" assume "metadata_body A until s = (Inr None, s')"
  then show "True \<and> nat (until - time (world s')) < nat (until - time (world s))"
    using admin_clock(1,2) [OF assms(1), of "snd (rd_kafka_metadata_call A True ?t (world s))"]
      admin_clock(4) [OF assms(1), of "world s" True ?t]
    by (auto simp: metadata_body_split Let_def case_prod_unfold split: if_splits)
qed (use assms(2) in \<open>simp_all add: metadata_body_split Let_def case_prod_unfold\<close>)

lemma await_response_settles:
  "admin_clock_advances A time \<Longrightarrow> settles Out_of_fuel (await_response A type until) s"
  unfolding settles_def by (rule response.loop_settles [OF await_response_ends [OF _ lessI]])

lemma update_metadata_settles:
  "admin_clock_advances A time \<Longrightarrow> settles Out_of_fuel (update_metadata A until) s"
  unfolding settles_def by (rule updating.loop_settles [OF update_metadata_ends [OF _ lessI]])

section \<open>The errors of a response\<close>

definition topic_failed :: "rd_kafka_topic_result_t \<Rightarrow> bool" where
  "topic_failed r \<longleftrightarrow> rd_kafka_topic_result_error r \<noteq> RD_KAFKA_RESP_ERR_NO_ERROR"

definition topic_failure :: "rd_kafka_topic_result_t \<Rightarrow> rd_kafka_resp_err_t \<times> string" where
  "topic_failure r = (rd_kafka_topic_result_error r,
     ''topic['' @ rd_kafka_topic_result_name r @ ''] with error['' @ rd_kafka_topic_result_error_string r @ '']'')"

definition event_failure :: "rd_kafka_event_t \<Rightarrow> (rd_kafka_resp_err_t \<times> string) list" where
  "event_failure ev = (if rd_kafka_event_error ev = RD_KAFKA_RESP_ERR_NO_ERROR then []
     else [(rd_kafka_event_error ev, rd_kafka_event_error_string ev)])"

definition response_failures :: "rd_kafka_event_t \<Rightarrow> (rd_kafka_resp_err_t \<times> string) list" where
  \<comment> \<open>everything that went wrong with a request for topics\<close>
  "response_failures ev = event_failure ev @ map topic_failure (filter topic_failed (result_topics ev))"

definition summary_of :: "(rd_kafka_resp_err_t \<times> string) list \<Rightarrow> Error" where
  "summary_of fs = (if fs = [] then Error_message RD_KAFKA_RESP_ERR_NO_ERROR ''Success''
     else Error_message (fst (hd fs)) (join_nonempty ''; '' (map snd fs)))"

lemma error_message_of_message [simp]: "error_message L (Error_message c m) = m"
  by (simp add: error_message_def error_defs)

lemma combineErrors_eq: "combineErrors L (map (\<lambda>f. Error_message (fst f) (snd f)) fs) = summary_of fs"
proof -
  have "(\<lambda>msg err. msg @ (if msg \<noteq> [] then ''; '' else []) @ error_message L err) =
      (\<lambda>msg err. join_step ''; '' msg (error_message L err))"
    by (simp add: fun_eq_iff join_step_def)
  then have "foldl (\<lambda>msg err. msg @ (if msg \<noteq> [] then ''; '' else []) @ error_message L err) []
      (map (\<lambda>f. Error_message (fst f) (snd f)) fs) = join_nonempty ''; '' (map snd fs)"
    by (simp only: join_nonempty_def foldl_map error_message_of_message)
  then show ?thesis by (cases fs) (simp_all add: combineErrors_def summary_of_def del: foldl.simps)
qed

lemma event_errors_eq: "event_errors ev = map (\<lambda>f. Error_message (fst f) (snd f)) (event_failure ev)"
  by (simp add: event_errors_def event_failure_def)

lemma per_topic_eq:
  "getPerTopicResults rs = map (\<lambda>f. Error_message (fst f) (snd f)) (map topic_failure (filter topic_failed rs))"
  by (induction rs) (simp_all add: topic_failure_def topic_failed_def)

lemma response_errors_eq:
  "event_errors ev @ getPerTopicResults (result_topics ev) =
     map (\<lambda>f. Error_message (fst f) (snd f)) (response_failures ev)"
  by (simp add: event_errors_eq per_topic_eq response_failures_def)

lemma response_failures_fail: "f \<in> set (response_failures ev) \<Longrightarrow> fst f \<noteq> RD_KAFKA_RESP_ERR_NO_ERROR"
  by (auto simp: response_failures_def event_failure_def topic_failure_def topic_failed_def split: if_splits)

lemma summary_of_sets: "(\<And>f. f \<in> set fs \<Longrightarrow> fst f \<noteq> RD_KAFKA_RESP_ERR_NO_ERROR) \<Longrightarrow> error_set (summary_of fs) \<longleftrightarrow> fs \<noteq> []"
  by (cases fs) (simp_all add: summary_of_def error_set_def)

definition responds :: "('w, 'n) admin_api_scheme \<Rightarrow> rd_kafka_event_type_t \<Rightarrow> rd_kafka_event_t \<Rightarrow> bool" where
  \<comment> \<open>the queue delivers this event of the awaited type\<close>
  "responds A type ev \<longleftrightarrow> event_type ev = type \<and> (\<exists>w. fst (rd_kafka_queue_poll A EVENT_POLLING_INTERVAL_MS w) = Some ev)"

lemma await_response_outcome:
  fixes s' :: "('w, 'm) client_scheme"
  assumes "await_response A type until fuel s = (Inr rk_ev, s')" "type \<noteq> RD_KAFKA_EVENT_NONE"
  shows "case rk_ev of None \<Rightarrow> \<exists>w. \<not> fst (admin_steady_now A w) < until | Some ev \<Rightarrow> responds A type ev"
proof -
  let ?Q = "\<lambda>rk_ev (s :: ('w, 'm) client_scheme). case rk_ev of None \<Rightarrow> \<exists>w. \<not> fst (admin_steady_now A w) < until | Some ev \<Rightarrow> responds A type ev"
  have "triple (\<lambda>_. True) (response_body A type until) (\<lambda>r s. case r of None \<Rightarrow> True | Some x \<Rightarrow> ?Q x s) (\<lambda>_ _. False)"
  proof (rule tripleI)
    fix s :: "('w, 'm) client_scheme"
    obtain ev wa where p: "rd_kafka_queue_poll A EVENT_POLLING_INTERVAL_MS (world s) = (ev, wa)" by fastforce
    then have "rd_kafka_event_type ev = type \<Longrightarrow> \<exists>e. ev = Some e \<and> responds A type e"
      using assms(2) by (cases ev) (auto simp: rd_kafka_event_type_def responds_def intro!: exI [of _ "world s"])
    then show "case response_body A type until s of (Inl e, s') \<Rightarrow> False
        | (Inr r, s') \<Rightarrow> (case r of None \<Rightarrow> True | Some x \<Rightarrow> ?Q x s')"
      using p by (auto simp: response_body_split Let_def case_prod_unfold)
  qed
  from triple_returns [OF response.loop_triple [OF this] _ assms(1)] show ?thesis by simp
qed

lemma loops_do_not_throw:
  "fst (await_response A type until fuel s) = Inl e \<Longrightarrow> e = Out_of_fuel"
  "fst (update_metadata A until fuel s) = Inl e \<Longrightarrow> e = Out_of_fuel"
  by (induction fuel arbitrary: s) (auto simp: seqM_split listTopics_split Let_def case_prod_unfold split: if_splits)

definition config_pairs :: "Properties \<Rightarrow> (string \<times> ValueType) list \<Rightarrow> (string \<times> string) list" where
  "config_pairs config kvs =
     concat (map (\<lambda>kv. case prop_string (fst kv) config of None \<Rightarrow> [] | Some v \<Rightarrow> [(c_str (fst kv), c_str v)]) kvs)"

definition new_topics :: "int \<Rightarrow> int \<Rightarrow> Properties \<Rightarrow> Topics \<Rightarrow> rd_kafka_NewTopic_t list" where
  \<comment> \<open>the request a list of topics stands for\<close>
  "new_topics parts repl config topics = map (\<lambda>t. \<lparr>new_topic = c_str t, num_partitions = parts,
     replication_factor = repl, new_topic_config = config_pairs config config\<rparr>) topics"

lemma add_configs_cases:
  "add_configs A config kvs t = Inr (Inr (t\<lparr>new_topic_config := new_topic_config t @ config_pairs config kvs\<rparr>)) \<or>
   (\<exists>err. add_configs A config kvs t = Inr (Inl err) \<and> error_value err = RD_KAFKA_RESP_ERR__INVALID_ARG)"
proof (induction kvs arbitrary: t)
  case (Cons kv kvs)
  obtain k v where kv: "kv = (k, v)" by (cases kv)
  show ?case
  proof (cases "prop_string k config")
    case None
    then show ?thesis using Cons.IH [of t] by (simp add: kv getProperty_eq config_pairs_def)
  next
    case (Some str)
    then show ?thesis
      using Cons.IH [of "t\<lparr>new_topic_config := new_topic_config t @ [(c_str k, c_str str)]\<rparr>"]
      by (auto simp: kv getProperty_eq config_pairs_def)
  qed
qed (simp add: config_pairs_def)

lemma build_new_topics_cases:
  "build_new_topics A parts repl config topics = Inr (Inr (new_topics parts repl config topics)) \<or>
   (\<exists>err. build_new_topics A parts repl config topics = Inr (Inl err) \<and> error_value err = RD_KAFKA_RESP_ERR__INVALID_ARG)"
proof (induction topics)
  case (Cons t topics)
  then show ?case
    using add_configs_cases [of A config config "\<lparr>new_topic = c_str t, num_partitions = parts,
        replication_factor = repl, new_topic_config = []\<rparr>"]
    by (auto simp: new_topics_def)
qed (simp add: new_topics_def)

lemma admin_commands_settle:
  fixes s :: "('w, 'm) client_scheme"
  assumes "admin_clock_advances A time"
  shows "settles Out_of_fuel (\<lambda>fuel. createTopics A fuel topics parts repl config timeout) s"
    and "settles Out_of_fuel (\<lambda>fuel. deleteTopics A fuel topics timeout) s"
    and "settles Out_of_fuel (\<lambda>fuel. deleteRecords A fuel tpos timeout) s"
proof -
  note settling = settles_seqM settles_const await_response_settles [OF assms] update_metadata_settles [OF assms]
  have last: "settles Out_of_fuel (create_result A until rk_ev) s" for until rk_ev and s :: "('w, 'm) client_scheme"
    unfolding create_result_def Let_def by (intro settles_option settles_if settling) simp_all
  show "settles Out_of_fuel (\<lambda>fuel. createTopics A fuel topics parts repl config timeout) s"
    unfolding createTopics_def
    using build_new_topics_cases [of A parts repl config topics]
    by (intro settling settles_sum last) auto
  show "settles Out_of_fuel (\<lambda>fuel. deleteTopics A fuel topics timeout) s"
    unfolding deleteTopics_def by (intro settling) simp_all
  show "settles Out_of_fuel (\<lambda>fuel. deleteRecords A fuel tpos timeout) s"
    unfolding deleteRecords_def by (intro settling) simp_all
qed

lemma admin_commands_do_not_throw:
  "fst (createTopics A fuel topics parts repl config timeout s) = Inl e \<Longrightarrow> e = Out_of_fuel"
  "fst (deleteTopics A fuel topics timeout s) = Inl e \<Longrightarrow> e = Out_of_fuel"
  "fst (deleteRecords A fuel tpos timeout s) = Inl e \<Longrightarrow> e = Out_of_fuel"
  using build_new_topics_cases [of A parts repl config topics]
  by (auto simp: createTopics_def create_result_def deleteTopics_def deleteRecords_def seqM_split Let_def
      split: prod.splits sum.splits option.splits if_splits
      dest!: arg_cong [where f = fst] dest: loops_do_not_throw)

section \<open>Properties\<close>

text \<open>C19. Every command of the administrative client ends, when the clock advances, and returns an error
  object: from some amount of fuel on the outcome does not depend on it, and no exception leaves
  \<open>createTopics\<close>, \<open>deleteTopics\<close> or \<open>deleteRecords\<close>, whatever the queue delivers.\<close>

theorem admin_commands_return:
  assumes "admin_clock_advances A time"
  shows "(\<exists>n r s'. \<forall>fuel\<ge>n. createTopics A fuel topics parts repl config timeout s = (Inr r, s')) \<and>
    (\<exists>n r s'. \<forall>fuel\<ge>n. deleteTopics A fuel topics timeout s = (Inr r, s')) \<and>
    (\<exists>n r s'. \<forall>fuel\<ge>n. deleteRecords A fuel tpos timeout s = (Inr r, s'))"
  by (intro conjI; rule settles_returns; rule admin_commands_settle [OF assms] admin_commands_do_not_throw)

definition prompt_api :: "nat \<Rightarrow> rd_kafka_event_t \<Rightarrow> int admin_api" where
  \<comment> \<open>a library whose state is the clock and whose queue delivers this event at every poll; the first
     polls deliver nothing\<close>
  "prompt_api k ev = client_api.extend
     (quiet_api\<lparr>rd_kafka_metadata_call := (\<lambda>_ _ w. ((RD_KAFKA_RESP_ERR_NO_ERROR,
        \<lparr>brokers = [], metadata_topics = [], orig_broker_name = None\<rparr>), w + 1))\<rparr>)
     \<lparr>admin_steady_now = (\<lambda>w. (w, w)),
      rd_kafka_NewTopic_accepts = (\<lambda>t parts repl. t \<noteq> [] \<and> 0 < parts),
      rd_kafka_NewTopic_set_config = (\<lambda>t k v. if k = [] then RD_KAFKA_RESP_ERR__INVALID_ARG else RD_KAFKA_RESP_ERR_NO_ERROR),
      rd_kafka_CreateTopics = (\<lambda>ts w. w), rd_kafka_DeleteTopics = (\<lambda>ts w. w), rd_kafka_DeleteRecords = (\<lambda>l w. w),
      rd_kafka_queue_poll = (\<lambda>ms w. (if w < int k then None else Some ev, w + 1))\<rparr>"

lemmas prompt_defs = prompt_api_def quiet_api_def client_api.defs

definition sample_response :: "rd_kafka_event_type_t \<Rightarrow> rd_kafka_event_t" where
  "sample_response type = \<lparr>event_type = type, rd_kafka_event_error = RD_KAFKA_RESP_ERR_NO_ERROR,
     rd_kafka_event_error_string = [], result_topics = [\<lparr>rd_kafka_topic_result_error = RD_KAFKA_RESP_ERR_other 3,
       rd_kafka_topic_result_name = ''t'', rd_kafka_topic_result_error_string = ''unknown''\<rparr>], result_offsets = None\<rparr>"

theorem admin_commands_return_witness:
  "\<exists>n r s'. \<forall>fuel\<ge>n. deleteTopics (prompt_api 5 (sample_response RD_KAFKA_EVENT_DELETETOPICS_RESULT)) fuel [''t''] 1000
     (client_default 0) = (Inr r, s')"
proof -
  have "admin_clock_advances (prompt_api 5 (sample_response RD_KAFKA_EVENT_DELETETOPICS_RESULT)) (\<lambda>w. w)"
    by (simp add: admin_clock_advances_def prompt_defs)
  from admin_commands_return [OF this, where parts = 1 and repl = 1 and config = "[]" and tpos = "[]"]
  show ?thesis by blast
qed

text \<open>What a deletion reports: \<open>deleteTopics\<close> returns either the time-out error, and then the clock has
  passed the end of the time-out, or the summary of a response the queue delivered: success exactly when
  the response has no error and no topic failed, and otherwise the code of the first failure and all the
  failures' texts, in order and separated.\<close>

lemma deletion_reports_failures:
  assumes "deleteTopics A fuel topics timeout s = (Inr err, s')"
  shows "err = time_limit_error \<and> (\<exists>now w. \<not> fst (admin_steady_now A w) < deadline now timeout) \<or>
    (\<exists>ev. responds A RD_KAFKA_EVENT_DELETETOPICS_RESULT ev \<and> err = summary_of (response_failures ev) \<and>
      (error_set err \<longleftrightarrow> rd_kafka_event_error ev \<noteq> RD_KAFKA_RESP_ERR_NO_ERROR \<or> (\<exists>r \<in> set (result_topics ev). topic_failed r)))"
proof -
  define wa where "wa = rd_kafka_DeleteTopics A (map c_str topics) (world s)"
  obtain now wb where now: "admin_steady_now A wa = (now, wb)" by fastforce
  obtain rk_ev where run: "await_response A RD_KAFKA_EVENT_DELETETOPICS_RESULT (deadline now timeout) fuel (s\<lparr>world := wb\<rparr>) = (Inr rk_ev, s')"
    and err: "err = (case rk_ev of None \<Rightarrow> time_limit_error
      | Some ev \<Rightarrow> combineErrors (the_lib A) (event_errors ev @ getPerTopicResults (result_topics ev)))"
    using assms now by (auto simp: deleteTopics_def seqM_split simp flip: wa_def split: prod.splits sum.splits)
  note outcome = await_response_outcome [OF run]
  show ?thesis
  proof (cases rk_ev)
    case None
    then show ?thesis using outcome err by auto
  next
    case (Some ev)
    have "error_set (summary_of (response_failures ev)) \<longleftrightarrow> response_failures ev \<noteq> []"
      by (rule summary_of_sets) (rule response_failures_fail)
    moreover have "response_failures ev \<noteq> [] \<longleftrightarrow> rd_kafka_event_error ev \<noteq> RD_KAFKA_RESP_ERR_NO_ERROR \<or>
        (\<exists>r \<in> set (result_topics ev). topic_failed r)"
      by (auto simp: response_failures_def event_failure_def filter_empty_conv)
    ultimately show ?thesis
      using outcome err Some by (auto simp: response_errors_eq combineErrors_eq)
  qed
qed

text \<open>What a command asks of the library and what the library answers is a list of steps. An observer
  \<open>trace\<close> reads them off the library's state; that every call adds its own step is all it has to do.\<close>

datatype admin_step =
    Asked_creation "rd_kafka_NewTopic_t list"
  | Polled "rd_kafka_event_t option"
  | Read_clock int
  | Fetched_metadata rd_kafka_resp_err_t

definition admin_traced :: "('w, 'n) admin_api_scheme \<Rightarrow> ('w \<Rightarrow> admin_step list) \<Rightarrow> bool" where
  "admin_traced A trace \<longleftrightarrow>
     (\<forall>ts w. trace (rd_kafka_CreateTopics A ts w) = trace w @ [Asked_creation ts]) \<and>
     (\<forall>ms w. trace (snd (rd_kafka_queue_poll A ms w)) = trace w @ [Polled (fst (rd_kafka_queue_poll A ms w))]) \<and>
     (\<forall>w. trace (snd (admin_steady_now A w)) = trace w @ [Read_clock (fst (admin_steady_now A w))]) \<and>
     (\<forall>al ms w. trace (snd (rd_kafka_metadata_call A al ms w)) =
        trace w @ [Fetched_metadata (fst (fst (rd_kafka_metadata_call A al ms w)))])"

inductive awaited :: "rd_kafka_event_type_t \<Rightarrow> int \<Rightarrow> admin_step list \<Rightarrow> rd_kafka_event_t option \<Rightarrow> bool" where
  \<comment> \<open>the steps of a wait, with the event it ends with: the clock is read after every poll that brings
     another event or none, and the wait is given up only when it shows the end of the time-out\<close>
  arrived: "event_type ev = type \<Longrightarrow> awaited type until [Polled (Some ev)] (Some ev)"
| given_up: "rd_kafka_event_type ev \<noteq> type \<Longrightarrow> until \<le> now \<Longrightarrow> awaited type until [Polled ev, Read_clock now] None"
| polled_again: "rd_kafka_event_type ev \<noteq> type \<Longrightarrow> now < until \<Longrightarrow> awaited type until steps res \<Longrightarrow>
    awaited type until (Polled ev # Read_clock now # steps) res"

inductive refreshed :: "int \<Rightarrow> admin_step list \<Rightarrow> Error \<Rightarrow> bool" where
  \<comment> \<open>the steps of updating the metadata, with the result\<close>
  up_to_date: "refreshed until [Fetched_metadata RD_KAFKA_RESP_ERR_NO_ERROR] (Error_message RD_KAFKA_RESP_ERR_NO_ERROR ''Success'')"
| too_late: "e \<noteq> RD_KAFKA_RESP_ERR_NO_ERROR \<Longrightarrow> until \<le> now \<Longrightarrow>
    refreshed until [Fetched_metadata e, Read_clock now] (Error_message RD_KAFKA_RESP_ERR__TIMED_OUT ''Updating metadata timed out'')"
| fetched_again: "e \<noteq> RD_KAFKA_RESP_ERR_NO_ERROR \<Longrightarrow> now < until \<Longrightarrow> refreshed until steps err \<Longrightarrow>
    refreshed until (Fetched_metadata e # Read_clock now # steps) err"

lemma admin_tracedD:
  assumes "admin_traced A trace"
  shows "trace (rd_kafka_CreateTopics A ts w) = trace w @ [Asked_creation ts]"
    "rd_kafka_queue_poll A ms w = (ev, wa) \<Longrightarrow> trace wa = trace w @ [Polled ev]"
    "admin_steady_now A w = (now, wb) \<Longrightarrow> trace wb = trace w @ [Read_clock now]"
    "rd_kafka_metadata_call A al ms w = ((e, md), wc) \<Longrightarrow> trace wc = trace w @ [Fetched_metadata e]"
  using assms by (simp_all add: admin_traced_def) (metis fst_conv snd_conv)+

lemma await_response_steps:
  assumes "admin_traced A trace" "type \<noteq> RD_KAFKA_EVENT_NONE" "await_response A type until fuel s = (Inr res, s')"
  shows "\<exists>steps. trace (world s') = trace (world s) @ steps \<and> awaited type until steps res"
  using assms(3)
proof (induction fuel arbitrary: s)
  case (Suc fuel)
  obtain ev wa where p: "rd_kafka_queue_poll A EVENT_POLLING_INTERVAL_MS (world s) = (ev, wa)" by fastforce
  obtain now wb where c: "admin_steady_now A wa = (now, wb)" by fastforce
  note steps = admin_tracedD(2) [OF assms(1) p] admin_tracedD(3) [OF assms(1) c]
  show ?case
  proof (cases "rd_kafka_event_type ev = type")
    case True
    then obtain e where "ev = Some e" "event_type e = type"
      using assms(2) by (cases ev) (auto simp: rd_kafka_event_type_def)
    then show ?thesis using Suc.prems p True steps by (auto simp: seqM_split intro: arrived)
  next
    case False
    show ?thesis
    proof (cases "now < until")
      case True
      then have "await_response A type until fuel (s\<lparr>world := wb\<rparr>) = (Inr res, s')"
        using Suc.prems p c False by (simp add: seqM_split)
      from Suc.IH [OF this] obtain st where "trace (world s') = trace wb @ st" "awaited type until st res" by auto
      then show ?thesis using steps polled_again [OF False True]
        by (intro exI [of _ "Polled ev # Read_clock now # st"]) simp
    next
      case late: False
      then show ?thesis using Suc.prems p c False steps given_up [OF False, of until now] by (auto simp: seqM_split)
    qed
  qed
qed simp

lemma update_metadata_steps:
  assumes "admin_traced A trace" "update_metadata A until fuel s = (Inr err, s')"
  shows "\<exists>steps. trace (world s') = trace (world s) @ steps \<and> refreshed until steps err"
  using assms(2)
proof (induction fuel arbitrary: s)
  case (Suc fuel)
  obtain e md wa where p: "rd_kafka_metadata_call A True (convertMsDurationToInt DEFAULT_COMMAND_TIMEOUT_MS) (world s) = ((e, md), wa)"
    by (metis prod.exhaust)
  obtain now wb where c: "admin_steady_now A wa = (now, wb)" by fastforce
  note steps = admin_tracedD(4) [OF assms(1) p] admin_tracedD(3) [OF assms(1) c]
  show ?case
  proof (cases "e = RD_KAFKA_RESP_ERR_NO_ERROR")
    case True
    then show ?thesis using Suc.prems p steps by (auto simp: seqM_split listTopics_split error_set_def intro: up_to_date)
  next
    case False
    show ?thesis
    proof (cases "now < until")
      case True
      then have "update_metadata A until fuel (s\<lparr>world := wb\<rparr>) = (Inr err, s')"
        using Suc.prems p c False by (simp add: seqM_split listTopics_split error_set_def)
      from Suc.IH [OF this] obtain st where "trace (world s') = trace wb @ st" "refreshed until st err" by auto
      then show ?thesis using steps fetched_again [OF False True]
        by (intro exI [of _ "Fetched_metadata e # Read_clock now # st"]) simp
    next
      case late: False
      then show ?thesis using Suc.prems p c False steps too_late [OF False, of until now]
        by (auto simp: seqM_split listTopics_split error_set_def)
    qed
  qed
qed simp

text \<open>C20. Creating topics: a topic or a setting the library refuses ends the command with an invalid
  argument before anything is asked of the library. Otherwise the command sends exactly one request, for
  one new topic per name in the order of the set, with the numbers of partitions and replicas and all the
  string properties of the configuration, and then reads the clock for the end of the time-out. The
  time-out error is returned exactly when no result of a creation arrived and the clock, read after the last
  poll, shows the end; a result with failures gives their summary, and no metadata are requested; a result
  without failures is followed by metadata requests, until one succeeds, which is success, or one fails
  and the clock shows the end.\<close>

theorem creation_outcome:
  assumes "admin_traced A trace"
    and "createTopics A fuel topics parts repl config timeout s = (Inr err, s')"
  shows "(build_new_topics A parts repl config topics = Inr (Inl err) \<and> error_value err = RD_KAFKA_RESP_ERR__INVALID_ARG \<and> s' = s) \<or>
    (\<exists>start steps res more.
      build_new_topics A parts repl config topics = Inr (Inr (new_topics parts repl config topics)) \<and>
      trace (world s') = trace (world s) @
        [Asked_creation (new_topics parts repl config topics), Read_clock start] @ steps @ more \<and>
      awaited RD_KAFKA_EVENT_CREATETOPICS_RESULT (deadline start timeout) steps res \<and>
      (case res of
         None \<Rightarrow> more = [] \<and> err = time_limit_error
       | Some ev \<Rightarrow>
           if response_failures ev \<noteq> []
           then more = [] \<and> error_set err \<and> err = summary_of (response_failures ev)
           else refreshed (deadline start timeout) more err))"
  using build_new_topics_cases [of A parts repl config topics]
proof
  assume built: "build_new_topics A parts repl config topics = Inr (Inr (new_topics parts repl config topics))"
  define wa where "wa = rd_kafka_CreateTopics A (new_topics parts repl config topics) (world s)"
  obtain start wb where now: "admin_steady_now A wa = (start, wb)" by fastforce
  define until where "until = deadline start timeout"
  let ?wait = "await_response A RD_KAFKA_EVENT_CREATETOPICS_RESULT until fuel (s\<lparr>world := wb\<rparr>)"
  obtain res s1 where run: "?wait = (Inr res, s1)" and rest: "create_result A until res fuel s1 = (Inr err, s')"
    using assms(2) now built by (auto simp: createTopics_def seqM_split simp flip: wa_def until_def split: prod.splits sum.splits)
  have sent: "trace wb = trace (world s) @ [Asked_creation (new_topics parts repl config topics), Read_clock start]"
    using admin_tracedD(1) [OF assms(1)] admin_tracedD(3) [OF assms(1) now] by (simp add: wa_def)
  obtain steps where waited: "trace (world s1) = trace wb @ steps"
      "awaited RD_KAFKA_EVENT_CREATETOPICS_RESULT until steps res"
    using await_response_steps [OF assms(1) _ run] by auto
  obtain more where "trace (world s') = trace (world s1) @ more \<and> (case res of
         None \<Rightarrow> more = [] \<and> err = time_limit_error
       | Some ev \<Rightarrow>
           if response_failures ev \<noteq> []
           then more = [] \<and> error_set err \<and> err = summary_of (response_failures ev)
           else refreshed until more err)"
  proof (cases res)
    case None
    then show ?thesis using rest that [of "[]"] by (simp add: create_result_def)
  next
    case (Some ev)
    have "error_set (summary_of (response_failures ev)) \<longleftrightarrow> response_failures ev \<noteq> []"
      by (rule summary_of_sets) (rule response_failures_fail)
    then show ?thesis using rest Some that update_metadata_steps [OF assms(1), of until fuel s1 err s']
      by (auto simp: create_result_def response_errors_eq combineErrors_eq Let_def split: if_splits)
  qed
  then show ?thesis using built sent waited unfolding until_def
    by - (rule disjI2, rule exI [of _ start], rule exI [of _ steps], rule exI [of _ res],
        rule exI [of _ more], simp)
qed (use assms in \<open>auto simp: createTopics_def\<close>)

definition traced_api :: "nat \<Rightarrow> rd_kafka_event_t \<Rightarrow> admin_step list admin_api" where
  \<comment> \<open>a library whose state is what it was asked; its clock shows a hundred milliseconds more with every step\<close>
  "traced_api k ev = client_api.extend
     (quiet_api\<lparr>rd_kafka_metadata_call := (\<lambda>_ _ w.
        let e = (if length w < 8 then RD_KAFKA_RESP_ERR_other 5 else RD_KAFKA_RESP_ERR_NO_ERROR)
        in ((e, \<lparr>brokers = [], metadata_topics = [], orig_broker_name = None\<rparr>), w @ [Fetched_metadata e]))\<rparr>)
     \<lparr>admin_steady_now = (\<lambda>w. (100000000 * int (length w), w @ [Read_clock (100000000 * int (length w))])),
      rd_kafka_NewTopic_accepts = (\<lambda>t parts repl. t \<noteq> [] \<and> 0 < parts),
      rd_kafka_NewTopic_set_config = (\<lambda>t k v. if k = [] then RD_KAFKA_RESP_ERR__INVALID_ARG else RD_KAFKA_RESP_ERR_NO_ERROR),
      rd_kafka_CreateTopics = (\<lambda>ts w. w @ [Asked_creation ts]), rd_kafka_DeleteTopics = (\<lambda>ts w. w), rd_kafka_DeleteRecords = (\<lambda>l w. w),
      rd_kafka_queue_poll = (\<lambda>ms w. let r = (if length w < k then None else Some ev) in (r, w @ [Polled r]))\<rparr>"

definition created :: rd_kafka_event_t where
  "created = sample_response RD_KAFKA_EVENT_CREATETOPICS_RESULT\<lparr>result_topics := []\<rparr>"

theorem creation_outcome_witness:
  "\<exists>s' start steps ev more. createTopics (traced_api 4 created) 5 [''a'', ''b''] 3 2 [] 5000 (client_default []) =
      (Inr (Error_message RD_KAFKA_RESP_ERR_NO_ERROR ''Success''), s') \<and>
     world s' = [Asked_creation (new_topics 3 2 [] [''a'', ''b'']), Read_clock start] @ steps @ more \<and>
     awaited RD_KAFKA_EVENT_CREATETOPICS_RESULT (deadline start 5000) steps (Some ev) \<and>
     refreshed (deadline start 5000) more (Error_message RD_KAFKA_RESP_ERR_NO_ERROR ''Success'')"
proof -
  let ?A = "traced_api 4 created" and ?ok = "Error_message RD_KAFKA_RESP_ERR_NO_ERROR ''Success''"
  let ?r = "createTopics ?A 5 [''a'', ''b''] 3 2 [] 5000 (client_default [])"
  have "fst ?r = Inr ?ok" by code_simp
  then have run: "?r = (Inr ?ok, snd ?r)" by (simp add: prod_eq_iff)
  have traced: "admin_traced ?A (\<lambda>w. w)"
    by (simp add: admin_traced_def traced_api_def quiet_api_def client_api.defs Let_def)
  have built: "build_new_topics ?A 3 2 [] [''a'', ''b''] = Inr (Inr (new_topics 3 2 [] [''a'', ''b'']))" by code_simp
  have ok: "?ok \<noteq> time_limit_error" "\<not> error_set ?ok" by (simp_all add: time_limit_error_def error_defs error_set_def)
  from creation_outcome [OF traced run] built obtain start steps res more where
      "world (snd ?r) = [Asked_creation (new_topics 3 2 [] [''a'', ''b'']), Read_clock start] @ steps @ more"
      "awaited RD_KAFKA_EVENT_CREATETOPICS_RESULT (deadline start 5000) steps res"
      "case res of None \<Rightarrow> more = [] \<and> ?ok = time_limit_error
       | Some ev \<Rightarrow> if response_failures ev \<noteq> [] then more = [] \<and> error_set ?ok \<and> ?ok = summary_of (response_failures ev)
           else refreshed (deadline start 5000) more ?ok"
    by (auto simp: client_default_def client.defs)
  with ok have "\<exists>ev. res = Some ev \<and> refreshed (deadline start 5000) more ?ok"
    by (auto split: option.splits if_splits)
  with \<open>world (snd ?r) = _\<close> \<open>awaited _ _ steps res\<close> run show ?thesis by blast
qed

end
