(* ===== verification/Kafka_Metrics.thy ===== *)
theory Kafka_Metrics
  imports Kafka_Types
begin

text \<open>
  \<open>addons/KafkaMetrics.h\<close>: queries over the statistics of the library, a JSON document. The parser
  is the parameter \<open>parse\<close>; the document is the tree it returns, with the members of an object in the
  order of the text. A number is an integer of 64 bits or, as \<open>JReal\<close>, anything else.
\<close>

section \<open>Documents\<close>

datatype json =
    JNull
  | JBool bool
  | JInteger int
  | JReal string
  | JString string
  | JArray "json list"
  | JObject "(string \<times> json) list"

type_synonym KeysType = "string list"

type_synonym 'v ResultsType = "(KeysType \<times> 'v) list"

definition WILDCARD :: string where
  "WILDCARD = ''*''"

definition construct_metrics :: "(string \<Rightarrow> json option) \<Rightarrow> string \<Rightarrow> std_exn + json" where
  \<comment> \<open>\<open>ParseInsitu\<close> reads a C string\<close>
  "construct_metrics parse jsonMetrics =
     (case parse (c_str jsonMetrics) of
        None \<Rightarrow> Inl (Runtime_error ''Failed to parse string with JSON format!'')
      | Some doc \<Rightarrow> Inr doc)"

fun FindMember :: "string \<Rightarrow> (string \<times> json) list \<Rightarrow> json option" where
  \<comment> \<open>the first member with the name\<close>
  "FindMember name [] = None"
| "FindMember name ((n, v) # ms) = (if n = name then Some v else FindMember name ms)"

definition int_value :: "json \<Rightarrow> int option" where
  \<comment> \<open>\<open>GetInt\<close> where \<open>IsInt\<close>: integers of 32 bits\<close>
  "int_value v = (case v of JInteger i \<Rightarrow> if - (2 ^ 31) \<le> i \<and> i < 2 ^ 31 then Some i else None | _ \<Rightarrow> None)"

definition string_value :: "json \<Rightarrow> string option" where
  \<comment> \<open>\<open>GetString\<close> where \<open>IsString\<close>\<close>
  "string_value v = (case v of JString s \<Rightarrow> Some (c_str s) | _ \<Rightarrow> None)"

section \<open>Queries\<close>

text \<open>\<open>value\<close> is \<open>int_value\<close> or \<open>string_value\<close>, the choice of \<open>ValueType\<close>.\<close>

fun getResults ::
  "(json \<Rightarrow> 'v option) \<Rightarrow> 'v ResultsType \<Rightarrow> KeysType \<Rightarrow> json \<Rightarrow> KeysType \<Rightarrow> std_exn + 'v ResultsType" where
  "getResults value results keysForWildcards v [] =
     (case v of
        JObject members \<Rightarrow> Inl (Undefined_behaviour ''no key left'')
      | _ \<Rightarrow> Inr results)"
| "getResults value results keysForWildcards v (key # keysToParse) =
     (case v of
        JObject members \<Rightarrow>
          if key = WILDCARD then
            fold (\<lambda>member res. case res of
                Inl e \<Rightarrow> Inl e
              | Inr rs \<Rightarrow> getResults value rs (keysForWildcards @ [c_str (fst member)]) (snd member) keysToParse)
              members (Inr results)
          else (case FindMember (c_str key) members of
              None \<Rightarrow> Inr results
            | Some sub \<Rightarrow>
                if keysToParse \<noteq> [] then getResults value results keysForWildcards sub keysToParse
                else (case value sub of
                    None \<Rightarrow> Inr results
                  | Some x \<Rightarrow> Inr (results @ [(keysForWildcards, x)])))
      | _ \<Rightarrow> Inr results)"

definition metrics_get :: "(json \<Rightarrow> 'v option) \<Rightarrow> json \<Rightarrow> KeysType \<Rightarrow> std_exn + 'v ResultsType" where
  "metrics_get value doc keys =
     (if keys = [] then Inl (Invalid_argument ''Input keys cannot be empty!'')
      else if hd keys = WILDCARD then Inl (Invalid_argument ''The first key cannot be wildcard!'')
      else if last keys = WILDCARD then Inl (Invalid_argument ''The last key cannot be wildcard!'')
      else (case doc of
          JObject members \<Rightarrow>
            (case FindMember (c_str (hd keys)) members of
               None \<Rightarrow> Inr []
             | Some v \<Rightarrow>
                 if length keys = 1 then Inr (case value v of None \<Rightarrow> [] | Some x \<Rightarrow> [([], x)])
                 else getResults value [] [] v (tl keys))
        | _ \<Rightarrow> Inl (Undefined_behaviour ''FindMember of no object'')))"

definition getInt :: "json \<Rightarrow> KeysType \<Rightarrow> std_exn + int ResultsType" where
  "getInt = metrics_get int_value"

definition getString :: "json \<Rightarrow> KeysType \<Rightarrow> std_exn + string ResultsType" where
  "getString = metrics_get string_value"

section \<open>Printing\<close>

definition quoted :: "string \<Rightarrow> string" where
  "quoted s = CHR 0x22 # s @ [CHR 0x22]"

definition keys_toString :: "KeysType \<Rightarrow> string" where
  "keys_toString keys = foldl (\<lambda>acc key. acc @ (if acc = [] then [] else '', '') @ quoted key) [] keys"

definition printed_result :: "('v \<Rightarrow> string) \<Rightarrow> KeysType \<times> 'v \<Rightarrow> string" where
  "printed_result print r =
     (let keysString = keys_toString (fst r)
      in (if keysString = [] then [] else ''['' @ keysString @ '']:'') @ print (snd r))"

definition results_toString :: "('v \<Rightarrow> string) \<Rightarrow> 'v ResultsType \<Rightarrow> string" where
  \<comment> \<open>\<open>print\<close> is \<open>show_int\<close> or \<open>quoted\<close>\<close>
  "results_toString print results =
     fst (foldl (\<lambda>(out, isTheFirstOne) r.
         (out @ (if isTheFirstOne then [] else '', '') @ printed_result print r, False)) ([], True) results)"

section \<open>Paths\<close>

text \<open>
  What a query means: \<open>json_path v keys ws u\<close> when following \<open>keys\<close> from \<open>v\<close> leads to \<open>u\<close>, where the
  wildcards stand for the names \<open>ws\<close>.
\<close>

inductive json_path :: "json \<Rightarrow> KeysType \<Rightarrow> KeysType \<Rightarrow> json \<Rightarrow> bool" where
  here: "json_path v [] [] v"
| named: "key \<noteq> WILDCARD \<Longrightarrow> FindMember (c_str key) ms = Some u \<Longrightarrow> json_path u keys ws v \<Longrightarrow>
    json_path (JObject ms) (key # keys) ws v"
| wild: "(n, u) \<in> set ms \<Longrightarrow> json_path u keys ws v \<Longrightarrow>
    json_path (JObject ms) (WILDCARD # keys) (c_str n # ws) v"

inductive_simps json_path_Nil [simp]: "json_path v [] ws u"

fun walk :: "json \<Rightarrow> KeysType \<Rightarrow> (KeysType \<times> json) list" where
  \<comment> \<open>the paths in the order of the document\<close>
  "walk v [] = [([], v)]"
| "walk v (key # keys) =
     (case v of
        JObject ms \<Rightarrow>
          if key = WILDCARD then concat (map (\<lambda>m. map (\<lambda>(ws, u). (c_str (fst m) # ws, u)) (walk (snd m) keys)) ms)
          else (case FindMember (c_str key) ms of None \<Rightarrow> [] | Some u \<Rightarrow> walk u keys)
      | _ \<Rightarrow> [])"

lemma walk_wild:
  "(ws, u) \<in> set (concat (map (\<lambda>m. map (\<lambda>(ws, u). (c_str (fst m) # ws, u)) (walk (snd m) keys)) ms)) \<longleftrightarrow>
    (\<exists>n m ws'. (n, m) \<in> set ms \<and> ws = c_str n # ws' \<and> (ws', u) \<in> set (walk m keys))"
proof -
  have one: "(ws, u) \<in> set (map (\<lambda>(ws, u). (n # ws, u)) ps) \<longleftrightarrow> (\<exists>ws'. ws = n # ws' \<and> (ws', u) \<in> set ps)" for n ps
    by (induction ps) auto
  show ?thesis by (simp only: set_concat set_map [of _ ms] image_image UN_iff one) force
qed

lemma walk_path: "(ws, u) \<in> set (walk v keys) \<longleftrightarrow> json_path v keys ws u"
proof (induction keys arbitrary: v ws)
  case (Cons key keys)
  have step: "json_path v (key # keys) ws u \<longleftrightarrow> (\<exists>ms. v = JObject ms \<and>
      (if key = WILDCARD then \<exists>n m ws'. (n, m) \<in> set ms \<and> ws = c_str n # ws' \<and> json_path m keys ws' u
       else \<exists>m. FindMember (c_str key) ms = Some m \<and> json_path m keys ws u))" for v ws
    by (subst json_path.simps) auto
  show ?case
  proof (cases v)
    case (JObject ms)
    have "(ws, u) \<in> set (walk v (key # keys)) \<longleftrightarrow>
        (if key = WILDCARD then \<exists>n m ws'. (n, m) \<in> set ms \<and> ws = c_str n # ws' \<and> (ws', u) \<in> set (walk m keys)
         else \<exists>m. FindMember (c_str key) ms = Some m \<and> (ws, u) \<in> set (walk m keys))"
    proof (cases "key = WILDCARD")
      case True
      then show ?thesis using walk_wild [of ws u keys ms] by (simp only: JObject walk.simps json.case if_True simp_thms)
    next
      case False
      then show ?thesis by (cases "FindMember (c_str key) ms") (simp_all add: JObject)
    qed
    then show ?thesis by (simp add: step Cons.IH JObject)
  qed (simp_all add: step)
qed auto

lemma walk_wildcards: "(ws, u) \<in> set (walk v keys) \<Longrightarrow> length ws = count_list keys WILDCARD"
proof -
  have "json_path v keys ws u \<Longrightarrow> length ws = count_list keys WILDCARD"
    by (induction rule: json_path.induct) auto
  then show "(ws, u) \<in> set (walk v keys) \<Longrightarrow> ?thesis" by (simp add: walk_path)
qed

definition picked :: "(json \<Rightarrow> 'v option) \<Rightarrow> KeysType \<Rightarrow> (KeysType \<times> json) list \<Rightarrow> 'v ResultsType" where
  "picked value ws ps = concat (map (\<lambda>(us, u). case value u of None \<Rightarrow> [] | Some x \<Rightarrow> [(ws @ us, x)]) ps)"

lemma picked_simps [simp]:
  "picked value ws [] = []" "picked value ws (ps @ qs) = picked value ws ps @ picked value ws qs"
  "picked value ws [([], u)] = (case value u of None \<Rightarrow> [] | Some x \<Rightarrow> [(ws, x)])"
  by (simp_all add: picked_def split: option.split)

lemma picked_deeper: "picked value ws (map (\<lambda>(us, u). (n # us, u)) ps) = picked value (ws @ [n]) ps"
  by (induction ps) (simp_all add: picked_def case_prod_unfold split: option.split)

lemma set_picked: "(ks, x) \<in> set (picked value [] ps) \<longleftrightarrow> (\<exists>u. (ks, u) \<in> set ps \<and> value u = Some x)"
  by (force simp: picked_def split: option.splits prod.splits)

lemma getResults_walk:
  "keys \<noteq> [] \<Longrightarrow> last keys \<noteq> WILDCARD \<Longrightarrow>
    getResults value results ws v keys = Inr (results @ picked value ws (walk v keys))"
proof (induction keys arbitrary: results ws v)
  case (Cons key keys)
  show ?case
  proof (cases v)
    case (JObject ms)
    show ?thesis
    proof (cases "key = WILDCARD")
      case True
      with Cons.prems have keys: "keys \<noteq> []" "last keys \<noteq> WILDCARD" by (auto split: if_splits)
      have "fold (\<lambda>member res. case res of Inl e \<Rightarrow> Inl e
              | Inr rs \<Rightarrow> getResults value rs (ws @ [c_str (fst member)]) (snd member) keys) ms (Inr results) =
          Inr (results @ picked value ws (concat (map (\<lambda>m. map (\<lambda>(us, u). (c_str (fst m) # us, u)) (walk (snd m) keys)) ms)))"
        by (induction ms arbitrary: results) (simp_all add: Cons.IH [OF keys] picked_deeper)
      with True JObject show ?thesis by simp
    next
      case False
      with JObject Cons.prems Cons.IH show ?thesis
        by (cases "keys = []") (auto split: option.split)
    qed
  qed simp_all
qed simp

lemma metrics_get_walk:
  assumes "keys \<noteq> []" "hd keys \<noteq> WILDCARD" "last keys \<noteq> WILDCARD"
  shows "metrics_get value (JObject ms) keys = Inr (picked value [] (walk (JObject ms) keys))"
proof (cases keys)
  case (Cons key rest)
  with assms show ?thesis
    by (cases "rest = []") (auto simp: metrics_get_def getResults_walk split: option.split)
qed (use assms in simp)

section \<open>The printed form\<close>

lemma keys_toString_eq: "keys_toString keys = intercalate '', '' (map quoted keys)"
proof -
  have "keys_toString keys = join_nonempty '', '' (map quoted keys)"
    by (simp add: keys_toString_def join_nonempty_def foldl_map join_step_def)
  then show ?thesis by (subst (asm) join_nonempty_eq) (auto simp: quoted_def)
qed

lemma keys_toString_empty [simp]: "keys_toString keys = [] \<longleftrightarrow> keys = []"
  by (cases keys rule: remdups_adj.cases) (simp_all add: keys_toString_eq quoted_def)

lemma foldl_separated:
  "fst (foldl (\<lambda>(out, isTheFirstOne) r. (out @ (if isTheFirstOne then [] else sep) @ f r, False)) (out, False) rs) =
    intercalate sep (out # map f rs)"
proof (induction rs arbitrary: out)
  case (Cons r rs)
  have "intercalate sep ((out @ sep @ f r) # map f rs) = intercalate sep (out # map f (r # rs))"
    by (cases rs) simp_all
  with Cons.IH [of "out @ sep @ f r"] show ?case by simp
qed simp

lemma results_toString_eq: "results_toString print results = intercalate '', '' (map (printed_result print) results)"
  by (cases results) (simp_all add: results_toString_def foldl_separated)

lemma printed_result_eq:
  "printed_result print (keys, x) =
    (if keys = [] then [] else ''['' @ intercalate '', '' (map quoted keys) @ '']:'') @ print x"
proof -
  have "(keys_toString keys = []) = (keys = [])" by simp
  then show ?thesis by (simp add: printed_result_def Let_def del: keys_toString_empty) (simp add: keys_toString_eq)
qed

section \<open>Properties\<close>

lemma getInt_skips_wide_integers:
  assumes "key \<noteq> WILDCARD" "i < - (2 ^ 31) \<or> 2 ^ 31 \<le> i" "no_nul key"
  shows "getInt (JObject [(key, JInteger i)]) [key] = Inr []"
  using assms by (auto simp: getInt_def metrics_get_def int_value_def)

text \<open>C33. A query with keys that do not begin or end with a wildcard finds exactly the values at the paths of
  the document that match the keys, in the order of the document, each with the names its wildcards stand
  for: as many as there are wildcards.\<close>

theorem metrics_query_paths:
  assumes "keys \<noteq> []" "hd keys \<noteq> WILDCARD" "last keys \<noteq> WILDCARD"
  shows "\<exists>rs. metrics_get value (JObject ms) keys = Inr rs \<and>
    rs = picked value [] (walk (JObject ms) keys) \<and>
    (\<forall>ks x. (ks, x) \<in> set rs \<longleftrightarrow> (\<exists>u. json_path (JObject ms) keys ks u \<and> value u = Some x)) \<and>
    (\<forall>(ks, x) \<in> set rs. length ks = count_list keys WILDCARD)"
proof -
  have "length ks = count_list keys WILDCARD" if "(ks, x) \<in> set (picked value [] (walk (JObject ms) keys))" for ks x
    using that walk_wildcards unfolding set_picked by blast
  then show ?thesis
    by (intro exI [of _ "picked value [] (walk (JObject ms) keys)"])
      (auto simp: metrics_get_walk [OF assms] set_picked walk_path)
qed

theorem metrics_query_paths_witness:
  "getInt (JObject [(''brokers'', JObject [(''b1'', JObject [(''tx'', JInteger 5)]), (''b2'', JObject [(''tx'', JInteger 8)])])])
     [''brokers'', ''*'', ''tx''] = Inr [([''b1''], 5), ([''b2''], 8)] \<and>
   json_path (JObject [(''brokers'', JObject [(''b1'', JObject [(''tx'', JInteger 5)]), (''b2'', JObject [(''tx'', JInteger 8)])])])
     [''brokers'', ''*'', ''tx''] [''b2''] (JInteger 8)"
proof -
  let ?ms = "[(''brokers'', JObject [(''b1'', JObject [(''tx'', JInteger 5)]), (''b2'', JObject [(''tx'', JInteger 8)])])]"
  let ?keys = "[''brokers'', ''*'', ''tx'']"
  have run: "metrics_get int_value (JObject ?ms) ?keys = Inr [([''b1''], 5), ([''b2''], 8)]" by code_simp
  obtain u where "json_path (JObject ?ms) ?keys [''b2''] u" "int_value u = Some 8"
    using metrics_query_paths [of ?keys int_value ?ms] by (auto simp: WILDCARD_def run)
  moreover from this(2) have "u = JInteger 8" by (auto simp: int_value_def split: json.splits if_splits)
  ultimately show ?thesis using run by (simp add: getInt_def)
qed

text \<open>What a query refuses: no key at all, a wildcard as the first or as the last key, each with its own
  message; only a document that is no object leads to undefined behaviour.\<close>

lemma metrics_query_refusals:
  "metrics_get value doc keys = Inl e \<longleftrightarrow>
    (if keys = [] then e = Invalid_argument ''Input keys cannot be empty!''
     else if hd keys = WILDCARD then e = Invalid_argument ''The first key cannot be wildcard!''
     else if last keys = WILDCARD then e = Invalid_argument ''The last key cannot be wildcard!''
     else (\<nexists>ms. doc = JObject ms) \<and> e = Undefined_behaviour ''FindMember of no object'')"
proof (cases "keys = [] \<or> hd keys = WILDCARD \<or> last keys = WILDCARD")
  case False
  then show ?thesis
    by (cases doc) (auto simp: metrics_get_walk, auto simp: metrics_get_def)
qed (auto simp: metrics_get_def)

end
