(* ===== verification/Utility.thy ===== *)
theory Utility
  imports Kafka_Types
begin

text \<open>
  \<open>Utility.h\<close>: local times, random strings and what the library says of itself. Time points are
  nanoseconds since the epoch. \<open>localtime_r\<close> with \<open>put_time(.., "%F %T")\<close> is a parameter, a function
  of the seconds; the clock and the random generator give the other arguments.
\<close>

section \<open>Local time\<close>

definition c_quot :: "int \<Rightarrow> int \<Rightarrow> int" where
  \<comment> \<open>division that truncates towards zero, of \<open>duration_cast\<close>\<close>
  "c_quot a b = sgn a * (\<bar>a\<bar> div \<bar>b\<bar>)"

definition getLocalTimeString :: "(int \<Rightarrow> string) \<Rightarrow> int \<Rightarrow> string" where
  "getLocalTimeString localSeconds timePoint =
     localSeconds (c_quot timePoint 1000000000) @ ''.'' @
     pad_left 6 CHR ''0'' (show_int (c_mod (c_quot timePoint 1000) 1000000))"

definition getCurrentTime :: "(int \<Rightarrow> string) \<Rightarrow> ('w \<Rightarrow> int \<times> 'w) \<Rightarrow> 'w \<Rightarrow> string \<times> 'w" where
  "getCurrentTime localSeconds now w = (case now w of (t, w') \<Rightarrow> (getLocalTimeString localSeconds t, w'))"

definition timestamp_seconds :: "(int \<Rightarrow> string) \<Rightarrow> int \<Rightarrow> string" where
  \<comment> \<open>the parameter of the printing of time stamps, which are milliseconds\<close>
  "timestamp_seconds localSeconds ms = localSeconds (c_quot ms 1000)"

section \<open>Random strings\<close>

fun show_hex :: "nat \<Rightarrow> string" where
  "show_hex n = (if n < 16 then [hex_digit n] else show_hex (n div 16) @ [hex_digit (n mod 16)])"

declare show_hex.simps [simp del]

definition getRandomString :: "int \<Rightarrow> nat \<Rightarrow> string" where
  \<comment> \<open>\<open>now\<close> is the clock, \<open>rand\<close> the number drawn from \<open>[0, 0xFFFFFFFF]\<close>; \<open>setw\<close> holds for the next output only\<close>
  "getRandomString now rand =
     pad_left 8 CHR ''0'' (show_hex (nat (now mod 2 ^ 32))) @ ''-'' @ show_hex rand"

section \<open>The library\<close>

definition getLibRdKafkaVersion :: "('w \<Rightarrow> string) \<Rightarrow> 'w \<Rightarrow> string" where
  "getLibRdKafkaVersion rd_kafka_version_str w = rd_kafka_version_str w"

definition getLibRdKafkaThreadCount :: "('w \<Rightarrow> int) \<Rightarrow> 'w \<Rightarrow> int" where
  "getLibRdKafkaThreadCount rd_kafka_thread_cnt w = rd_kafka_thread_cnt w"

section \<open>What random strings distinguish\<close>

definition hex_value :: "char \<Rightarrow> nat" where
  "hex_value c = (if is_digit c then digit_value c else of_char c - 87)"

definition hexes_value :: "string \<Rightarrow> nat" where
  "hexes_value ds = foldl (\<lambda>acc c. acc * 16 + hex_value c) 0 ds"

lemma hex_letter: "10 \<le> d \<Longrightarrow> d < 16 \<Longrightarrow> of_char (hex_digit d) = 87 + d"
  by (simp add: hex_digit_def)

lemma hex_digit_value [simp]:
  assumes "d < 16"
  shows "hex_value (hex_digit d) = d"
proof (cases "d < 10")
  case True
  then show ?thesis by (simp add: hex_digit_def hex_value_def)
next
  case False
  then show ?thesis using assms hex_letter [of d] by (simp add: hex_value_def is_digit_def)
qed

lemma hex_digit_not_dash [simp]:
  assumes "d < 16"
  shows "hex_digit d \<noteq> CHR ''-''"
proof (cases "d < 10")
  case True
  then show ?thesis using digit_not_sign [OF is_digit_char [OF True]] by (simp add: hex_digit_def)
next
  case False
  show ?thesis
  proof
    assume "hex_digit d = CHR ''-''"
    then have "of_char (hex_digit d) = (45::nat)" by simp
    then show False using False assms hex_letter [of d] by simp
  qed
qed

lemma hexes_value_snoc: "hexes_value (ds @ [c]) = hexes_value ds * 16 + hex_value c"
  by (simp add: hexes_value_def)

lemma hexes_value_show [simp]: "hexes_value (show_hex n) = n"
  by (induction n rule: show_hex.induct)
    (subst show_hex.simps, auto simp: hexes_value_snoc, simp add: hexes_value_def)

lemma show_hex_no_dash: "CHR ''-'' \<notin> set (show_hex n)"
proof (induction n rule: show_hex.induct)
  case (1 n)
  show ?case using 1 hex_digit_not_dash [of n] hex_digit_not_dash [of "n mod 16"]
    by (subst show_hex.simps) (auto simp del: hex_digit_not_dash)
qed

lemma hexes_value_zero: "hexes_value (CHR ''0'' # ds) = hexes_value ds"
  by (simp add: hexes_value_def hex_value_def is_digit_def digit_value_def)

lemma hexes_value_padded [simp]: "hexes_value (pad_left k CHR ''0'' ds) = hexes_value ds"
proof -
  have "hexes_value (replicate m CHR ''0'' @ ds) = hexes_value ds" for m
    by (induction m) (simp_all add: hexes_value_zero)
  then show ?thesis by (simp add: pad_left_def)
qed

text \<open>
  Two random strings are equal only for the same number at the same low 32 bits of the clock, and
  the string shows both.
\<close>

lemma getRandomString_parts:
  "hexes_value (takeWhile (\<lambda>c. c \<noteq> CHR ''-'') (getRandomString now rand)) = nat (now mod 2 ^ 32) \<and>
   hexes_value (drop 1 (dropWhile (\<lambda>c. c \<noteq> CHR ''-'') (getRandomString now rand))) = rand"
proof -
  define stamp where "stamp = pad_left 8 CHR ''0'' (show_hex (nat (now mod 2 ^ 32)))"
  have no_dash: "\<And>c. c \<in> set stamp \<Longrightarrow> c \<noteq> CHR ''-''"
    using show_hex_no_dash by (auto simp: stamp_def pad_left_def)
  have "getRandomString now rand = stamp @ CHR ''-'' # show_hex rand"
    by (simp add: getRandomString_def stamp_def)
  then have "takeWhile (\<lambda>c. c \<noteq> CHR ''-'') (getRandomString now rand) = stamp"
    "dropWhile (\<lambda>c. c \<noteq> CHR ''-'') (getRandomString now rand) = CHR ''-'' # show_hex rand"
    using no_dash by (simp_all add: takeWhile_append2 dropWhile_append2)
  then show ?thesis by (simp add: stamp_def)
qed

lemma getRandomString_inject:
  "getRandomString now rand = getRandomString now' rand' \<longleftrightarrow> now mod 2 ^ 32 = now' mod 2 ^ 32 \<and> rand = rand'"
proof
  assume "getRandomString now rand = getRandomString now' rand'"
  with getRandomString_parts [of now rand] getRandomString_parts [of now' rand']
  have "nat (now mod 2 ^ 32) = nat (now' mod 2 ^ 32)" "rand = rand'" by simp_all
  then show "now mod 2 ^ 32 = now' mod 2 ^ 32 \<and> rand = rand'" by (simp add: eq_nat_nat_iff)
qed (simp add: getRandomString_def)

end
