(* ===== verification/Program_Scopes.thy ===== *)
theory Program_Scopes
  imports Kafka_Consumer Kafka_Producer Utility
begin

text \<open>
  What the programs under \<open>src/tools\<close> and \<open>src/examples\<close> share: the life of a client as a local
  variable of \<open>main\<close>, with its destructor and the ways a program ends, the streams a program reads
  and writes, the signal that stops it, and the operations of the clients that only programs use.
\<close>

section \<open>How programs end\<close>

datatype ending = Exit int | Terminated exn

datatype tool_output = Out_line string | Out_text string | Err_line string | Out_what exn | Err_what string exn

fun std_exception :: "exn \<Rightarrow> bool" where
  \<comment> \<open>what \<open>catch (const std::exception&)\<close> catches\<close>
  "std_exception (KafkaException e) = True"
| "std_exception (StdException (Undefined_behaviour why)) = False"
| "std_exception (StdException e) = True"
| "std_exception Out_of_fuel = False"

fun kafka_exception :: "exn \<Rightarrow> bool" where
  "kafka_exception (KafkaException e) = True"
| "kafka_exception e = False"

section \<open>A client as a local variable\<close>

text \<open>
  The destructors close a client that is still open. They are \<open>noexcept\<close>, so an exception leaving
  \<open>close()\<close> there ends the program.
\<close>

definition destroy_consumer :: "('w, 'n) consumer_api_scheme \<Rightarrow> nat \<Rightarrow> (('w, 'm) consumer_scheme, exn, unit) prog" where
  "destroy_consumer A fuel = seqM (getM opened) (\<lambda>is_open. if is_open then close_consumer A fuel else ret ())"

definition destroy_producer :: "('w, 'n) producer_api_scheme \<Rightarrow> (('w, 'm) producer_scheme, exn, unit) prog" where
  "destroy_producer A = seqM (getM opened) (\<lambda>is_open. if is_open then close_producer A InfiniteTimeout else ret ())"

text \<open>
  A block with a client: the constructor, the rest of the block, the destructor. \<open>handled\<close> is what the
  handlers around the block catch: only then is the stack unwound. With no handler the program is
  terminated where the exception was thrown, and the destructor does not run (as the common
  implementations choose). A constructor that throws leaves nothing to destroy.
\<close>

datatype 'a outcome = Finished 'a | Caught exn | Fatal exn

definition unhandled :: "(exn \<Rightarrow> bool) \<Rightarrow> exn \<Rightarrow> 'a outcome" where
  "unhandled handled e = (if handled e then Caught e else Fatal e)"

definition in_scope ::
  "(exn \<Rightarrow> bool) \<Rightarrow> ('s, exn, unit) prog \<Rightarrow> ('s, exn, 'a) prog \<Rightarrow> ('s, exn, unit) prog \<Rightarrow> 's \<Rightarrow> 'a outcome \<times> 's" where
  "in_scope handled construct block destroy s =
     (case construct s of
        (Inl e, s1) \<Rightarrow> (unhandled handled e, s1)
      | (Inr _, s1) \<Rightarrow>
     (case block s1 of
        (Inl e, s2) \<Rightarrow>
          if handled e then (case destroy s2 of (Inl e', s3) \<Rightarrow> (Fatal e', s3) | (Inr _, s3) \<Rightarrow> (Caught e, s3))
          else (Fatal e, s2)
      | (Inr x, s2) \<Rightarrow> (case destroy s2 of (Inl e', s3) \<Rightarrow> (Fatal e', s3) | (Inr _, s3) \<Rightarrow> (Finished x, s3))))"

text \<open>
  The state of a program is the state of its client and its own variables. An operation of the client
  cannot touch the variables, and the other way round.
\<close>

definition on_client :: "('s, 'e, 'a) prog \<Rightarrow> ('s \<times> 'v, 'e, 'a) prog" where
  "on_client m = (\<lambda>(s, v). case m s of (r, s') \<Rightarrow> (r, (s', v)))"

definition on_vars :: "('v, 'e, 'a) prog \<Rightarrow> ('s \<times> 'v, 'e, 'a) prog" where
  "on_vars m = (\<lambda>(s, v). case m v of (r, v') \<Rightarrow> (r, (s, v')))"

lemma on_client_apply [prog_simps, simp]: "on_client m (s, v) = (fst (m s), (snd (m s), v))"
  by (simp add: on_client_def split: prod.split)

lemma on_vars_apply [prog_simps, simp]: "on_vars m (s, v) = (fst (m v), (s, snd (m v)))"
  by (simp add: on_vars_def split: prod.split)

lemma preserves_on_client [inv_intros]:
  "preserves I m \<Longrightarrow> preserves (\<lambda>sv. I (fst sv)) (on_client m)"
  by (auto simp: preserves_def on_client_def split: prod.splits)

lemma in_scope_cases:
  assumes "in_scope handled construct block destroy s = (x, s')"
  obtains (no_client) e where "construct s = (Inl e, s')" "x = unhandled handled e"
  | (stopped) s1 e where "construct s = (Inr (), s1)" "block s1 = (Inl e, s')" "\<not> handled e" "x = Fatal e"
  | (left) s1 r s2 where "construct s = (Inr (), s1)" "block s1 = (r, s2)" "snd (destroy s2) = s'"
      "\<And>e. r = Inl e \<Longrightarrow> handled e"
      "x = (case fst (destroy s2) of Inl e' \<Rightarrow> Fatal e' | Inr _ \<Rightarrow> (case r of Inl e \<Rightarrow> Caught e | Inr y \<Rightarrow> Finished y))"
proof -
  obtain c s1 where c: "construct s = (c, s1)" by (cases "construct s")
  obtain b s2 where b: "block s1 = (b, s2)" by (cases "block s1")
  obtain d s3 where d: "destroy s2 = (d, s3)" by (cases "destroy s2")
  show thesis
  proof (cases c)
    case (Inl e)
    then show thesis using assms c no_client by (simp add: in_scope_def)
  next
    case c': (Inr u)
    show thesis
    proof (cases b)
      case (Inl e)
      then show thesis
        using assms c c' b d stopped left [of s1 b s2]
        by (cases "handled e"; cases d) (auto simp: in_scope_def)
    next
      case (Inr y)
      then show thesis
        using assms c c' b d left [of s1 b s2]
        by (cases d) (auto simp: in_scope_def)
    qed
  qed
qed

text \<open>Running out of fuel is no outcome of the code; a program without a loop on fuel never does.\<close>

definition never_out_of_fuel :: "('s, exn, 'a) prog \<Rightarrow> bool" where
  "never_out_of_fuel m \<longleftrightarrow> (\<forall>s. fst (m s) \<noteq> Inl Out_of_fuel)"

named_theorems no_fuel \<open>programs that never run out of fuel\<close>

lemma no_fuelD: "never_out_of_fuel m \<Longrightarrow> fst (m s) \<noteq> Inl Out_of_fuel"
  by (simp add: never_out_of_fuel_def)

lemma no_fuel_basic [no_fuel]:
  "never_out_of_fuel (ret x)" "never_out_of_fuel (getM f)" "never_out_of_fuel (modM g)"
  "never_out_of_fuel (lib_call c)" "never_out_of_fuel (lib_do d)" "never_out_of_fuel (throw_if e)"
  by (simp_all add: never_out_of_fuel_def throw_if_def throw_error_def)

lemma no_fuel_throw [no_fuel]: "e \<noteq> Out_of_fuel \<Longrightarrow> never_out_of_fuel (throw e)"
  by (simp add: never_out_of_fuel_def)

lemma no_fuel_seqM [no_fuel]:
  assumes "never_out_of_fuel m" "\<And>x. never_out_of_fuel (k x)"
  shows "never_out_of_fuel (seqM m k)"
  unfolding never_out_of_fuel_def
proof
  fix s
  obtain r s' where m: "m s = (r, s')" by (cases "m s")
  then show "fst (seqM m k s) \<noteq> Inl Out_of_fuel"
    using no_fuelD [OF assms(1), of s] no_fuelD [OF assms(2), of _ s'] by (cases r) (auto simp: seqM_split)
qed

lemma no_fuel_branches [no_fuel]:
  "never_out_of_fuel m \<Longrightarrow> never_out_of_fuel m' \<Longrightarrow> never_out_of_fuel (if b then m else m')"
  "never_out_of_fuel m \<Longrightarrow> (\<And>x. never_out_of_fuel (k x)) \<Longrightarrow> never_out_of_fuel (case v of None \<Rightarrow> m | Some x \<Rightarrow> k x)"
  "(\<And>x. never_out_of_fuel (f x)) \<Longrightarrow> (\<And>y. never_out_of_fuel (g y)) \<Longrightarrow> never_out_of_fuel (case r of Inl x \<Rightarrow> f x | Inr y \<Rightarrow> g y)"
  "(\<And>a b. never_out_of_fuel (h a b)) \<Longrightarrow> never_out_of_fuel (case p of (a, b) \<Rightarrow> h a b)"
  by (auto split: option.split sum.split prod.split)

lemma no_fuel_parts [no_fuel]:
  "never_out_of_fuel m \<Longrightarrow> never_out_of_fuel (on_client m)" "never_out_of_fuel m' \<Longrightarrow> never_out_of_fuel (on_vars m')"
  by (simp_all add: never_out_of_fuel_def)

section \<open>The machine a program runs on\<close>

text \<open>
  What the operating system and the other threads do is read off the world: the clock, the signals that
  arrived since the program looked last, and how often the polling thread of the client has run by then.
\<close>

record 'w machine =
  local_seconds :: "int \<Rightarrow> string"
  system_clock_now :: "'w \<Rightarrow> int \<times> 'w"
  arrived_sigints :: "'w \<Rightarrow> nat \<times> 'w"
  thread_turns :: "'w \<Rightarrow> nat \<times> 'w"

fun times_do :: "nat \<Rightarrow> ('s, 'e, unit) prog \<Rightarrow> ('s, 'e, unit) prog" where
  "times_do 0 m = ret ()"
| "times_do (Suc n) m = seqM m (\<lambda>_. times_do n m)"

definition thread_runs ::
  "('w, 'x) machine_scheme \<Rightarrow> (int \<Rightarrow> (('w, 'm) client_scheme, exn, unit) prog) \<Rightarrow> (('w, 'm) client_scheme, exn, unit) prog" where
  \<comment> \<open>the polling thread, if there is one, between two steps of \<open>main\<close>\<close>
  "thread_runs M pollf = seqM (getM pollThread) (\<lambda>on.
     if on then seqM (lib_call (thread_turns M)) (\<lambda>n. times_do n (pollf CALLBACK_POLLING_INTERVAL_MS)) else ret ())"

lemma preserves_times_do [inv_intros]: "preserves I m \<Longrightarrow> preserves I (times_do n m)"
  by (induction n) (auto simp only: times_do.simps intro!: inv_intros)

lemma no_fuel_times_do [no_fuel]: "never_out_of_fuel m \<Longrightarrow> never_out_of_fuel (times_do n m)"
  by (induction n) (auto simp only: times_do.simps intro!: no_fuel)

lemma no_fuel_thread_runs [no_fuel]: "(\<And>ms. never_out_of_fuel (pollf ms)) \<Longrightarrow> never_out_of_fuel (thread_runs M pollf)"
  unfolding thread_runs_def by (intro no_fuel)

section \<open>The signal that stops a program\<close>

text \<open>
  The global flag \<open>running\<close> and the disposition of \<open>SIGINT\<close>: the handler, until the handler itself asks
  for the signal to be ignored.
\<close>

record screen =
  printed :: "tool_output list"

record stoppable = screen +
  still_running :: bool
  sigint_ignored :: bool

definition stoppable_start :: stoppable where
  "stoppable_start = \<lparr>printed = [], still_running = True, sigint_ignored = False\<rparr>"

definition SIGINT :: int where
  "SIGINT = 2"

definition stopRunning :: "int \<Rightarrow> 'v stoppable_scheme \<Rightarrow> 'v stoppable_scheme" where
  "stopRunning sig v =
     (if sig \<noteq> SIGINT then v
      else if still_running v then v\<lparr>still_running := False\<rparr> else v\<lparr>sigint_ignored := True\<rparr>)"

fun receive_sigints :: "nat \<Rightarrow> 'v stoppable_scheme \<Rightarrow> 'v stoppable_scheme" where
  "receive_sigints 0 v = v"
| "receive_sigints (Suc n) v = receive_sigints n (if sigint_ignored v then v else stopRunning SIGINT v)"

definition check_running ::
  "('w, 'x) machine_scheme \<Rightarrow> (('w, 'm) client_scheme \<times> 'v stoppable_scheme, exn, bool) prog" where
  "check_running M = seqM (on_client (lib_call (arrived_sigints M))) (\<lambda>n.
     seqM (on_vars (modM (receive_sigints n))) (\<lambda>_. on_vars (getM still_running)))"

definition say :: "tool_output list \<Rightarrow> ('v screen_scheme, 'e, unit) prog" where
  "say lines = modM (\<lambda>v. v\<lparr>printed := printed v @ lines\<rparr>)"

lemma say_apply [prog_simps, simp]: "say lines v = (Inr (), v\<lparr>printed := printed v @ lines\<rparr>)"
  by (simp add: say_def)

lemma no_fuel_check [no_fuel]: "never_out_of_fuel (check_running M)" "never_out_of_fuel (say lines)"
  unfolding check_running_def say_def by (intro no_fuel)+

lemma receive_ignored: "sigint_ignored v \<Longrightarrow> receive_sigints n v = v"
  by (induction n) simp_all

lemma receive_sigints_eq:
  "receive_sigints n v = (if sigint_ignored v \<or> n = 0 then v
     else if \<not> still_running v then v\<lparr>sigint_ignored := True\<rparr>
     else if n = 1 then v\<lparr>still_running := False\<rparr>
     else v\<lparr>still_running := False, sigint_ignored := True\<rparr>)"
proof (cases n)
  case (Suc k)
  then show ?thesis by (cases k) (auto simp: stopRunning_def receive_ignored)
qed simp

lemma printed_receive [simp]: "printed (receive_sigints n v) = printed v"
  by (simp add: receive_sigints_eq)

section \<open>How the examples start and end\<close>

text \<open>
  Some examples read the brokers and the topic from the environment and have no handler, the others take
  them as arguments and print the exceptions of the library. Both leave \<open>main\<close> at its end, after the
  handler too.
\<close>

definition std_string_of :: "string option \<Rightarrow> exn + string" where
  \<comment> \<open>a string from a pointer that may be null, as \<open>getenv\<close> returns it\<close>
  "std_string_of p = (case p of
       None \<Rightarrow> Inl (StdException (Undefined_behaviour ''std::string from a null pointer'')) | Some str \<Rightarrow> Inr str)"

definition broker_and_topic :: "(string \<Rightarrow> string option) \<Rightarrow> exn + string \<times> string" where
  "broker_and_topic getenv =
     (case std_string_of (getenv ''KAFKA_BROKER_LIST'') of Inl e \<Rightarrow> Inl e | Inr servers \<Rightarrow>
     (case std_string_of (getenv ''TOPIC_FOR_TEST'') of Inl e \<Rightarrow> Inl e | Inr topic \<Rightarrow> Inr (servers, topic)))"

definition string_properties :: "(string \<times> string) list \<Rightarrow> exn + Properties" where
  "string_properties kvs = Properties_of_map (omap_of_list (map (\<lambda>(k, v). (k, ValueType_of (StringObj v))) kvs))"

lemma validate_all_ok: "props_ok p \<Longrightarrow> validate_all p = Inr ()"
proof -
  assume ok: "props_ok p"
  have "validate (fst kv) (snd kv) = Inr (snd kv)" if "kv \<in> set p" for kv
    using props_ok_value [OF ok, of "fst kv" "snd kv"] that validate_of [of "fst kv" "value_obj (snd kv)"] by simp
  moreover have "(\<And>kv. kv \<in> set kvs \<Longrightarrow> validate (fst kv) (snd kv) = Inr (snd kv)) \<Longrightarrow> validate_all kvs = Inr ()" for kvs
    by (induction kvs) auto
  ultimately show ?thesis by blast
qed

lemma string_properties_are:
  assumes "\<forall>kv\<in>set kvs. fst kv \<notin> set nonStringValueKeys"
  shows "\<exists>p. string_properties kvs = Inr p \<and> props_ok p \<and> (\<forall>k. prop_string k p = map_of (rev kvs) k)"
proof -
  let ?all = "map (\<lambda>(k, v). (k, ValueType_of (StringObj v))) kvs"
  let ?put = "\<lambda>kvs (p :: Properties). foldl (\<lambda>m kv. omap_put (fst kv) (snd kv) m) p (map (\<lambda>(k, v). (k, ValueType_of (StringObj v))) kvs)"
  have "props_ok p \<Longrightarrow> props_ok (?put kvs p)" for p
    using assms
  proof (induction kvs arbitrary: p)
    case (Cons kv kvs)
    then show ?case by (simp add: key_fits_string case_prod_unfold)
  qed simp
  from this [of "[]"] have ok: "props_ok (omap_of_list ?all)" by (simp add: omap_of_list_def)
  have "map_of (rev ?all) k = map_option (\<lambda>v. ValueType_of (StringObj v)) (map_of (rev kvs) k)" for k
    by (simp add: map_of_map rev_map)
  then have "prop_string k (omap_of_list ?all) = map_of (rev kvs) k" for k
    by (simp add: prop_string_def omap_find_of_list split: option.split)
  with ok show ?thesis by (simp add: string_properties_def Properties_of_map_def validate_all_ok)
qed

definition with_environment ::
  "(string \<Rightarrow> string option) \<Rightarrow> (string \<Rightarrow> string \<Rightarrow> 's \<Rightarrow> unit outcome \<times> 's) \<Rightarrow> 's \<Rightarrow> ending \<times> 's" where
  "with_environment getenv run s =
     (case broker_and_topic getenv of Inl e \<Rightarrow> (Terminated e, s) | Inr (servers, topic) \<Rightarrow>
     (case run servers topic s of
        (Finished _, s') \<Rightarrow> (Exit 0, s') | (Caught e, s') \<Rightarrow> (Exit 0, s') | (Fatal e, s') \<Rightarrow> (Terminated e, s')))"

definition with_arguments ::
  "(tool_output list \<Rightarrow> 's \<Rightarrow> 's) \<Rightarrow> string list \<Rightarrow> (string \<Rightarrow> string \<Rightarrow> 's \<Rightarrow> unit outcome \<times> 's) \<Rightarrow> 's \<Rightarrow> ending \<times> 's" where
  "with_arguments tell argv run s =
     (case argv of
        [] \<Rightarrow> (Terminated (StdException (Undefined_behaviour ''null argv[0]'')), s)
      | [_, servers, topic] \<Rightarrow>
          (case run servers topic s of
             (Finished _, s') \<Rightarrow> (Exit 0, s')
           | (Caught e, s') \<Rightarrow> (Exit 0, tell [Err_what ''% Unexpected exception caught: '' e] s')
           | (Fatal e, s') \<Rightarrow> (Terminated e, s'))
      | program # args \<Rightarrow>
          (Exit (if length argv = 1 then 0 else 1), tell [Err_line (''Usage: '' @ program @ '' <brokers> <topic>'')] s))"

definition tell_screen :: "tool_output list \<Rightarrow> 's \<times> 'v screen_scheme \<Rightarrow> 's \<times> 'v screen_scheme" where
  "tell_screen lines sv = (fst sv, snd (say lines (snd sv) :: (unit, unit) sum \<times> 'v screen_scheme))"

section \<open>Operations only programs use\<close>

definition getGroupId :: "('w, 'm) consumer_scheme \<Rightarrow> string" where
  "getGroupId s = groupId s"

definition setGroupId :: "string \<Rightarrow> (('w, 'm) consumer_scheme, exn, unit) prog" where
  "setGroupId i = modM (\<lambda>s. s\<lparr>groupId := i\<rparr>)"

definition groupMetadata :: "('w \<Rightarrow> nat \<times> 'w) \<Rightarrow> (('w, 'm) consumer_scheme, exn, nat) prog" where
  \<comment> \<open>a handle on what \<open>rd_kafka_consumer_group_metadata\<close> returned\<close>
  "groupMetadata rd_kafka_consumer_group_metadata = lib_call rd_kafka_consumer_group_metadata"

definition DEFAULT_SUBSCRIBE_TIMEOUT_MS :: int where
  "DEFAULT_SUBSCRIBE_TIMEOUT_MS = 30000"

definition DEFAULT_UNSUBSCRIBE_TIMEOUT_MS :: int where
  "DEFAULT_UNSUBSCRIBE_TIMEOUT_MS = 10000"

definition DEFAULT_QUERY_TIMEOUT_MS :: int where
  "DEFAULT_QUERY_TIMEOUT_MS = 10000"

definition DEFAULT_SEEK_TIMEOUT_MS :: int where
  "DEFAULT_SEEK_TIMEOUT_MS = 10000"

section \<open>Standard input\<close>

text \<open>
  \<open>std::getline\<close> on a stream with its two flags. On a good stream it erases the string, reads up to the
  newline, which it drops, and sets \<open>eofbit\<close> at the end of the input, \<open>failbit\<close> too when it read nothing
  at all. On a stream that is not good it sets \<open>failbit\<close> and leaves the string alone.
\<close>

record istream =
  unread :: string
  eofbit :: bool
  failbit :: bool

definition newline :: char where
  "newline = CHR 0x0A"

definition getline :: "istream \<Rightarrow> string \<Rightarrow> istream \<times> string" where
  "getline i str =
     (if eofbit i \<or> failbit i then (i\<lparr>failbit := True\<rparr>, str)
      else (let l = takeWhile (\<lambda>c. c \<noteq> newline) (unread i); rest = dropWhile (\<lambda>c. c \<noteq> newline) (unread i)
            in if rest \<noteq> [] then (i\<lparr>unread := tl rest\<rparr>, l)
               else (i\<lparr>unread := [], eofbit := True, failbit := (l = [])\<rparr>, l)))"

definition istream_of :: "string \<Rightarrow> istream" where
  "istream_of content = \<lparr>unread = content, eofbit = False, failbit = False\<rparr>"

text \<open>The lines of an input: a last line that no newline ends counts unless it is empty.\<close>

function lines_of :: "string \<Rightarrow> string list" where
  "lines_of content =
     (let l = takeWhile (\<lambda>c. c \<noteq> newline) content; rest = dropWhile (\<lambda>c. c \<noteq> newline) content
      in if rest \<noteq> [] then l # lines_of (tl rest) else if l = [] then [] else [l])"

  by pat_completeness auto
termination
proof (relation "measure length")
  fix content :: string and l rest
  assume rest: "rest = dropWhile (\<lambda>c. c \<noteq> newline) content" "rest \<noteq> []"
  have "length (tl rest) < length rest" using rest(2) by simp
  also have "\<dots> \<le> length content" unfolding rest(1) by (rule length_dropWhile_le)
  finally show "(tl rest, content) \<in> measure length" by simp
qed simp

declare lines_of.simps [simp del]

section \<open>Loops over the lines of the input\<close>

record reader =
  cin :: istream
  cur_line :: string

definition reader_of :: "string \<Rightarrow> reader" where
  "reader_of content = \<lparr>cin = istream_of content, cur_line = []\<rparr>"

definition read_line :: "(reader, exn, string option) prog" where
  \<comment> \<open>the line when the stream has not failed\<close>
  "read_line = (\<lambda>r. case getline (cin r) (cur_line r) of
     (i, str) \<Rightarrow> (Inr (if failbit i then None else Some str), \<lparr>cin = i, cur_line = str\<rparr>))"

text \<open>
  \<open>while (std::getline(std::cin, line)) { .. }\<close>, and the \<open>for\<close> loops of the same meaning; the body answers
  whether to go on, so \<open>False\<close> is its \<open>break\<close>. \<open>each_line\<close> is the loop over the lines as a list.
\<close>

fun for_lines :: "(string \<Rightarrow> ('s, exn, bool) prog) \<Rightarrow> nat \<Rightarrow> ('s \<times> reader, exn, unit) prog" where
  "for_lines work 0 = throw Out_of_fuel"
| "for_lines work (Suc n) = seqM (on_vars read_line) (\<lambda>r. case r of
       None \<Rightarrow> ret ()
     | Some l \<Rightarrow> seqM (on_client (work l)) (\<lambda>more. if more then for_lines work n else ret ()))"

fun each_line :: "(string \<Rightarrow> ('s, exn, bool) prog) \<Rightarrow> string list \<Rightarrow> ('s, exn, unit) prog" where
  "each_line work [] = ret ()"
| "each_line work (l # ls) = seqM (work l) (\<lambda>more. if more then each_line work ls else ret ())"

lemma read_line_good:
  assumes "\<not> eofbit (cin r)" "\<not> failbit (cin r)"
  shows "case lines_of (unread (cin r)) of
      [] \<Rightarrow> read_line r = (Inr None, \<lparr>cin = \<lparr>unread = [], eofbit = True, failbit = True\<rparr>, cur_line = []\<rparr>)
    | l # ls \<Rightarrow> fst (read_line r) = Inr (Some l) \<and> cur_line (snd (read_line r)) = l \<and>
        \<not> failbit (cin (snd (read_line r))) \<and>
        (if eofbit (cin (snd (read_line r))) then ls = [] else lines_of (unread (cin (snd (read_line r)))) = ls)"
  using assms by (subst lines_of.simps) (auto simp: read_line_def getline_def Let_def)

lemma read_line_eof:
  "eofbit (cin r) \<Longrightarrow> read_line r = (Inr None, r\<lparr>cin := (cin r)\<lparr>failbit := True\<rparr>\<rparr>)"
  by (simp add: read_line_def getline_def)

text \<open>
  \<open>left_in r\<close> are the lines a reader still has to read.
\<close>

definition left_in :: "reader \<Rightarrow> string list" where
  "left_in r = (if eofbit (cin r) then [] else lines_of (unread (cin r)))"

lemma read_line_left:
  assumes "\<not> failbit (cin r)"
  shows "(left_in r = [] \<longrightarrow> fst (read_line r) = Inr None) \<and>
    (\<forall>l ls. left_in r = l # ls \<longrightarrow> fst (read_line r) = Inr (Some l) \<and> cur_line (snd (read_line r)) = l \<and>
       \<not> failbit (cin (snd (read_line r))) \<and> left_in (snd (read_line r)) = ls)"
proof (cases "eofbit (cin r)")
  case False
  from read_line_good [OF this assms] show ?thesis
    by (auto simp: left_in_def False split: list.splits if_splits)
qed (simp add: left_in_def read_line_eof)

lemma for_lines_left:
  assumes "\<not> failbit (cin r)" "length (left_in r) < fuel"
  shows "fst (for_lines work fuel (s, r)) = fst (each_line work (left_in r) s) \<and>
    fst (snd (for_lines work fuel (s, r))) = snd (each_line work (left_in r) s)"
  using assms
proof (induction fuel arbitrary: s r)
  case (Suc n)
  obtain a r' where step: "read_line r = (a, r')" by (cases "read_line r")
  show ?case
  proof (cases "left_in r")
    case Nil
    then show ?thesis using read_line_left [OF Suc.prems(1)] step by (simp add: seqM_split)
  next
    case (Cons l ls)
    then have "a = Inr (Some l)" "\<not> failbit (cin r')" "left_in r' = ls"
      using read_line_left [OF Suc.prems(1)] step by auto
    then show ?thesis
      using Suc.IH [of r'] Suc.prems(2) Cons step
      by (cases "work l s") (auto simp: seqM_split split: sum.splits)
  qed
qed simp

lemma for_lines_each:
  assumes "length (lines_of content) < fuel"
  shows "fst (for_lines work fuel (s, reader_of content)) = fst (each_line work (lines_of content) s)"
    "fst (snd (for_lines work fuel (s, reader_of content))) = snd (each_line work (lines_of content) s)"
  using for_lines_left [of "reader_of content" fuel work s] assms
  by (simp_all add: left_in_def reader_of_def istream_of_def)

lemma lines_of_no_newline: "l \<in> set (lines_of content) \<Longrightarrow> newline \<notin> set l"
proof (induction content rule: lines_of.induct)
  case (1 content)
  then show ?case
    by (subst (asm) (2) lines_of.simps) (auto simp: Let_def dest: set_takeWhileD split: if_splits)
qed

lemma lines_of_join:
  "(\<And>l. l \<in> set ls \<Longrightarrow> newline \<notin> set l) \<Longrightarrow> lines_of (concat (map (\<lambda>l. l @ [newline]) ls)) = ls"
proof (induction ls)
  case Nil
  show ?case by (subst lines_of.simps) simp
next
  case (Cons l ls)
  have "\<And>c. c \<in> set l \<Longrightarrow> c \<noteq> newline" using Cons.prems by auto
  then show ?case
    using Cons by (subst lines_of.simps) (simp add: takeWhile_append2 dropWhile_append2 Let_def)
qed

end
