(* ===== verification/Command_Line.thy ===== *)
theory Command_Line
  imports Admin_Client Program_Scopes
begin

text \<open>
  The command lines of the five programs of \<open>tools/console_clients\<close>: the loops over \<open>argv\<close>, what they accept
  and refuse, and the whole of \<open>KafkaTopics\<close>. An element of \<open>argv\<close> is a C string.
\<close>

section \<open>The loop over the arguments\<close>

text \<open>
  The body of the loop gets the argument, those after it and the options so far; it returns how many
  further arguments it used up.
\<close>

function scan_args :: "(string \<Rightarrow> string list \<Rightarrow> 's \<Rightarrow> 'e + nat \<times> 's) \<Rightarrow> string list \<Rightarrow> 's \<Rightarrow> 'e + 's" where
  "scan_args body [] s = Inr s"
| "scan_args body (arg # rest) s = (case body arg rest s of
       Inl e \<Rightarrow> Inl e
     | Inr (k, s') \<Rightarrow> scan_args body (drop k rest) s')"
  by pat_completeness auto
termination
  by (relation "measure (\<lambda>(_, args, _). length args)") auto

text \<open>An option with a value: it does not count when it is the last argument.\<close>

abbreviation (input) valued :: "string \<Rightarrow> string \<Rightarrow> string list \<Rightarrow> bool" where
  "valued option arg rest \<equiv> arg = option \<and> rest \<noteq> []"

lemma scan_args_rule:
  assumes "scan_args body args s = Inr s'" "P s"
    and step: "\<And>arg rest t k t'. P t \<Longrightarrow> arg \<in> set args \<Longrightarrow> body arg rest t = Inr (k, t') \<Longrightarrow> P t'"
  shows "P s'"
  using assms
proof (induction body args s rule: scan_args.induct)
  case (2 body arg rest s)
  from "2.prems"(1) obtain k t where run: "body arg rest s = Inr (k, t)" "scan_args body (drop k rest) t = Inr s'"
    by (cases "body arg rest s") auto
  have "P t" by (rule "2.prems"(3) [OF "2.prems"(2) _ run(1)]) simp
  then show ?case
  proof (rule "2.IH" [OF run(1) refl run(2)])
    fix a r t1 k1 t2
    assume "P t1" "a \<in> set (drop k rest)" "body a r t1 = Inr (k1, t2)"
    then show "P t2" by (intro "2.prems"(3) [of t1 a r k1 t2]) (auto dest: in_set_dropD)
  qed
qed simp

lemma scan_args_throws:
  assumes "scan_args body args s = Inl e"
  obtains arg rest t where "body arg rest t = Inl e"
  using assms by (induction body args s rule: scan_args.induct) (auto split: sum.splits)

section \<open>Keys and values\<close>

fun pieces :: "char \<Rightarrow> string \<Rightarrow> string list" where
  "pieces c [] = [[]]"
| "pieces c (x # xs) = (if x = c then [] # pieces c xs else (case pieces c xs of
       p # ps \<Rightarrow> (x # p) # ps
     | [] \<Rightarrow> [[x]]))"

definition views_split :: "char \<Rightarrow> string \<Rightarrow> string list" where
  \<comment> \<open>\<open>std::views::split\<close>: the empty range has no piece\<close>
  "views_split c s = (if s = [] then [] else pieces c s)"

definition key_value :: "string \<Rightarrow> (string \<times> string) option" where
  "key_value arg = (case views_split CHR ''='' arg of [k, v] \<Rightarrow> Some (k, v) | _ \<Rightarrow> None)"

lemma pieces_nonempty [simp]: "pieces c s \<noteq> []"
  by (cases s) (auto split: list.split)

lemma pieces_notin: "c \<notin> set s \<Longrightarrow> pieces c s = [s]"
  by (induction s) auto

lemma pieces_append: "c \<notin> set k \<Longrightarrow> pieces c (k @ c # s) = k # pieces c s"
  by (induction k) auto

lemma concat_pieces: "intercalate [c] (pieces c s) = s"
proof (induction s)
  case (Cons x xs)
  have "intercalate [c] ((x # p) # ps) = x # intercalate [c] (p # ps)" for p ps
    by (cases ps) simp_all
  with Cons show ?case
    by (cases "pieces c xs") auto
qed simp

lemma pieces_free: "p \<in> set (pieces c s) \<Longrightarrow> c \<notin> set p"
proof (induction s arbitrary: p)
  case (Cons x xs)
  then show ?case by (cases "pieces c xs") (auto split: if_splits)
qed simp

lemma key_value_iff:
  "key_value arg = Some (k, v) \<longleftrightarrow> arg = k @ CHR ''='' # v \<and> CHR ''='' \<notin> set k \<and> CHR ''='' \<notin> set v"
proof
  assume "key_value arg = Some (k, v)"
  then have kv: "pieces CHR ''='' arg = [k, v]" by (auto simp: key_value_def views_split_def split: list.splits if_splits)
  then show "arg = k @ CHR ''='' # v \<and> CHR ''='' \<notin> set k \<and> CHR ''='' \<notin> set v"
    using concat_pieces [of "CHR ''=''" arg] pieces_free [of _ "CHR ''=''" arg] by simp
qed (auto simp: key_value_def views_split_def pieces_append pieces_notin)

definition put_text :: "string \<Rightarrow> string \<Rightarrow> (Properties, exn, unit) prog" where
  "put_text key v = props_put key (StringObj v)"

fun put_options :: "string \<Rightarrow> string list \<Rightarrow> (Properties, exn, unit) prog" where
  \<comment> \<open>the loops over \<open>--admin-config\<close> and \<open>--topic-props\<close>\<close>
  "put_options refusal [] = ret ()"
| "put_options refusal (arg # args) = (case key_value arg of
       None \<Rightarrow> throw (StdException (Invalid_argument refusal))
     | Some (k, v) \<Rightarrow> seqM (put_text k v) (\<lambda>_. put_options refusal args))"

section \<open>\<open>KafkaTopics\<close>\<close>

datatype OpType = Op_Create | Op_Delete | Op_List

record topics_args =
  brokerList :: string
  topic_arg :: string
  opType :: OpType
  partitions :: int
  replicationFactor :: int
  adminConfig :: Properties
  topicProps :: Properties

record topics_scan = topics_args +
  adminConfigList :: "string list"
  topicPropList :: "string list"
  help_asked :: bool

definition topics_start :: topics_scan where
  \<comment> \<open>\<open>OpType opType{}\<close> is the first of the enumerators\<close>
  "topics_start = \<lparr>brokerList = [], topic_arg = [], opType = Op_Create, partitions = 0, replicationFactor = 0,
     adminConfig = [], topicProps = [], adminConfigList = [], topicPropList = [], help_asked = False\<rparr>"

definition topics_option :: "string \<Rightarrow> string list \<Rightarrow> topics_scan \<Rightarrow> exn + nat \<times> topics_scan" where
  "topics_option arg rest s =
     (if arg = ''--help'' \<or> arg = ''-h'' then Inr (0, s\<lparr>help_asked := True\<rparr>)
      else if valued ''--bootstrap-server'' arg rest then Inr (1, s\<lparr>brokerList := hd rest\<rparr>)
      else if valued ''--admin-config'' arg rest then Inr (1, s\<lparr>adminConfigList := adminConfigList s @ [hd rest]\<rparr>)
      else if arg = ''--list'' then Inr (0, s\<lparr>opType := Op_List\<rparr>)
      else if arg = ''--create'' then Inr (0, s\<lparr>opType := Op_Create\<rparr>)
      else if arg = ''--delete'' then Inr (0, s\<lparr>opType := Op_Delete\<rparr>)
      else if valued ''--topic'' arg rest then Inr (1, s\<lparr>topic_arg := hd rest\<rparr>)
      else if valued ''--partitions'' arg rest then
        (case lift_std (stoi (hd rest)) of Inl e \<Rightarrow> Inl e | Inr n \<Rightarrow> Inr (1, s\<lparr>partitions := n\<rparr>))
      else if valued ''--replication-factor'' arg rest then
        (case lift_std (stoi (hd rest)) of Inl e \<Rightarrow> Inl e | Inr n \<Rightarrow> Inr (1, s\<lparr>replicationFactor := n\<rparr>))
      else if valued ''--topic-props'' arg rest then Inr (1, s\<lparr>topicPropList := topicPropList s @ [hd rest]\<rparr>)
      else Inr (0, s))"

text \<open>The texts of the refusals.\<close>

definition wrong_admin_config :: string where
  "wrong_admin_config = ''Wrong option for --admin-config! MUST follow with key=value format!''"

definition wrong_topic_props :: string where
  "wrong_topic_props = ''Wrong option for --topic-props! MUST follow with key=value format!''"

definition list_refuses :: string where
  "list_refuses = ''The --list operation CANNOT take any '--topic/--partitions/--replication-factor/--topic-props' option!''"

definition create_needs :: string where
  "create_needs = ''The --create operation MUST be with '--topic/--partitions/--replication-factor' options!''"

definition delete_needs :: string where
  "delete_needs = ''The --delete operation MUST be with '--topic' option!''"

definition delete_refuses :: string where
  "delete_refuses = ''The --delete operation CANNOT take any of '--partitions/--replication-factor/--topic-props' options!''"

definition one_operation :: string where
  "one_operation = ''MUST choose exactly one operation from '--list/--create/--delete'' @ [CHR 0x27]"

definition wrong_props :: string where
  "wrong_props = ''Unexpected --props value! Expected key=value format''"

definition count_ops :: "OpType \<Rightarrow> nat" where
  "count_ops t = (if t = Op_List then 1 else 0) + (if t = Op_Create then 1 else 0) + (if t = Op_Delete then 1 else 0)"

definition invalid_argument :: "string \<Rightarrow> exn + 'a" where
  "invalid_argument what = Inl (StdException (Invalid_argument what))"

definition check_operation :: "topics_scan \<Rightarrow> exn + topics_scan" where
  "check_operation s = (case opType s of
       Op_List \<Rightarrow>
         if topic_arg s \<noteq> [] \<or> partitions s \<noteq> 0 \<or> replicationFactor s \<noteq> 0 \<or> topicPropList s \<noteq> [] then
           invalid_argument list_refuses
         else Inr s
     | Op_Create \<Rightarrow>
         if topic_arg s = [] \<or> partitions s = 0 \<or> replicationFactor s = 0 then
           invalid_argument create_needs
         else (case put_options wrong_topic_props (topicPropList s) (topicProps s) of
             (Inl e, _) \<Rightarrow> Inl e
           | (Inr _, p) \<Rightarrow> Inr (s\<lparr>topicProps := p\<rparr>))
     | Op_Delete \<Rightarrow>
         if topic_arg s = [] then invalid_argument delete_needs
         else if partitions s \<noteq> 0 \<or> replicationFactor s \<noteq> 0 \<or> topicPropList s \<noteq> [] then
           invalid_argument delete_refuses
         else Inr s)"

definition parse_topics :: "string list \<Rightarrow> exn + topics_args option" where
  \<comment> \<open>\<open>ParseArguments\<close>, without the text of the help\<close>
  "parse_topics argv =
     (case scan_args topics_option (drop 1 argv) topics_start of
        Inl e \<Rightarrow> Inl e
      | Inr s \<Rightarrow>
          if help_asked s \<or> length argv = 1 then Inr None
          else (case put_options wrong_admin_config (adminConfigList s) (adminConfig s) of
              (Inl e, _) \<Rightarrow> Inl e
            | (Inr _, p) \<Rightarrow>
                if count_ops (opType s) \<noteq> 1 then
                  invalid_argument one_operation
                else map_sum id (Some \<circ> topics_args.truncate) (check_operation (s\<lparr>adminConfig := p\<rparr>))))"

definition report_error :: "rdkafka_lib \<Rightarrow> Error \<Rightarrow> tool_output list \<Rightarrow> int \<times> tool_output list" where
  "report_error L err out = (if error_set err then (1, [Err_line (''Error: '' @ error_message L err)]) else (0, out))"

definition topics_command ::
  "('w, 'n) admin_api_scheme \<Rightarrow> nat \<Rightarrow> topics_args \<Rightarrow> (('w, 'm) client_scheme, exn, int \<times> tool_output list) prog" where
  "topics_command A fuel args = (case opType args of
       Op_List \<Rightarrow> seqM (listTopics A DEFAULT_COMMAND_TIMEOUT_MS) (\<lambda>res.
         ret (report_error (the_lib A) (list_error res) (map Out_line (list_topics res))))
     | Op_Create \<Rightarrow> seqM (createTopics A fuel [topic_arg args] (partitions args) (replicationFactor args)
           (topicProps args) DEFAULT_COMMAND_TIMEOUT_MS) (\<lambda>err. ret (report_error (the_lib A) err []))
     | Op_Delete \<Rightarrow> seqM (deleteTopics A fuel [topic_arg args] DEFAULT_COMMAND_TIMEOUT_MS) (\<lambda>err.
         ret (report_error (the_lib A) err [])))"

definition run_topics ::
  "('w, 'n) admin_api_scheme \<Rightarrow> nat \<Rightarrow> string \<Rightarrow> topics_args \<Rightarrow> (('w, 'm) client_scheme, exn, int \<times> tool_output list) prog" where
  "run_topics A fuel random args =
     (case put_text BOOTSTRAP_SERVERS (brokerList args) (adminConfig args) of
        (Inl e, _) \<Rightarrow> throw e
      | (Inr _, adminConf) \<Rightarrow> seqM (construct_admin A random adminConf) (\<lambda>_. topics_command A fuel args))"

definition topics_body ::
  "('w, 'n) admin_api_scheme \<Rightarrow> nat \<Rightarrow> string \<Rightarrow> string list \<Rightarrow> (('w, 'm) client_scheme, exn, int \<times> tool_output list) prog" where
  \<comment> \<open>inside the \<open>try\<close>\<close>
  "topics_body A fuel random argv = (case parse_topics argv of
       Inl e \<Rightarrow> throw e
     | Inr None \<Rightarrow> ret (0, [])
     | Inr (Some args) \<Rightarrow> run_topics A fuel random args)"

definition topics_main ::
  "('w, 'n) admin_api_scheme \<Rightarrow> nat \<Rightarrow> string \<Rightarrow> string list \<Rightarrow> (('w, 'm) client_scheme, exn, int \<times> tool_output list) prog" where
  "topics_main A fuel random argv =
     catchM (topics_body A fuel random argv)
       (\<lambda>e. if std_exception e then ret (1, [Out_what e]) else throw e)"

section \<open>The console clients\<close>

record console_args =
  console_brokerList :: string
  console_topic :: string
  console_partition :: "int option"  \<comment> \<open>of the producer\<close>
  console_props :: "(string, string) omap"

record console_scan = console_args +
  propList :: "string list"
  console_help :: bool

definition console_start :: console_scan where
  "console_start = \<lparr>console_brokerList = [], console_topic = [], console_partition = None, console_props = [],
     propList = [], console_help = False\<rparr>"

definition consumer_option :: "string \<Rightarrow> string list \<Rightarrow> console_scan \<Rightarrow> exn + nat \<times> console_scan" where
  "consumer_option arg rest s =
     (if arg = ''--help'' \<or> arg = ''-h'' then Inr (0, s\<lparr>console_help := True\<rparr>)
      else if valued ''--broker-list'' arg rest then Inr (1, s\<lparr>console_brokerList := hd rest\<rparr>)
      else if valued ''--topic'' arg rest then Inr (1, s\<lparr>console_topic := hd rest\<rparr>)
      else if valued ''--props'' arg rest then Inr (1, s\<lparr>propList := propList s @ [hd rest]\<rparr>)
      else Inr (0, s))"

definition producer_option :: "string \<Rightarrow> string list \<Rightarrow> console_scan \<Rightarrow> exn + nat \<times> console_scan" where
  "producer_option arg rest s =
     (if arg = ''--help'' \<or> arg = ''-h'' then Inr (0, s\<lparr>console_help := True\<rparr>)
      else if valued ''--broker-list'' arg rest then Inr (1, s\<lparr>console_brokerList := hd rest\<rparr>)
      else if valued ''--topic'' arg rest then Inr (1, s\<lparr>console_topic := hd rest\<rparr>)
      else if valued ''--partition'' arg rest then
        (case lift_std (stoi (hd rest)) of Inl e \<Rightarrow> Inl e | Inr n \<Rightarrow> Inr (1, s\<lparr>console_partition := Some n\<rparr>))
      else if valued ''--props'' arg rest then Inr (1, s\<lparr>propList := propList s @ [hd rest]\<rparr>)
      else Inr (0, s))"

fun collect_props :: "string list \<Rightarrow> (string, string) omap \<Rightarrow> exn + (string, string) omap" where
  "collect_props [] m = Inr m"
| "collect_props (arg # args) m = (case key_value arg of
       None \<Rightarrow> invalid_argument wrong_props
     | Some (k, v) \<Rightarrow> collect_props args (omap_put k v m))"

definition parse_console ::
  "(string \<Rightarrow> string list \<Rightarrow> console_scan \<Rightarrow> exn + nat \<times> console_scan) \<Rightarrow> string list \<Rightarrow> exn + console_args option" where
  \<comment> \<open>the two \<open>ParseArguments\<close> differ in the option \<open>--partition\<close>\<close>
  "parse_console option argv =
     (case scan_args option (drop 1 argv) console_start of
        Inl e \<Rightarrow> Inl e
      | Inr s \<Rightarrow>
          if console_help s \<or> length argv = 1 then Inr None
          else (case collect_props (propList s) (console_props s) of
              Inl e \<Rightarrow> Inl e
            | Inr m \<Rightarrow> Inr (Some (console_args.truncate (s\<lparr>console_props := m\<rparr>)))))"

fun put_all :: "(string \<times> string) list \<Rightarrow> (Properties, exn, unit) prog" where
  "put_all [] = ret ()"
| "put_all ((k, v) # kvs) = seqM (put_text k v) (\<lambda>_. put_all kvs)"

definition null_logger :: nat where
  \<comment> \<open>the handle of \<open>NullLogger\<close>\<close>
  "null_logger = 1"

definition console_config :: "string \<Rightarrow> console_args \<Rightarrow> (exn + unit) \<times> Properties" where
  \<comment> \<open>\<open>cid\<close> is the client id made from the id of the thread\<close>
  "console_config cid args =
     seqM (put_text BOOTSTRAP_SERVERS (console_brokerList args)) (\<lambda>_.
     seqM (put_text CLIENT_ID cid) (\<lambda>_.
     seqM (put_all (console_props args)) (\<lambda>_.
     props_put LOG_CB (LogCallbackObj (Some null_logger))))) []"

text \<open>\<open>run\<close> is what the program does with its client, \<open>RunConsumer\<close> or the loop over the lines of the input.\<close>

definition exit_status :: "unit outcome \<Rightarrow> ending" where
  \<comment> \<open>\<open>main\<close> catches Kafka exceptions around its client\<close>
  "exit_status x = (case x of Finished _ \<Rightarrow> Exit 0 | Caught e \<Rightarrow> Exit 1 | Fatal e \<Rightarrow> Terminated e)"

definition console_consumer_main ::
  "(string \<Rightarrow> Properties \<Rightarrow> 's \<Rightarrow> unit outcome \<times> 's) \<Rightarrow> string \<Rightarrow> string list \<Rightarrow> 's \<Rightarrow> ending \<times> 's" where
  "console_consumer_main run cid argv s =
     (case parse_console consumer_option argv of
        Inl e \<Rightarrow> (if std_exception e then Exit 1 else Terminated e, s)
      | Inr None \<Rightarrow> (Exit 0, s)
      | Inr (Some args) \<Rightarrow>
          (case console_config cid args of
             (Inl e, _) \<Rightarrow> (Terminated e, s)
           | (Inr _, props) \<Rightarrow> (case run (console_topic args) props s of (x, s') \<Rightarrow> (exit_status x, s'))))"

definition console_producer_main ::
  "(console_args \<Rightarrow> Properties \<Rightarrow> 's \<Rightarrow> unit outcome \<times> 's) \<Rightarrow> string \<Rightarrow> string list \<Rightarrow> 's \<Rightarrow> ending \<times> 's" where
  \<comment> \<open>its handler is around all of it\<close>
  "console_producer_main run cid argv s =
     (case parse_console producer_option argv of
        Inl e \<Rightarrow> (exit_status (unhandled kafka_exception e), s)
      | Inr None \<Rightarrow> (Exit 0, s)
      | Inr (Some args) \<Rightarrow>
          (case console_config cid args of
             (Inl e, _) \<Rightarrow> (exit_status (unhandled kafka_exception e), s)
           | (Inr _, props) \<Rightarrow> (case run args props s of (x, s') \<Rightarrow> (exit_status x, s'))))"

section \<open>What the options leave\<close>

lemma put_text_eq: "put_text k v p = (if k \<notin> set nonStringValueKeys then (Inr (), omap_put k (ValueType_of (StringObj v)) p)
    else (Inl (StdException (Runtime_error (''Invalid key/value for configuration: '' @ k))), p))"
  by (simp add: put_text_def props_put_apply key_fits_def expected_key_of_def)

lemma put_options_ok:
  "put_options refusal opts p = (r, p') \<Longrightarrow> props_ok p \<Longrightarrow> props_ok p' \<and> (\<forall>e. r = Inl e \<longrightarrow> std_exception e)"
proof (induction opts arbitrary: p)
  case (Cons opt opts)
  show ?case
  proof (cases "key_value opt")
    case (Some kv)
    obtain k v where "kv = (k, v)" by fastforce
    with Some Cons.prems Cons.IH [of "omap_put k (ValueType_of (StringObj v)) p"] show ?thesis
      by (auto simp: seqM_split put_text_eq key_fits_def expected_key_of_def split: if_splits)
  qed (use Cons.prems in auto)
qed auto

lemma stoi_throws: "stoi s = Inl e \<Longrightarrow> std_exception (StdException e)"
  by (auto simp: stoi_def Let_def split: if_splits prod.splits)

lemma stoi_range: "stoi s = Inr i \<Longrightarrow> - (2 ^ 31) \<le> i \<and> i < 2 ^ 31"
  by (auto simp: stoi_def Let_def split: if_splits prod.splits)

lemma lift_stoi_throws: "lift_std (stoi s) = Inl e \<Longrightarrow> std_exception e"
  by (cases "stoi s") (auto simp: lift_std_def dest: stoi_throws)

definition topics_inv :: "bool \<Rightarrow> topics_scan \<Rightarrow> bool" where
  "topics_inv unnamed s \<longleftrightarrow> adminConfig s = [] \<and> topicProps s = [] \<and> (unnamed \<longrightarrow> opType s = Op_Create) \<and>
     - (2 ^ 31) \<le> partitions s \<and> partitions s < 2 ^ 31 \<and>
     - (2 ^ 31) \<le> replicationFactor s \<and> replicationFactor s < 2 ^ 31"

definition leads :: "('s \<Rightarrow> bool) \<Rightarrow> exn + nat \<times> 's \<Rightarrow> bool" where
  "leads P r \<longleftrightarrow> (case r of Inl e \<Rightarrow> std_exception e | Inr (k, s) \<Rightarrow> P s)"

lemma leads_if: "(c \<Longrightarrow> leads P a) \<Longrightarrow> (\<not> c \<Longrightarrow> leads P b) \<Longrightarrow> leads P (if c then a else b)"
  by simp

lemma leads_next: "P s \<Longrightarrow> leads P (Inr (k, s))"
  by (simp add: leads_def)

lemma leads_stoi:
  assumes "\<And>i. - (2 ^ 31) \<le> i \<Longrightarrow> i < 2 ^ 31 \<Longrightarrow> P (f i)"
  shows "leads P (case lift_std (stoi v) of Inl e \<Rightarrow> Inl e | Inr i \<Rightarrow> Inr (k, f i))"
  using assms by (cases "stoi v") (auto simp: leads_def lift_std_def dest: stoi_range stoi_throws)

lemma leads_Inr: "leads P r \<Longrightarrow> r = Inr (k, s) \<Longrightarrow> P s"
  by (simp add: leads_def)

lemma leads_Inl: "leads P r \<Longrightarrow> r = Inl e \<Longrightarrow> std_exception e"
  by (simp add: leads_def)

lemma topics_inv_step:
  assumes "topics_inv unnamed s"
  shows "topics_inv unnamed (s\<lparr>help_asked := b\<rparr>)" "topics_inv unnamed (s\<lparr>brokerList := v\<rparr>)"
    "topics_inv unnamed (s\<lparr>adminConfigList := l\<rparr>)" "topics_inv unnamed (s\<lparr>topicPropList := l\<rparr>)"
    "topics_inv unnamed (s\<lparr>topic_arg := v\<rparr>)" "topics_inv unnamed (s\<lparr>opType := Op_Create\<rparr>)"
    "- (2 ^ 31) \<le> i \<Longrightarrow> i < 2 ^ 31 \<Longrightarrow> topics_inv unnamed (s\<lparr>partitions := i\<rparr>)"
    "- (2 ^ 31) \<le> i \<Longrightarrow> i < 2 ^ 31 \<Longrightarrow> topics_inv unnamed (s\<lparr>replicationFactor := i\<rparr>)"
    "\<not> unnamed \<Longrightarrow> topics_inv unnamed (s\<lparr>opType := t\<rparr>)"
  using assms by (simp_all add: topics_inv_def)

lemma topics_option_inv:
  assumes "topics_inv unnamed s" "unnamed \<Longrightarrow> arg \<notin> {''--list'', ''--delete''}"
  shows "leads (topics_inv unnamed) (topics_option arg rest s)"
  unfolding topics_option_def
proof (intro leads_if leads_next leads_stoi topics_inv_step(1-8) [OF assms(1)] assms(1))
  assume "arg = ''--list''"
  then show "topics_inv unnamed (s\<lparr>opType := Op_List\<rparr>)" using assms(2) by (intro topics_inv_step(9) [OF assms(1)]) blast
next
  assume "arg = ''--delete''"
  then show "topics_inv unnamed (s\<lparr>opType := Op_Delete\<rparr>)" using assms(2) by (intro topics_inv_step(9) [OF assms(1)]) blast
qed assumption+

lemma topics_option_throws: "topics_option arg rest s = Inl e \<Longrightarrow> std_exception e"
proof -
  have "leads (\<lambda>_. True) (topics_option arg rest s)"
    unfolding topics_option_def by (intro leads_if leads_next leads_stoi TrueI)
  then show "topics_option arg rest s = Inl e \<Longrightarrow> ?thesis" by (rule leads_Inl)
qed

lemma scanned_topics:
  assumes "scan_args topics_option args topics_start = Inr s"
  shows "topics_inv (set args \<inter> {''--list'', ''--delete''} = {}) s"
proof (rule scan_args_rule [OF assms])
  fix arg rest t k t'
  assume step: "topics_inv (set args \<inter> {''--list'', ''--delete''} = {}) t" "arg \<in> set args"
    "topics_option arg rest t = Inr (k, t')"
  have "leads (topics_inv (set args \<inter> {''--list'', ''--delete''} = {})) (topics_option arg rest t)"
    by (rule topics_option_inv [OF step(1)]) (use step(2) in blast)
  then show "topics_inv (set args \<inter> {''--list'', ''--delete''} = {}) t'" using step(3) by (rule leads_Inr)
qed (simp add: topics_inv_def topics_start_def)

lemma check_operation_throws:
  "check_operation s = Inl e \<Longrightarrow> props_ok (topicProps s) \<Longrightarrow> std_exception e"
  using put_options_ok [of wrong_topic_props "topicPropList s" "topicProps s"]
  by (auto simp: check_operation_def invalid_argument_def split: OpType.splits if_splits prod.splits sum.splits)

lemma parse_topics_throws:
  assumes "parse_topics argv = Inl e"
  shows "std_exception e"
proof (cases "scan_args topics_option (drop 1 argv) topics_start")
  case (Inl e')
  obtain arg rest t where "topics_option arg rest t = Inl e'" by (rule scan_args_throws [OF Inl])
  then have "std_exception e'" by (rule topics_option_throws)
  then show ?thesis using assms by (simp only: parse_topics_def Inl sum.case sum.inject)
next
  case (Inr s)
  from scanned_topics [OF this]
  have empty: "adminConfig s = []" "topicProps s = []" by (simp_all add: topics_inv_def)
  obtain r p where put: "put_options wrong_admin_config (adminConfigList s) (adminConfig s) = (r, p)" by fastforce
  then have "std_exception e'" if "r = Inl e'" for e' using put_options_ok [OF put] empty that by simp
  moreover have "std_exception e'" if "check_operation (s\<lparr>adminConfig := p\<rparr>) = Inl e'" for e'
    using check_operation_throws [OF that] empty by simp
  ultimately show ?thesis
    using assms
    by (cases r; cases "check_operation (s\<lparr>adminConfig := p\<rparr>)")
      (auto simp: parse_topics_def Inr [unfolded One_nat_def] put invalid_argument_def split: if_splits)
qed

lemma topics_truncate [simp]:
  "brokerList (topics_args.truncate s) = brokerList s" "topic_arg (topics_args.truncate s) = topic_arg s"
  "opType (topics_args.truncate s) = opType s" "partitions (topics_args.truncate s) = partitions s"
  "replicationFactor (topics_args.truncate s) = replicationFactor s" "adminConfig (topics_args.truncate s) = adminConfig s"
  "topicProps (topics_args.truncate s) = topicProps s"
  by (simp_all add: topics_args.defs)

lemma parse_topics_accepts:
  assumes "parse_topics argv = Inr (Some args)"
  obtains s p s' where "scan_args topics_option (drop 1 argv) topics_start = Inr s"
    "put_options wrong_admin_config (adminConfigList s) (adminConfig s) = (Inr (), p)"
    "check_operation (s\<lparr>adminConfig := p\<rparr>) = Inr s'" "args = topics_args.truncate s'"
proof (cases "scan_args topics_option (drop 1 argv) topics_start")
  case (Inr s)
  obtain r p where put: "put_options wrong_admin_config (adminConfigList s) (adminConfig s) = (r, p)" by fastforce
  have "r = Inr () \<and> (\<exists>s'. check_operation (s\<lparr>adminConfig := p\<rparr>) = Inr s' \<and> args = topics_args.truncate s')"
    using assms
    by (cases r; cases "check_operation (s\<lparr>adminConfig := p\<rparr>)")
      (auto simp: parse_topics_def Inr [unfolded One_nat_def] put invalid_argument_def split: if_splits)
  with Inr put show ?thesis by (auto intro: that)
qed (use assms in \<open>simp add: parse_topics_def\<close>)

lemma check_operation_accepts:
  assumes "check_operation s = Inr s'" "props_ok (topicProps s)"
  shows "brokerList s' = brokerList s \<and> opType s' = opType s \<and> topic_arg s' = topic_arg s \<and> partitions s' = partitions s \<and>
    replicationFactor s' = replicationFactor s \<and> adminConfig s' = adminConfig s \<and> props_ok (topicProps s') \<and>
    (case opType s of
       Op_List \<Rightarrow> topic_arg s = [] \<and> partitions s = 0 \<and> replicationFactor s = 0 \<and> topicProps s' = topicProps s
     | Op_Create \<Rightarrow> topic_arg s \<noteq> [] \<and> partitions s \<noteq> 0 \<and> replicationFactor s \<noteq> 0
     | Op_Delete \<Rightarrow> topic_arg s \<noteq> [] \<and> partitions s = 0 \<and> replicationFactor s = 0 \<and> topicProps s' = topicProps s)"
  using assms put_options_ok [of wrong_topic_props "topicPropList s" "topicProps s"]
  by (cases "opType s") (auto simp: check_operation_def invalid_argument_def split: if_splits prod.splits sum.splits)

section \<open>Running \<open>KafkaTopics\<close>\<close>

lemma construct_admin_throws:
  assumes "props_ok p" "fst (construct_admin A random p (client_default w)) = Inl e"
  shows "is_kafka_exception e"
proof (cases "validateAndReformProperties random p")
  case (Inl x)
  with assms have "e = x" by (simp add: construct_admin_def seqM_split)
  with Inl show ?thesis
    by (auto simp: validate_eq invalid_arg_def throw_error_def is_kafka_exception_def split: if_splits)
next
  case (Inr p')
  then have ok: "props_ok p'" using assms(1) by (auto simp: validate_eq split: if_splits)
  have start: "under_construction p' (client_default w)"
    by (simp add: under_construction_def client_default_def accepted_from_def)
  obtain s1 where "construct_client A AdminClient p' (register_callback A None) (client_default w) = (Inl e, s1)"
    using assms(2) Inr by (auto simp: construct_admin_def seqM_split dest: eq_fst_iff [THEN iffD1, OF sym])
  then show ?thesis by (rule triple_throws [OF construct_client_establishes [OF ok] start])
qed

lemma std_exception_kafka [simp]: "is_kafka_exception e \<Longrightarrow> std_exception e"
  by (auto simp: is_kafka_exception_def)

lemma fst_seqM_ret: "fst (seqM m (\<lambda>x. ret (f x)) s) = map_sum id f (fst (m s))"
  by (simp add: seqM_split split: sum.split prod.split)

lemma listTopics_returns: "fst (listTopics A timeout s) \<noteq> Inl e"
  by (simp add: listTopics_split Let_def case_prod_unfold)

lemma topics_command_throws: "fst (topics_command A fuel args s) = Inl e \<Longrightarrow> e = Out_of_fuel"
  by (auto simp: topics_command_def fst_seqM_ret map_sum_def listTopics_returns
      split: OpType.splits sum.splits dest: admin_commands_do_not_throw)

lemma seqM_throws: "fst (seqM m k s) = Inl e \<Longrightarrow> fst (m s) = Inl e \<or> (\<exists>x s'. m s = (Inr x, s') \<and> fst (k x s') = Inl e)"
  by (simp add: seqM_split split: sum.splits prod.splits)

lemma topics_command_settles: "admin_clock_advances A time \<Longrightarrow> settles Out_of_fuel (\<lambda>fuel. topics_command A fuel args) s"
  unfolding topics_command_def
  by (cases "opType args")
    (auto intro!: settles_seqM settles_const admin_commands_settle simp: listTopics_returns dest: seqM_throws)

lemma run_topics_eq:
  "run_topics A fuel random args =
     seqM (construct_admin A random (omap_put BOOTSTRAP_SERVERS (ValueType_of (StringObj (brokerList args))) (adminConfig args)))
       (\<lambda>_. topics_command A fuel args)"
  by (simp add: run_topics_def put_text_eq nonStringValueKeys_def config_keys)

lemma run_topics_throws:
  assumes "props_ok (adminConfig args)" "fst (run_topics A fuel random args (client_default w)) = Inl e"
  shows "std_exception e \<or> e = Out_of_fuel"
proof -
  have "props_ok (omap_put BOOTSTRAP_SERVERS (ValueType_of (StringObj (brokerList args))) (adminConfig args))"
    using assms(1) by (simp add: key_fits_def expected_key_of_def nonStringValueKeys_def config_keys)
  note construct = construct_admin_throws [OF this]
  from seqM_throws [OF assms(2) [unfolded run_topics_eq]] show ?thesis
  proof (elim disjE exE conjE)
    fix x s'
    assume "fst (topics_command A fuel args s') = Inl e"
    then show ?thesis by (auto dest: topics_command_throws)
  qed (simp add: construct)
qed

lemma accepted_topics:
  assumes "parse_topics argv = Inr (Some args)"
  shows "props_ok (adminConfig args) \<and> props_ok (topicProps args) \<and>
    (set (drop 1 argv) \<inter> {''--list'', ''--delete''} = {} \<longrightarrow> opType args = Op_Create) \<and>
    - (2 ^ 31) \<le> partitions args \<and> partitions args < 2 ^ 31 \<and>
    - (2 ^ 31) \<le> replicationFactor args \<and> replicationFactor args < 2 ^ 31 \<and>
    (case opType args of
       Op_List \<Rightarrow> topic_arg args = [] \<and> partitions args = 0 \<and> replicationFactor args = 0 \<and> topicProps args = []
     | Op_Create \<Rightarrow> topic_arg args \<noteq> [] \<and> partitions args \<noteq> 0 \<and> replicationFactor args \<noteq> 0
     | Op_Delete \<Rightarrow> topic_arg args \<noteq> [] \<and> partitions args = 0 \<and> replicationFactor args = 0 \<and> topicProps args = [])"
proof -
  obtain s p s' where scan: "scan_args topics_option (drop 1 argv) topics_start = Inr s"
    and put: "put_options wrong_admin_config (adminConfigList s) (adminConfig s) = (Inr (), p)"
    and check: "check_operation (s\<lparr>adminConfig := p\<rparr>) = Inr s'" "args = topics_args.truncate s'"
    using parse_topics_accepts [OF assms] by blast
  note inv = scanned_topics [OF scan, unfolded topics_inv_def]
  then have "props_ok p" using put_options_ok [OF put] by simp
  then show ?thesis
    using inv check_operation_accepts [OF check(1)] check(2) by (cases "opType s") simp_all
qed

lemma topics_body_throws:
  "fst (topics_body A fuel random argv (client_default w)) = Inl e \<Longrightarrow> std_exception e \<or> e = Out_of_fuel"
  by (auto simp: topics_body_def split: sum.splits option.splits
      dest: parse_topics_throws run_topics_throws [OF accepted_topics [THEN conjunct1]])

lemma topics_body_settles:
  assumes "admin_clock_advances A time"
  shows "settles Out_of_fuel (\<lambda>fuel. topics_body A fuel random argv) (client_default w)"
proof (cases "parse_topics argv")
  case (Inl e)
  then show ?thesis using parse_topics_throws [OF Inl] by (auto intro!: settles_const simp: topics_body_def)
next
  case (Inr o_args)
  show ?thesis
  proof (cases o_args)
    case (Some args)
    have "fst (construct_admin A random p (client_default w)) \<noteq> Inl Out_of_fuel" if "props_ok p" for p
      using construct_admin_throws [OF that, of A random w Out_of_fuel] by (auto simp: is_kafka_exception_def)
    then have "settles Out_of_fuel (\<lambda>fuel. run_topics A fuel random args) (client_default w)"
      unfolding run_topics_eq using accepted_topics [of argv args] Inr Some
      by (intro settles_seqM settles_const topics_command_settles [OF assms])
        (simp add: key_fits_def expected_key_of_def nonStringValueKeys_def config_keys)
    then show ?thesis by (simp add: Inr Some topics_body_def)
  qed (simp add: Inr settles_const topics_body_def)
qed

definition proper_end :: "int \<times> tool_output list \<Rightarrow> bool" where
  "proper_end r \<longleftrightarrow> fst r = 0 \<and> (\<forall>x\<in>set (snd r). \<exists>l. x = Out_line l) \<or>
     fst r = 1 \<and> (\<exists>m. snd r = [Err_line m]) \<or> fst r = 1 \<and> (\<exists>e. snd r = [Out_what e])"

lemma topics_body_ends:
  fixes s :: "('a, 'c) client_scheme"
  assumes "fst (topics_body A fuel random argv s) = Inr r"
  shows "proper_end r"
proof -
  have report: "proper_end (report_error L err (map Out_line ls))" for L err ls
    by (auto simp: proper_end_def report_error_def)
  then have report': "proper_end (report_error L err [])" for L err by (metis list.map(1))
  have command: "fst (topics_command A fuel args t) = Inr r \<Longrightarrow> proper_end r" for args and t :: "('a, 'c) client_scheme"
    using report report'
    by (cases "opType args") (auto simp: topics_command_def fst_seqM_ret map_sum_def split: sum.splits)
  show ?thesis
  proof (cases "parse_topics argv")
    case (Inr o_args)
    show ?thesis
    proof (cases o_args)
      case (Some args)
      let ?p = "omap_put BOOTSTRAP_SERVERS (ValueType_of (StringObj (brokerList args))) (adminConfig args)"
      obtain r1 s1 where "construct_admin A random ?p s = (r1, s1)" by fastforce
      then show ?thesis
        using assms command [of args s1] by (cases r1) (simp_all add: topics_body_def Inr Some run_topics_eq seqM_split)
    qed (use assms in \<open>force simp: topics_body_def Inr proper_end_def\<close>)
  qed (use assms in \<open>simp add: topics_body_def\<close>)
qed

section \<open>Properties\<close>

text \<open>What \<open>KafkaTopics\<close> accepts: the options that its operation needs are there and those it cannot take are
  not; the numbers are of 32 bits and the properties well typed. A command line that names no operation
  is taken as a creation: the check for exactly one operation never fails.\<close>

lemma topics_arguments:
  assumes "parse_topics argv = Inr (Some args)"
  shows "(case opType args of
       Op_List \<Rightarrow> topic_arg args = [] \<and> partitions args = 0 \<and> replicationFactor args = 0 \<and> topicProps args = []
     | Op_Create \<Rightarrow> topic_arg args \<noteq> [] \<and> partitions args \<noteq> 0 \<and> replicationFactor args \<noteq> 0
     | Op_Delete \<Rightarrow> topic_arg args \<noteq> [] \<and> partitions args = 0 \<and> replicationFactor args = 0 \<and> topicProps args = []) \<and>
    - (2 ^ 31) \<le> partitions args \<and> partitions args < 2 ^ 31 \<and>
    - (2 ^ 31) \<le> replicationFactor args \<and> replicationFactor args < 2 ^ 31 \<and>
    props_ok (adminConfig args) \<and> props_ok (topicProps args) \<and>
    (set (drop 1 argv) \<inter> {''--list'', ''--delete''} = {} \<longrightarrow> opType args = Op_Create)"
  using accepted_topics [OF assms] by simp

text \<open>C36. \<open>KafkaTopics\<close> always ends: with status 0 after printing nothing but topics, or with status 1 and one line
  that tells the error. No exception leaves it, and when the clock advances its waits end: from some amount
  of fuel on the outcome does not depend on it.\<close>

theorem topics_exit_status:
  assumes "admin_clock_advances A time"
  shows "\<exists>n r s'. \<forall>fuel\<ge>n. topics_main A fuel random argv (client_default w) = (Inr r, s') \<and> proper_end r"
proof -
  obtain n where n: "\<And>fuel. n \<le> fuel \<Longrightarrow> fst (topics_body A fuel random argv (client_default w)) \<noteq> Inl Out_of_fuel \<and>
      topics_body A fuel random argv (client_default w) = topics_body A n random argv (client_default w)"
    using topics_body_settles [OF assms, of random argv w] unfolding settles_def by blast
  obtain r s1 where run: "topics_body A n random argv (client_default w) = (r, s1)" by fastforce
  have "\<exists>r' s'. topics_main A n random argv (client_default w) = (Inr r', s') \<and> proper_end r'"
  proof (cases r)
    case (Inl e)
    then have "std_exception e" using topics_body_throws [of A n random argv w e] n [of n] run by auto
    then show ?thesis using Inl run by (simp add: topics_main_def catchM_def proper_end_def)
  next
    case (Inr x)
    then show ?thesis using run topics_body_ends [of A n random argv "client_default w" x]
      by (simp add: topics_main_def catchM_def)
  qed
  moreover have "topics_main A fuel random argv (client_default w) = topics_main A n random argv (client_default w)"
    if "n \<le> fuel" for fuel
    using n [OF that] by (simp add: topics_main_def catchM_def)
  ultimately show ?thesis by metis
qed

theorem topics_exit_status_witness:
  "\<exists>n r s'. \<forall>fuel\<ge>n. topics_main (prompt_api 5 (sample_response RD_KAFKA_EVENT_DELETETOPICS_RESULT)) fuel ''id''
     [''kafka-topics'', ''--delete'', ''--topic'', ''t'', ''--bootstrap-server'', ''b''] (client_default 0) = (Inr r, s') \<and> proper_end r"
proof -
  have "admin_clock_advances (prompt_api 5 (sample_response RD_KAFKA_EVENT_DELETETOPICS_RESULT)) (\<lambda>w. w)"
    by (simp add: admin_clock_advances_def prompt_defs)
  from topics_exit_status [OF this] show ?thesis .
qed

text \<open>The argument of \<open>--props\<close>: a key and a value around exactly one equals sign is taken as it is; anything
  else ends the console consumer with a failure status, but the console producer by an exception that
  its \<open>main\<close> does not catch.\<close>

lemma console_props_argument:
  "case key_value opt of
     Some (k, v) \<Rightarrow> opt = k @ CHR ''='' # v \<and> CHR ''='' \<notin> set k \<union> set v \<and>
       (\<exists>args. parse_console consumer_option [tool, ''--props'', opt] = Inr (Some args) \<and> console_props args = [(k, v)]) \<and>
       (\<exists>args. parse_console producer_option [tool, ''--props'', opt] = Inr (Some args) \<and> console_props args = [(k, v)])
   | None \<Rightarrow> (\<nexists>k v. opt = k @ CHR ''='' # v \<and> CHR ''='' \<notin> set k \<union> set v) \<and>
       console_consumer_main run cid [tool, ''--props'', opt] s = (Exit 1, s) \<and>
       console_producer_main run' cid [tool, ''--props'', opt] s' = (Terminated (StdException (Invalid_argument wrong_props)), s')"
proof -
  have scan: "scan_args option [''--props'', opt] console_start = Inr (console_start\<lparr>propList := [opt]\<rparr>)"
    if "option \<in> {consumer_option, producer_option}" for option
    using that by (auto simp: consumer_option_def producer_option_def console_start_def)
  have parse: "parse_console option [tool, ''--props'', opt] = (case key_value opt of
      None \<Rightarrow> invalid_argument wrong_props
    | Some (k, v) \<Rightarrow> Inr (Some (console_args.truncate (console_start\<lparr>propList := [opt], console_props := [(k, v)]\<rparr>))))"
    if "option \<in> {consumer_option, producer_option}" for option
    using scan [OF that]
    by (auto simp: parse_console_def console_start_def invalid_argument_def split: option.split)
  show ?thesis
  proof (cases "key_value opt")
    case None
    then have "\<nexists>k v. opt = k @ CHR ''='' # v \<and> CHR ''='' \<notin> set k \<union> set v"
      using key_value_iff [of opt] by auto
    then show ?thesis
      by (simp add: None console_consumer_main_def console_producer_main_def parse invalid_argument_def exit_status_def unhandled_def)
  next
    case (Some kv)
    obtain k v where kv: "kv = (k, v)" by fastforce
    have "\<exists>args. parse_console option [tool, ''--props'', opt] = Inr (Some args) \<and> console_props args = [(k, v)]"
      if "option \<in> {consumer_option, producer_option}" for option
      by (simp add: parse [OF that] Some kv console_args.defs)
    then show ?thesis using key_value_iff [of opt k v] Some kv by simp
  qed
qed

end
