(* ===== verification/Doubles.thy ===== *)
theory Doubles
  imports Std_Strings "HOL-Library.Log_Nat"
begin

text \<open>
  The floating point numbers of the performance tests: IEEE binary64 as rational numbers with infinities and
  not-a-number, every operation rounded to nearest with ties to even. The sign of a zero and of a
  not-a-number is left out, no code looks at it.
\<close>

section \<open>Rounding\<close>

definition round_even :: "rat \<Rightarrow> int" where
  \<comment> \<open>to the nearest integer, ties to the even one\<close>
  "round_even z = (let f = \<lfloor>z\<rfloor>; d = z - of_int f
     in if d < 1 / 2 \<or> (d = 1 / 2 \<and> even f) then f else f + 1)"

lemma round_even_bounds: "\<lfloor>z\<rfloor> \<le> round_even z" "round_even z \<le> \<lfloor>z\<rfloor> + 1"
  by (simp_all add: round_even_def Let_def)

lemma round_even_mono:
  assumes "z \<le> z'"
  shows "round_even z \<le> round_even z'"
proof (cases "\<lfloor>z\<rfloor> = \<lfloor>z'\<rfloor>")
  case True
  then show ?thesis using assms by (auto simp: round_even_def Let_def)
next
  case False
  then have "\<lfloor>z\<rfloor> + 1 \<le> \<lfloor>z'\<rfloor>" using floor_mono [OF assms] by simp
  then show ?thesis using round_even_bounds [of z] round_even_bounds [of z'] by linarith
qed

lemma round_even_of_int [simp]: "round_even (of_int i) = i"
  by (simp add: round_even_def)

lemma round_even_le: "z \<le> of_int i \<Longrightarrow> round_even z \<le> i"
  using round_even_mono [of z "of_int i"] by simp

lemma round_even_ge: "of_int i \<le> z \<Longrightarrow> i \<le> round_even z"
  using round_even_mono [of "of_int i" z] by simp

lemma round_even_near: "\<bar>of_int (round_even z) - z\<bar> \<le> 1 / 2"
  using of_int_floor_le [of z] floor_correct [of z] by (auto simp: round_even_def Let_def abs_le_iff)

definition exponent2 :: "rat \<Rightarrow> int" where
  \<comment> \<open>the exponent of the leading binary digit\<close>
  "exponent2 x = (let (p, q) = quotient_of x; k = bitlen p - bitlen q in if 2 powi k \<le> x then k else k - 1)"

lemma bitlen_powi:
  fixes p :: int
  assumes "0 < p"
  shows "2 powi (bitlen p - 1) \<le> (of_int p :: rat)" "(of_int p :: rat) < 2 powi (bitlen p)"
proof -
  have "1 \<le> bitlen p" using assms by (simp add: bitlen_alt_def)
  then have powers: "(2 :: rat) powi (bitlen p - 1) = of_int (2 ^ nat (bitlen p - 1))"
    "(2 :: rat) powi (bitlen p) = of_int (2 ^ nat (bitlen p))"
    by (simp_all add: power_int_def)
  show "2 powi (bitlen p - 1) \<le> (of_int p :: rat)" "(of_int p :: rat) < 2 powi (bitlen p)"
    unfolding powers of_int_le_iff of_int_less_iff using bitlen_bounds [OF assms] by simp_all
qed

lemma exponent2_bounds:
  assumes "0 < x"
  shows "2 powi (exponent2 x) \<le> x" "x < 2 powi (exponent2 x + 1)"
proof -
  obtain p q where pq: "quotient_of x = (p, q)" by fastforce
  have q: "0 < q" using quotient_of_denom_pos [OF pq] .
  have x: "x = of_int p / of_int q" using quotient_of_div [OF pq] .
  then have p: "0 < p" using assms q by (simp add: zero_less_divide_iff)
  note P = bitlen_powi [OF p] and Q = bitlen_powi [OF q]
  let ?k = "bitlen p - bitlen q"
  have "x < 2 powi (bitlen p) / 2 powi (bitlen q - 1)"
    unfolding x using P Q by (intro frac_less) (simp_all add: p less_imp_le)
  also have "\<dots> = 2 powi (?k + 1)" by (subst power_int_diff [symmetric]) (simp_all add: algebra_simps)
  finally have upper: "x < 2 powi (?k + 1)" .
  have "2 powi (?k - 1) = (2 powi (bitlen p - 1) :: rat) / 2 powi (bitlen q)"
    by (subst power_int_diff [symmetric]) (simp_all add: algebra_simps)
  also have "\<dots> \<le> x" unfolding x using P Q p q by (intro frac_le) simp_all
  finally show "2 powi (exponent2 x) \<le> x" "x < 2 powi (exponent2 x + 1)"
    using upper by (auto simp: exponent2_def pq Let_def)
qed

lemma powi_less_powi [simp]: "(2 :: rat) powi i < 2 powi j \<longleftrightarrow> i < j"
  using power_int_strict_increasing [of i j "2 :: rat"] power_int_increasing [of j i "2 :: rat"]
  by (cases "i < j") (auto simp: not_less)

lemma exponent2_mono:
  assumes "0 < x" "x \<le> y"
  shows "exponent2 x \<le> exponent2 y"
proof -
  have "(2 :: rat) powi (exponent2 x) < 2 powi (exponent2 y + 1)"
    using exponent2_bounds [of x] exponent2_bounds [of y] assms by linarith
  then show ?thesis by simp
qed

definition unit_exponent :: "rat \<Rightarrow> int" where
  \<comment> \<open>of the last of 53 digits, not below that of the subnormal numbers\<close>
  "unit_exponent x = max (exponent2 x - 52) (- 1074)"

definition round_positive :: "rat \<Rightarrow> rat" where
  "round_positive x = (let u = 2 powi unit_exponent x in of_int (round_even (x / u)) * u)"

definition round_double :: "rat \<Rightarrow> rat" where
  "round_double x = (if x = 0 then 0 else if x < 0 then - round_positive (- x) else round_positive x)"

lemma unit_exponent_mono: "0 < x \<Longrightarrow> x \<le> y \<Longrightarrow> unit_exponent x \<le> unit_exponent y"
  using exponent2_mono [of x y] by (simp add: unit_exponent_def)

lemma round_positive_mono:
  assumes "0 < x" "x \<le> y"
  shows "round_positive x \<le> round_positive y"
proof (cases "unit_exponent x = unit_exponent y")
  case True
  have "x / 2 powi unit_exponent y \<le> y / 2 powi unit_exponent y"
    using assms(2) by (intro divide_right_mono) simp_all
  from round_even_mono [OF this] show ?thesis by (simp add: round_positive_def True Let_def)
next
  case False
  then have less: "unit_exponent x < unit_exponent y" using unit_exponent_mono [OF assms] by simp
  then have y: "unit_exponent y = exponent2 y - 52" by (auto simp: unit_exponent_def max_def split: if_splits)
  have y0: "0 < y" using assms by simp
  have "exponent2 x + 1 \<le> unit_exponent x + 53" by (simp add: unit_exponent_def)
  then have "x \<le> 2 powi (unit_exponent x + 53)"
    using exponent2_bounds(2) [OF assms(1)] power_int_increasing [of "exponent2 x + 1" "unit_exponent x + 53" "2 :: rat"] by simp
  then have "x / 2 powi unit_exponent x \<le> of_int (2 ^ 53)"
    by (simp add: power_int_add divide_le_eq mult.commute)
  then have "round_positive x \<le> of_int (2 ^ 53) * 2 powi unit_exponent x"
    unfolding round_positive_def Let_def by (intro mult_right_mono) (simp_all add: round_even_le del: of_int_power)
  also have "\<dots> = 2 powi (unit_exponent x + 53)" by (simp add: power_int_add)
  also have "\<dots> \<le> 2 powi exponent2 y" using less y by (intro power_int_increasing) simp_all
  also have "\<dots> = of_int (2 ^ 52) * 2 powi unit_exponent y" by (simp add: y power_int_diff)
  also have "\<dots> \<le> round_positive y"
  proof -
    have "of_int (2 ^ 52) * 2 powi unit_exponent y \<le> y"
      using exponent2_bounds(1) [OF y0] by (simp add: y power_int_diff)
    then have "of_int (2 ^ 52) \<le> y / 2 powi unit_exponent y" by (simp add: le_divide_eq del: of_int_power)
    then show ?thesis
      unfolding round_positive_def Let_def by (intro mult_right_mono) (simp_all add: round_even_ge del: of_int_power)
  qed
  finally show ?thesis .
qed

lemma round_positive_nonneg: "0 < x \<Longrightarrow> 0 \<le> round_positive x"
  by (simp add: round_positive_def Let_def round_even_ge)

lemma round_double_mono: "x \<le> y \<Longrightarrow> round_double x \<le> round_double y"
  using round_positive_mono [of x y] round_positive_mono [of "- y" "- x"] round_positive_nonneg [of "- x"]
    round_positive_nonneg [of y]
  by (auto simp: round_double_def not_less)

lemma round_double_0 [simp]: "round_double 0 = 0"
  by (simp add: round_double_def)

lemma round_double_nonneg: "0 \<le> x \<Longrightarrow> 0 \<le> round_double x"
  using round_double_mono [of 0 x] by simp

text \<open>Integers of 53 bits are doubles.\<close>

lemma round_positive_int:
  assumes "0 < i" "i \<le> 2 ^ 53"
  shows "round_positive (of_int i) = of_int i"
proof (cases "unit_exponent (of_int i) \<le> 0")
  case True
  then obtain n where n: "unit_exponent (of_int i) = - int n" by (metis nonpos_int_cases)
  have u: "(2 :: rat) powi (- int n) = 1 / of_int (2 ^ n)" by (simp add: power_int_minus_divide)
  have "of_int i / (2 powi (- int n) :: rat) = of_int (i * 2 ^ n)" by (simp add: u)
  then show ?thesis by (simp add: round_positive_def n Let_def del: of_int_mult of_int_power) (simp add: u)
next
  case False
  have "(2 :: rat) powi (exponent2 (of_int i)) \<le> of_int i" using exponent2_bounds(1) [of "of_int i"] assms(1) by simp
  also have "\<dots> \<le> 2 powi 53" using assms(2) by (metis of_int_le_iff of_int_numeral of_int_power power_int_numeral)
  finally have "exponent2 (of_int i) \<le> 53"
    by (metis not_le powi_less_powi)
  with False have e: "exponent2 (of_int i) = 53" by (auto simp: unit_exponent_def)
  have "(2 :: rat) powi 53 \<le> of_int i" using exponent2_bounds(1) [of "of_int i"] assms(1) e by simp
  with assms(2) have "i = 2 ^ 53" by (metis antisym of_int_le_iff of_int_numeral of_int_power power_int_numeral)
  moreover have "round_even (9007199254740992 / 2) = 4503599627370496"
    using round_even_of_int [of 4503599627370496] by simp
  ultimately show ?thesis using e by (simp add: round_positive_def unit_exponent_def)
qed

lemma round_double_int: "\<bar>i\<bar> \<le> 2 ^ 53 \<Longrightarrow> round_double (of_int i) = of_int i"
  using round_positive_int [of i] round_positive_int [of "- i"] by (auto simp: round_double_def)

section \<open>Arithmetic\<close>

datatype double = Finite rat | Infinite bool | NaN

definition to_double :: "rat \<Rightarrow> double" where
  \<comment> \<open>the argument of \<open>Infinite\<close>: whether it is the negative one\<close>
  "to_double x = (let r = round_double x in if \<bar>r\<bar> < 2 ^ 1024 then Finite r else Infinite (r < 0))"

definition double_of_nat :: "nat \<Rightarrow> double" where
  "double_of_nat n = to_double (of_nat n)"

fun double_mult :: "double \<Rightarrow> double \<Rightarrow> double" where
  "double_mult (Finite a) (Finite b) = to_double (a * b)"
| "double_mult (Infinite n) (Finite b) = (if b = 0 then NaN else Infinite (n \<noteq> (b < 0)))"
| "double_mult (Finite a) (Infinite n) = (if a = 0 then NaN else Infinite (n \<noteq> (a < 0)))"
| "double_mult (Infinite n) (Infinite m) = Infinite (n \<noteq> m)"
| "double_mult x y = NaN"

fun double_div :: "double \<Rightarrow> double \<Rightarrow> double" where
  \<comment> \<open>a zero divisor is taken as positive\<close>
  "double_div (Finite a) (Finite b) = (if b \<noteq> 0 then to_double (a / b) else if a = 0 then NaN else Infinite (a < 0))"
| "double_div (Infinite n) (Finite b) = Infinite (n \<noteq> (b < 0))"
| "double_div (Finite a) (Infinite n) = Finite 0"
| "double_div x y = NaN"

definition trunc_rat :: "rat \<Rightarrow> int" where
  "trunc_rat r = (if r < 0 then \<lceil>r\<rceil> else \<lfloor>r\<rfloor>)"

fun double_to :: "int \<Rightarrow> int \<Rightarrow> double \<Rightarrow> std_exn + int" where
  \<comment> \<open>conversion to an integer type with the given bounds: undefined if the truncated value does not fit\<close>
  "double_to lo hi (Finite r) =
     (if lo \<le> trunc_rat r \<and> trunc_rat r \<le> hi then Inr (trunc_rat r)
      else Inl (Undefined_behaviour ''conversion of a double out of range''))"
| "double_to lo hi x = Inl (Undefined_behaviour ''conversion of a double out of range'')"

definition double_to_size_t :: "double \<Rightarrow> std_exn + nat" where
  "double_to_size_t x = (case double_to 0 (2 ^ 64 - 1) x of Inl e \<Rightarrow> Inl e | Inr i \<Rightarrow> Inr (nat i))"

definition double_to_int :: "double \<Rightarrow> std_exn + int" where
  "double_to_int = double_to (- (2 ^ 31)) (2 ^ 31 - 1)"

lemma trunc_rat_mono:
  assumes "x \<le> y"
  shows "trunc_rat x \<le> trunc_rat y"
proof (cases "x < 0 \<and> 0 \<le> y")
  case True
  then have "\<lceil>x\<rceil> \<le> 0" "0 \<le> \<lfloor>y\<rfloor>" by (simp_all add: ceiling_le_zero)
  then have "\<lceil>x\<rceil> \<le> \<lfloor>y\<rfloor>" by (rule order_trans)
  with True show ?thesis by (simp add: trunc_rat_def)
next
  case False
  then show ?thesis using assms ceiling_mono [OF assms] floor_mono [OF assms] by (auto simp: trunc_rat_def)
qed

lemma trunc_rat_nonneg: "0 \<le> x \<Longrightarrow> trunc_rat x = \<lfloor>x\<rfloor>"
  by (simp add: trunc_rat_def)

lemma to_double_int: "\<bar>i\<bar> \<le> 2 ^ 53 \<Longrightarrow> to_double (of_int i) = Finite (of_int i)"
proof -
  assume i: "\<bar>i\<bar> \<le> 2 ^ 53"
  have "\<bar>rat_of_int i\<bar> = of_int \<bar>i\<bar>" by simp
  also have "\<dots> \<le> of_int (2 ^ 53)" using i by (simp only: of_int_le_iff)
  also have "\<dots> < 2 ^ 1024" by simp
  finally show ?thesis using i by (simp add: to_double_def round_double_int)
qed

section \<open>Fixed notation\<close>

definition pad_left :: "nat \<Rightarrow> char \<Rightarrow> string \<Rightarrow> string" where
  "pad_left width c str = replicate (width - length str) c @ str"

definition fixed_nonneg :: "nat \<Rightarrow> rat \<Rightarrow> string" where
  "fixed_nonneg prec r =
     (let n = nat (round_even (r * 10 ^ prec))
      in show_nat (n div 10 ^ prec) @ (if prec = 0 then [] else CHR ''.'' # pad_left prec (CHR ''0'') (show_nat (n mod 10 ^ prec))))"

fun fixed_text :: "nat \<Rightarrow> double \<Rightarrow> string" where
  "fixed_text prec (Finite r) = (if r < 0 then CHR ''-'' # fixed_nonneg prec (- r) else fixed_nonneg prec r)"
| "fixed_text prec (Infinite n) = (if n then ''-inf'' else ''inf'')"
| "fixed_text prec NaN = ''nan''"

definition format_fixed :: "nat \<Rightarrow> nat \<Rightarrow> double \<Rightarrow> string" where
  \<comment> \<open>\<open>{:width.prec f}\<close>\<close>
  "format_fixed width prec x = pad_left width (CHR '' '') (fixed_text prec x)"

definition format_nat :: "nat \<Rightarrow> nat \<Rightarrow> string" where
  \<comment> \<open>\<open>{:>width}\<close>\<close>
  "format_nat width n = pad_left width (CHR '' '') (show_nat n)"

definition format_int :: "nat \<Rightarrow> int \<Rightarrow> string" where
  "format_int width i = pad_left width (CHR '' '') (show_int i)"

end
