(* ===== verification/Performance_Tests.thy ===== *)
theory Performance_Tests
  imports Command_Line Doubles "HOL-Library.Multiset" "HOL-Library.Word"
begin

text \<open>
  \<open>KafkaProducerPerfTest\<close> and \<open>KafkaConsumerPerfTest\<close>: their options and configuration, the statistics of a
  period with its percentiles, and the queue of periods between the sending loop, the delivery callbacks
  and the reporting thread.
\<close>

section \<open>Options\<close>

text \<open>The constructor of \<open>Arguments\<close> ends early by the help, which exits at once, or by an exception.\<close>

datatype early_end = Help_exit | Threw std_exn

definition threw :: "std_exn + 'a \<Rightarrow> early_end + 'a" where
  "threw r = (case r of Inl e \<Rightarrow> Inl (Threw e) | Inr x \<Rightarrow> Inr x)"

definition is_property :: "string \<Rightarrow> bool" where
  "is_property next_arg \<longleftrightarrow> take 2 next_arg \<noteq> ''--'' \<and> CHR ''='' \<in> set next_arg"

definition put_command_property :: "(string, string) omap \<Rightarrow> string \<Rightarrow> (string, string) omap" where
  \<comment> \<open>split at the first equals sign\<close>
  "put_command_property m next_arg =
     omap_put (takeWhile (\<lambda>c. c \<noteq> CHR ''='') next_arg) (tl (dropWhile (\<lambda>c. c \<noteq> CHR ''='') next_arg)) m"

definition size_t_of :: "int \<Rightarrow> nat" where
  \<comment> \<open>the conversion of an \<open>int\<close> to \<open>std::size_t\<close>\<close>
  "size_t_of i = nat (i mod 2 ^ 64)"

record perf_args =
  perf_brokerList :: string
  perf_topic :: string
  perf_numRecords :: nat
  perf_props :: "(string, string) omap"
  reportingIntervalMs :: nat

record consumer_perf_args = perf_args +
  perf_group :: string
  fromLatest :: bool
  showLatency :: bool

record producer_perf_args = perf_args +
  throughput :: int
  recordSize :: nat
  warmupRecords :: nat

definition consumer_perf_start :: consumer_perf_args where
  "consumer_perf_start = \<lparr>perf_brokerList = [], perf_topic = [], perf_numRecords = 0, perf_props = [],
     reportingIntervalMs = 5000, perf_group = [], fromLatest = False, showLatency = False\<rparr>"

definition producer_perf_start :: producer_perf_args where
  "producer_perf_start = \<lparr>perf_brokerList = [], perf_topic = [], perf_numRecords = 0, perf_props = [],
     reportingIntervalMs = 5000, throughput = - 1, recordSize = 0, warmupRecords = 0\<rparr>"

definition invalid_parameter :: "string \<Rightarrow> early_end" where
  "invalid_parameter arg = Threw (Invalid_argument (''Invalid parameter: '' @ arg @ ''!''))"

definition consumer_perf_option ::
  "string \<Rightarrow> string list \<Rightarrow> consumer_perf_args \<Rightarrow> early_end + nat \<times> consumer_perf_args" where
  "consumer_perf_option arg rest a =
     (if arg = ''--help'' \<or> arg = ''-h'' then Inl Help_exit
      else if valued ''--bootstrap-server'' arg rest then Inr (1, a\<lparr>perf_brokerList := hd rest\<rparr>)
      else if valued ''--topic'' arg rest then Inr (1, a\<lparr>perf_topic := hd rest\<rparr>)
      else if valued ''--num-records'' arg rest then
        (case threw (stoull (hd rest)) of Inl e \<Rightarrow> Inl e | Inr n \<Rightarrow> Inr (1, a\<lparr>perf_numRecords := n\<rparr>))
      else if arg = ''--command-property'' then
        (let given = takeWhile is_property rest
         in Inr (length given, a\<lparr>perf_props := foldl put_command_property (perf_props a) given\<rparr>))
      else if valued ''--group'' arg rest then Inr (1, a\<lparr>perf_group := hd rest\<rparr>)
      else if arg = ''--from-latest'' then Inr (0, a\<lparr>fromLatest := True\<rparr>)
      else if arg = ''--show-latency'' then Inr (0, a\<lparr>showLatency := True\<rparr>)
      else if valued ''--reporting-interval'' arg rest then
        (case threw (stoi (hd rest)) of Inl e \<Rightarrow> Inl e | Inr i \<Rightarrow> Inr (1, a\<lparr>reportingIntervalMs := size_t_of i\<rparr>))
      else Inl (invalid_parameter arg))"

definition producer_perf_option ::
  "string \<Rightarrow> string list \<Rightarrow> producer_perf_args \<Rightarrow> early_end + nat \<times> producer_perf_args" where
  "producer_perf_option arg rest a =
     (if arg = ''--help'' \<or> arg = ''-h'' then Inl Help_exit
      else if valued ''--bootstrap-server'' arg rest then Inr (1, a\<lparr>perf_brokerList := hd rest\<rparr>)
      else if valued ''--topic'' arg rest then Inr (1, a\<lparr>perf_topic := hd rest\<rparr>)
      else if valued ''--num-records'' arg rest then
        (case threw (stoull (hd rest)) of Inl e \<Rightarrow> Inl e | Inr n \<Rightarrow> Inr (1, a\<lparr>perf_numRecords := n\<rparr>))
      else if valued ''--throughput'' arg rest then
        (case threw (stoi (hd rest)) of Inl e \<Rightarrow> Inl e | Inr i \<Rightarrow> Inr (1, a\<lparr>throughput := i\<rparr>))
      else if arg = ''--command-property'' then
        (let given = takeWhile is_property rest
         in Inr (length given, a\<lparr>perf_props := foldl put_command_property (perf_props a) given\<rparr>))
      else if valued ''--warmup-records'' arg rest then
        (case threw (stoull (hd rest)) of Inl e \<Rightarrow> Inl e | Inr n \<Rightarrow> Inr (1, a\<lparr>warmupRecords := n\<rparr>))
      else if valued ''--reporting-interval'' arg rest then
        (case threw (stoi (hd rest)) of Inl e \<Rightarrow> Inl e | Inr i \<Rightarrow> Inr (1, a\<lparr>reportingIntervalMs := size_t_of i\<rparr>))
      else if valued ''--record-size'' arg rest then
        (case threw (stoull (hd rest)) of Inl e \<Rightarrow> Inl e | Inr n \<Rightarrow> Inr (1, a\<lparr>recordSize := n\<rparr>))
      else Inl (invalid_parameter arg))"

definition missing :: "string \<Rightarrow> early_end + 'a" where
  "missing option = Inl (Threw (Invalid_argument (''Missing required '' @ option)))"

definition parse_consumer_perf :: "string list \<Rightarrow> early_end + consumer_perf_args" where
  "parse_consumer_perf argv = (case scan_args consumer_perf_option (drop 1 argv) consumer_perf_start of
       Inl e \<Rightarrow> Inl e
     | Inr a \<Rightarrow>
         if perf_brokerList a = [] then missing ''--bootstrap-server''
         else if perf_topic a = [] then missing ''--topic''
         else if perf_numRecords a = 0 then missing ''--num-records''
         else Inr a)"

definition parse_producer_perf :: "string list \<Rightarrow> early_end + producer_perf_args" where
  "parse_producer_perf argv = (case scan_args producer_perf_option (drop 1 argv) producer_perf_start of
       Inl e \<Rightarrow> Inl e
     | Inr a \<Rightarrow>
         if perf_brokerList a = [] then missing ''--bootstrap-server''
         else if perf_topic a = [] then missing ''--topic''
         else if perf_numRecords a = 0 then missing ''--num-records''
         else if recordSize a = 0 then missing ''--record-size''
         else if warmupRecords a > perf_numRecords a then
           Inl (Threw (Invalid_argument ''error: The value for --warmup-records must be strictly fewer than the number of records in the test, --num-records.''))
         else Inr a)"

definition AUTO_OFFSET_RESET :: string where
  "AUTO_OFFSET_RESET = ''auto.offset.reset''"

definition MESSAGE_TIMEOUT_MS :: string where
  "MESSAGE_TIMEOUT_MS = ''message.timeout.ms''"

definition MAX_LATENCY_MS :: nat where
  "MAX_LATENCY_MS = 10000"

definition consumer_perf_config :: "string \<Rightarrow> consumer_perf_args \<Rightarrow> (exn + unit) \<times> Properties" where
  \<comment> \<open>\<open>gid\<close> is the group id made from the id of the thread\<close>
  "consumer_perf_config gid a =
     seqM (put_text BOOTSTRAP_SERVERS (perf_brokerList a)) (\<lambda>_.
     seqM (put_text GROUP_ID (if perf_group a \<noteq> [] then perf_group a else gid)) (\<lambda>_.
     seqM (put_all (perf_props a)) (\<lambda>_.
     seqM (put_text AUTO_OFFSET_RESET (if fromLatest a then ''latest'' else ''earliest'')) (\<lambda>_.
     props_put LOG_CB (LogCallbackObj (Some null_logger)))))) []"

definition producer_perf_config :: "string \<Rightarrow> producer_perf_args \<Rightarrow> (exn + unit) \<times> Properties" where
  "producer_perf_config cid a =
     seqM (put_text BOOTSTRAP_SERVERS (perf_brokerList a)) (\<lambda>_.
     seqM (put_text CLIENT_ID cid) (\<lambda>_.
     seqM (put_all (perf_props a)) (\<lambda>_.
     seqM (put_text MESSAGE_TIMEOUT_MS (show_nat MAX_LATENCY_MS)) (\<lambda>_.
     props_put LOG_CB (LogCallbackObj (Some null_logger)))))) []"

section \<open>The statistics of a period\<close>

record period_stats =
  warmup :: bool
  tsBeginMs :: "64 word"
  tsEndMs :: "64 word"
  msgSent :: nat
  msgSucceed :: nat
  msgFailed :: nat
  msgSizeSum :: nat
  latencyMsSum :: "64 word"
  latencyMsMax :: "64 word"
  latencyPerMsCount :: "nat list"

definition new_period :: "bool \<Rightarrow> 64 word \<Rightarrow> period_stats" where
  "new_period isWarmingUp now = \<lparr>warmup = isWarmingUp, tsBeginMs = now, tsEndMs = 0, msgSent = 0, msgSucceed = 0,
     msgFailed = 0, msgSizeSum = 0, latencyMsSum = 0, latencyMsMax = 0, latencyPerMsCount = replicate MAX_LATENCY_MS 0\<rparr>"

definition latency_slot :: "64 word \<Rightarrow> nat" where
  \<comment> \<open>\<open>std::min(latencyMs, MAX_LATENCY_MS - 1)\<close>\<close>
  "latency_slot latencyMs = min (unat latencyMs) (MAX_LATENCY_MS - 1)"

definition update_succeeded :: "nat \<Rightarrow> 64 word \<Rightarrow> 64 word \<Rightarrow> period_stats \<Rightarrow> std_exn + period_stats" where
  \<comment> \<open>\<open>update(metadata)\<close>: a time stamp after the clock gives a latency that wraps around\<close>
  "update_succeeded valueSize timestamp now p =
     (let latencyMs = now - timestamp
      in case vec_at (latencyPerMsCount p) (latency_slot latencyMs) of
           Inl e \<Rightarrow> Inl e
         | Inr c \<Rightarrow> Inr (p\<lparr>msgSucceed := msgSucceed p + 1, msgSizeSum := msgSizeSum p + valueSize,
             latencyMsSum := latencyMsSum p + latencyMs, latencyMsMax := max (latencyMsMax p) latencyMs,
             latencyPerMsCount := (latencyPerMsCount p)[latency_slot latencyMs := c + 1]\<rparr>))"


text \<open>
  The percentiles: one pass over the counts by latency with the sum so far; a percentile is set at the first
  latency where the sum passes its index.
\<close>

fun percentile_scan :: "nat list \<Rightarrow> nat \<Rightarrow> nat \<Rightarrow> nat list \<Rightarrow> nat option list \<Rightarrow> nat option list" where
  "percentile_scan targets index i [] found = found"
| "percentile_scan targets index i (c # counts) found =
     percentile_scan targets (index + c) (i + 1) counts
       (map2 (\<lambda>target f. if f = None \<and> target < index + c then Some i else f) targets found)"

definition percentile_index :: "nat \<Rightarrow> nat \<Rightarrow> std_exn + nat" where
  \<comment> \<open>\<open>n\<close> times \<open>q\<close> thousandths, truncated\<close>
  "percentile_index q n = double_to_size_t (double_mult (double_of_nat n) (to_double (of_nat q / 1000)))"

definition percentile_indexes :: "nat \<Rightarrow> std_exn + nat list" where
  "percentile_indexes n =
     (case percentile_index 500 n of Inl e \<Rightarrow> Inl e | Inr p50 \<Rightarrow>
      case percentile_index 950 n of Inl e \<Rightarrow> Inl e | Inr p95 \<Rightarrow>
      case percentile_index 990 n of Inl e \<Rightarrow> Inl e | Inr p99 \<Rightarrow>
      case percentile_index 999 n of Inl e \<Rightarrow> Inl e | Inr p999 \<Rightarrow> Inr [p50, p95, p99, p999])"

definition latency_percentiles :: "period_stats \<Rightarrow> std_exn + nat list" where
  \<comment> \<open>a percentile that is not set is 0\<close>
  "latency_percentiles p =
     (case (if msgSucceed p > 0 then percentile_indexes (msgSucceed p - 1) else Inr []) of
        Inl e \<Rightarrow> Inl e
      | Inr targets \<Rightarrow>
          (let found = (if msgSucceed p > 0 then percentile_scan targets 0 0 (latencyPerMsCount p) (replicate 4 None)
                        else replicate 4 None)
           in Inr (map (\<lambda>f. case f of None \<Rightarrow> 0 | Some i \<Rightarrow> i) found)))"

section \<open>The percentiles are order statistics\<close>

lemma scan_one:
  "percentile_scan targets index i counts found =
     map2 (\<lambda>target f. hd (percentile_scan [target] index i counts [f])) targets found" if "length found = length targets"
  using that
proof (induction counts arbitrary: index i found)
  case Nil
  then show ?case by (induction targets found rule: list_induct2') simp_all
next
  case (Cons c counts)
  let ?step = "\<lambda>target f. if f = None \<and> target < index + c then Some i else f"
  have "percentile_scan targets index i (c # counts) found =
      map2 (\<lambda>target f. hd (percentile_scan [target] (index + c) (i + 1) counts [f])) targets (map2 ?step targets found)"
    using Cons by simp
  also have "\<dots> = map2 (\<lambda>target f. hd (percentile_scan [target] (index + c) (i + 1) counts [?step target f])) targets found"
    using Cons.prems by (induction targets arbitrary: found) (auto simp: length_Suc_conv)
  finally show ?case by simp
qed

lemma scan_found: "percentile_scan [t] index i counts [Some x] = [Some x]"
  by (induction counts arbitrary: index i) simp_all

lemma scan_first:
  assumes "k < length counts" "t < index + sum_list (take (Suc k) counts)" "index + sum_list (take k counts) \<le> t"
  shows "percentile_scan [t] index i counts [None] = [Some (i + k)]"
  using assms
proof (induction counts arbitrary: index i k)
  case (Cons c counts)
  show ?case
  proof (cases k)
    case 0
    with Cons.prems show ?thesis by (simp add: scan_found)
  next
    case (Suc k')
    with Cons.prems Cons.IH [of k' "index + c" "i + 1"] show ?thesis by simp
  qed
qed simp

definition histogram :: "nat \<Rightarrow> nat list \<Rightarrow> nat list" where
  "histogram n xs = map (count_list xs) [0..<n]"

lemma histogram_insert: "x < n \<Longrightarrow> (histogram n xs)[x := histogram n xs ! x + 1] = histogram n (xs @ [x])"
  by (auto simp: histogram_def list_eq_iff_nth_eq nth_list_update)

lemma sum_histogram: "k \<le> n \<Longrightarrow> sum_list (take k (histogram n xs)) = length (filter (\<lambda>x. x < k) xs)"
proof (induction k)
  case (Suc k)
  have "length (filter (\<lambda>x. x < Suc k) xs) = length (filter (\<lambda>x. x < k) xs) + count_list xs k"
    by (induction xs) auto
  then show ?case using Suc by (simp add: histogram_def take_Suc_conv_app_nth)
qed simp

lemma sorted_nth_filter:
  assumes "sorted xs" "t < length xs"
  shows "length (filter (\<lambda>x. x < xs ! t) xs) \<le> t \<and> t < length (filter (\<lambda>x. x < Suc (xs ! t)) (xs :: nat list))"
proof -
  have split: "xs = take t xs @ xs ! t # drop (Suc t) xs" using assms(2) by (rule id_take_nth_drop)
  have parts: "\<forall>x\<in>set (take t xs). x \<le> xs ! t" "\<forall>x\<in>set (drop (Suc t) xs). xs ! t \<le> x"
    using assms(1) split by (metis sorted_append sorted_wrt.simps(2) append_Cons list.set_intros(1) sorted_wrt_append)+
  have "filter (\<lambda>x. x < xs ! t) xs = filter (\<lambda>x. x < xs ! t) (take t xs)"
    using parts(2) by (subst split) (auto simp: filter_empty_conv not_less)
  then have "length (filter (\<lambda>x. x < xs ! t) xs) \<le> t"
    using length_filter_le [of "\<lambda>x. x < xs ! t" "take t xs"] assms(2) by simp
  moreover have "filter (\<lambda>x. x < Suc (xs ! t)) (take t xs) = take t xs"
    using parts(1) by (auto simp: filter_id_conv less_Suc_eq_le)
  then have "t < length (filter (\<lambda>x. x < Suc (xs ! t)) xs)"
    using assms(2) by (subst split) simp
  ultimately show ?thesis ..
qed

lemma percentile_of_histogram:
  assumes "t < length xs" "\<forall>x\<in>set xs. x < n"
  shows "percentile_scan [t] 0 0 (histogram n xs) [None] = [Some (sort xs ! t)]"
proof -
  let ?k = "sort xs ! t"
  have k: "?k < n" using assms nth_mem [of t "sort xs"] by simp
  have count: "length (filter P (sort xs)) = length (filter P xs)" for P
    by (metis filter_sort length_sort)
  have "length (filter (\<lambda>x. x < ?k) xs) \<le> t \<and> t < length (filter (\<lambda>x. x < Suc ?k) xs)"
    using sorted_nth_filter [of "sort xs" t] assms(1) by (simp add: count)
  then show ?thesis
    using scan_first [of ?k "histogram n xs" t 0 0] k by (simp add: sum_histogram) (simp add: histogram_def)
qed

text \<open>The reports of a period: value size, time stamp and the clock at each of the successful ones.\<close>

fun update_all :: "(nat \<times> 64 word \<times> 64 word) list \<Rightarrow> period_stats \<Rightarrow> std_exn + period_stats" where
  "update_all [] p = Inr p"
| "update_all ((sz, ts, now) # reports) p =
     (case update_succeeded sz ts now p of Inl e \<Rightarrow> Inl e | Inr p' \<Rightarrow> update_all reports p')"

definition latencies :: "(nat \<times> 64 word \<times> 64 word) list \<Rightarrow> 64 word list" where
  "latencies reports = map (\<lambda>(sz, ts, now). now - ts) reports"

definition period_counts :: "64 word list \<Rightarrow> period_stats \<Rightarrow> bool" where
  "period_counts ls p \<longleftrightarrow> msgSucceed p = length ls \<and> latencyPerMsCount p = histogram MAX_LATENCY_MS (map latency_slot ls) \<and>
     latencyMsSum p = sum_list ls \<and> (\<forall>l\<in>set ls. l \<le> latencyMsMax p) \<and> latencyMsMax p \<in> insert 0 (set ls)"

lemma latency_slot_less [simp]: "latency_slot l < MAX_LATENCY_MS"
  by (simp add: latency_slot_def MAX_LATENCY_MS_def)

lemma length_histogram [simp]: "length (histogram n xs) = n"
  by (simp add: histogram_def)

lemma update_succeeded_counts:
  assumes "period_counts ls p"
  shows "\<exists>p'. update_succeeded sz ts now p = Inr p' \<and> period_counts (ls @ [now - ts]) p' \<and>
    msgSizeSum p' = msgSizeSum p + sz \<and> msgSent p' = msgSent p \<and> msgFailed p' = msgFailed p \<and> tsEndMs p' = tsEndMs p"
  using assms histogram_insert [of "latency_slot (now - ts)" MAX_LATENCY_MS "map latency_slot ls"]
  by (auto simp: update_succeeded_def period_counts_def Let_def max_def)

lemma update_all_counts:
  "period_counts ls p \<Longrightarrow> \<exists>p'. update_all reports p = Inr p' \<and> period_counts (ls @ latencies reports) p' \<and>
     msgSizeSum p' = msgSizeSum p + sum_list (map fst reports)"
proof (induction reports arbitrary: ls p)
  case (Cons r reports)
  obtain sz ts now where r: "r = (sz, ts, now)" by (cases r) auto
  from update_succeeded_counts [OF Cons.prems, of sz ts now] obtain p1 where
    p1: "update_succeeded sz ts now p = Inr p1" "period_counts (ls @ [now - ts]) p1" "msgSizeSum p1 = msgSizeSum p + sz" by blast
  from Cons.IH [OF p1(2)] p1 show ?case by (auto simp: r latencies_def)
qed (simp add: latencies_def)

lemma period_counts_new: "period_counts [] (new_period warm now)"
proof -
  have "replicate MAX_LATENCY_MS 0 = map (count_list ([] :: nat list)) [0..<MAX_LATENCY_MS]"
    by (intro nth_equalityI) simp_all
  then show ?thesis by (simp add: period_counts_def new_period_def histogram_def)
qed

text \<open>The indexes stay below the number of latencies: rounding is monotone, and a count of 53 bits is a double.\<close>

lemma percentile_index_le:
  assumes "n \<le> 2 ^ 53" "q \<le> 1000"
  obtains i where "percentile_index q n = Inr i" "i \<le> n"
proof -
  let ?c = "round_double (of_nat q / 1000)" and ?n = "of_nat n :: rat"
  have n: "double_of_nat n = Finite ?n"
    using to_double_int [of "int n"] assms(1) by (simp add: double_of_nat_def)
  have c: "0 \<le> ?c" "?c \<le> 1"
    using round_double_mono [of "of_nat q / 1000" 1] round_double_int [of 1] assms(2)
    by (simp_all add: round_double_nonneg)
  then have "to_double (of_nat q / 1000) = Finite ?c" by (simp add: to_double_def Let_def)
  moreover have "?n * ?c \<le> ?n" using c by (simp add: mult_left_le)
  then have le: "round_double (?n * ?c) \<le> ?n"
    using round_double_mono [of "?n * ?c" ?n] round_double_int [of "int n"] assms(1) by simp
  moreover have ge: "0 \<le> round_double (?n * ?c)" using c by (intro round_double_nonneg) simp
  moreover have small: "?n \<le> 2 ^ 53" using assms(1) by (metis of_nat_le_iff of_nat_numeral of_nat_power)
  moreover have "(2 :: rat) ^ 53 < 2 ^ 1024" by simp
  ultimately have "double_mult (double_of_nat n) (to_double (of_nat q / 1000)) = Finite (round_double (?n * ?c))"
    by (simp add: n to_double_def)
  moreover have "\<lfloor>round_double (?n * ?c)\<rfloor> \<le> int n" using floor_mono [OF le] by simp
  moreover have "round_double (?n * ?c) < 18446744073709551616" using le small by simp
  ultimately show ?thesis
    using ge by (intro that [of "nat \<lfloor>round_double (?n * ?c)\<rfloor>"])
      (simp_all add: percentile_index_def double_to_size_t_def trunc_rat_nonneg)
qed

lemma percentile_indexes_are:
  assumes "n \<le> 2 ^ 53"
  obtains targets where "percentile_indexes n = Inr targets" "length targets = 4" "\<forall>t\<in>set targets. t \<le> n"
    "map Inr targets = map (\<lambda>q. percentile_index q n) [500, 950, 990, 999]"
proof -
  obtain a where a: "percentile_index 500 n = Inr a" "a \<le> n" by (rule percentile_index_le [OF assms, of 500]) simp_all
  obtain b where b: "percentile_index 950 n = Inr b" "b \<le> n" by (rule percentile_index_le [OF assms, of 950]) simp_all
  obtain c where c: "percentile_index 990 n = Inr c" "c \<le> n" by (rule percentile_index_le [OF assms, of 990]) simp_all
  obtain d where d: "percentile_index 999 n = Inr d" "d \<le> n" by (rule percentile_index_le [OF assms, of 999]) simp_all
  from a b c d show ?thesis by (intro that [of "[a, b, c, d]"]) (simp_all add: percentile_indexes_def)
qed

lemma percentiles_of_counts:
  assumes "period_counts ls p" "ls \<noteq> []" "percentile_indexes (length ls - 1) = Inr targets" "length targets = 4"
    "\<forall>t\<in>set targets. t < length ls"
  shows "latency_percentiles p = Inr (map (\<lambda>t. sort (map latency_slot ls) ! t) targets)"
proof -
  have found: "percentile_scan [t] 0 0 (histogram MAX_LATENCY_MS (map latency_slot ls)) [None] =
      [Some (sort (map latency_slot ls) ! t)]" if "t \<in> set targets" for t
    using assms(5) that by (intro percentile_of_histogram) auto
  have "percentile_scan targets 0 0 (histogram MAX_LATENCY_MS (map latency_slot ls)) (replicate 4 None) =
      map2 (\<lambda>target f. hd (percentile_scan [target] 0 0 (histogram MAX_LATENCY_MS (map latency_slot ls)) [f])) targets (replicate 4 None)"
    using assms(4) by (intro scan_one) simp
  also have "\<dots> = map (\<lambda>t. hd (percentile_scan [t] 0 0 (histogram MAX_LATENCY_MS (map latency_slot ls)) [None])) targets"
    using assms(4) by (simp add: zip_replicate2 comp_def)
  also have "\<dots> = map (\<lambda>t. Some (sort (map latency_slot ls) ! t)) targets"
    using found by (intro map_cong) simp_all
  finally show ?thesis
    using assms(1,2,3) by (simp add: latency_percentiles_def period_counts_def comp_def)
qed

section \<open>The queue of periods\<close>

text \<open>
  The objects that shared pointers keep alive are the list \<open>periods\<close>, a pointer is its index. \<open>inflight\<close>
  holds, for every record that was handed to \<open>send\<close> and not reported yet, the period its callback holds;
  \<open>uncounted\<close> is the period between the \<open>send\<close> and \<open>increaseMsgSentCount\<close>; \<open>reported\<close> is what the
  reporting thread has printed.
\<close>

record perf_state =
  periods :: "period_stats list"
  statsList :: "nat list"
  currentStats :: "nat option"
  inflight :: "nat multiset"
  uncounted :: "nat option"
  reported :: "nat list"


definition at_period :: "nat \<Rightarrow> (period_stats \<Rightarrow> period_stats) \<Rightarrow> perf_state \<Rightarrow> perf_state" where
  "at_period i f s = s\<lparr>periods := (periods s)[i := f (periods s ! i)]\<rparr>"










lemma at_period_simps [simp]:
  "statsList (at_period i f s) = statsList s" "currentStats (at_period i f s) = currentStats s"
  "inflight (at_period i f s) = inflight s" "uncounted (at_period i f s) = uncounted s"
  "reported (at_period i f s) = reported s" "length (periods (at_period i f s)) = length (periods s)"
  "j < length (periods s) \<Longrightarrow> periods (at_period i f s) ! j = (if i = j then f (periods s ! j) else periods s ! j)"
  by (simp_all add: at_period_def nth_list_update)


lemma new_period_simps [simp]:
  "msgSent (new_period w t) = 0" "msgSucceed (new_period w t) = 0" "msgFailed (new_period w t) = 0"
  "length (latencyPerMsCount (new_period w t)) = MAX_LATENCY_MS"
  by (simp_all add: new_period_def)














section \<open>The consumer's test\<close>

definition stats_header :: "bool \<Rightarrow> string" where
  "stats_header withLatencyInfo = (if withLatencyInfo
     then ''start.time, end.time, data.consumed.in.MB, MB.sec, data.consumed.in.nMsg, nMsg.sec''
     else ''start.time, end.time, data.consumed.in.MB, MB.sec, data.consumed.in.nMsg, nMsg.sec, avg.latency.ms, max.latency.ms'')"

record consumer_period =
  cp_tsBeginMs :: "64 word"
  cp_tsEndMs :: "64 word"
  msgReceived :: nat
  bytesReceived :: nat
  cp_latencyMsSum :: "64 word"
  cp_latencyMsMax :: "64 word"

definition consumer_new_period :: "64 word \<Rightarrow> consumer_period" where
  "consumer_new_period now = \<lparr>cp_tsBeginMs = now, cp_tsEndMs = 0, msgReceived = 0, bytesReceived = 0,
     cp_latencyMsSum = 0, cp_latencyMsMax = 0\<rparr>"

definition consumer_update :: "nat \<Rightarrow> 64 word \<Rightarrow> 64 word \<Rightarrow> consumer_period \<Rightarrow> consumer_period" where
  \<comment> \<open>value size and time stamp of the record, the clock after the poll\<close>
  "consumer_update sz timestamp ts p =
     (let latencyMs = ts - timestamp
      in p\<lparr>msgReceived := msgReceived p + 1, bytesReceived := bytesReceived p + sz,
           cp_latencyMsSum := cp_latencyMsSum p + latencyMs, cp_latencyMsMax := max (cp_latencyMsMax p) latencyMs\<rparr>)"

text \<open>A record is an error, or its value's size with its time stamp.\<close>

type_synonym perf_record = "(nat \<times> 64 word) option"

fun count_records :: "nat \<Rightarrow> 64 word \<Rightarrow> perf_record list \<Rightarrow> nat \<times> consumer_period \<Rightarrow> nat \<times> consumer_period" where
  "count_records numRecords currentTs [] np = np"
| "count_records numRecords currentTs (None # recs) np = count_records numRecords currentTs recs np"
| "count_records numRecords currentTs (Some (sz, timestamp) # recs) (n, p) =
     (let p' = consumer_update sz timestamp currentTs p
      in if n + 1 \<ge> numRecords then (n + 1, p') else count_records numRecords currentTs recs (n + 1, p'))"

record consumer_run =
  cr_numReceived :: nat
  cr_periodStart :: "64 word"
  cr_closed :: "consumer_period list"
  cr_current :: consumer_period

definition consumer_roll :: "64 word \<Rightarrow> 64 word \<Rightarrow> consumer_run \<Rightarrow> consumer_run" where
  \<comment> \<open>\<open>rollOutNewPeriodStats\<close>, which reads the clock twice\<close>
  "consumer_roll endMs beginMs s =
     s\<lparr>cr_closed := cr_closed s @ [(cr_current s)\<lparr>cp_tsEndMs := endMs\<rparr>], cr_current := consumer_new_period beginMs\<rparr>"

definition consumer_batch :: "nat \<Rightarrow> nat \<Rightarrow> 64 word \<Rightarrow> perf_record list \<Rightarrow> consumer_run \<Rightarrow> consumer_run" where
  \<comment> \<open>the body of the loop after a poll; all three readings of the clock are \<open>ts\<close>\<close>
  "consumer_batch numRecords interval ts recs s =
     (if recs = [] then s
      else (let s1 = (if interval < unat (ts - cr_periodStart s)
              then consumer_roll ts ts (s\<lparr>cr_periodStart := cr_periodStart s + of_nat interval\<rparr>) else s);
                (n, p) = count_records numRecords ts recs (cr_numReceived s1, cr_current s1)
            in s1\<lparr>cr_numReceived := n, cr_current := p\<rparr>))"

fun consumer_loop :: "nat \<Rightarrow> nat \<Rightarrow> (64 word \<times> perf_record list) list \<Rightarrow> consumer_run \<Rightarrow> consumer_run" where
  \<comment> \<open>the polls as they come\<close>
  "consumer_loop numRecords interval [] s = s"
| "consumer_loop numRecords interval ((ts, recs) # polls) s =
     (if cr_numReceived s < numRecords then consumer_loop numRecords interval polls (consumer_batch numRecords interval ts recs s)
      else s)"

definition received_in_all :: "consumer_run \<Rightarrow> nat" where
  "received_in_all s = sum_list (map msgReceived (cr_closed s)) + msgReceived (cr_current s)"

lemma count_records_counts:
  "n < numRecords \<Longrightarrow> count_records numRecords ts recs (n, p) = (n', p') \<Longrightarrow>
    n' = min numRecords (n + length (filter (\<lambda>r. r \<noteq> None) recs)) \<and> msgReceived p' + n = msgReceived p + n'"
proof (induction recs arbitrary: n p)
  case (Cons r recs)
  show ?case
  proof (cases r)
    case (Some st)
    obtain sz stamp where "st = (sz, stamp)" by fastforce
    with Some Cons.prems Cons.IH [of "n + 1" "consumer_update sz stamp ts p"] show ?thesis
      by (auto simp: Let_def consumer_update_def split: if_splits)
  qed (use Cons in auto)
qed auto

lemma consumer_batch_counts:
  assumes "cr_numReceived s < numRecords" "received_in_all s = cr_numReceived s"
  shows "received_in_all (consumer_batch numRecords interval ts recs s) = cr_numReceived (consumer_batch numRecords interval ts recs s) \<and>
    cr_numReceived (consumer_batch numRecords interval ts recs s) =
      min numRecords (cr_numReceived s + length (filter (\<lambda>r. r \<noteq> None) recs))"
proof (cases "recs = []")
  case False
  define s1 where "s1 = (if interval < unat (ts - cr_periodStart s)
              then consumer_roll ts ts (s\<lparr>cr_periodStart := cr_periodStart s + of_nat interval\<rparr>) else s)"
  have s1: "cr_numReceived s1 = cr_numReceived s" "received_in_all s1 = received_in_all s"
    by (simp_all add: s1_def consumer_roll_def received_in_all_def consumer_new_period_def)
  obtain n p where np: "count_records numRecords ts recs (cr_numReceived s1, cr_current s1) = (n, p)" by fastforce
  have "consumer_batch numRecords interval ts recs s = s1\<lparr>cr_numReceived := n, cr_current := p\<rparr>"
    using False np by (simp add: consumer_batch_def flip: s1_def)
  then show ?thesis
    using count_records_counts [OF _ np] s1 assms by (simp add: received_in_all_def)
qed (use assms in \<open>simp add: consumer_batch_def\<close>)

lemma consumer_loop_counts:
  "cr_numReceived s \<le> numRecords \<Longrightarrow> received_in_all s = cr_numReceived s \<Longrightarrow>
    received_in_all (consumer_loop numRecords interval polls s) = cr_numReceived (consumer_loop numRecords interval polls s) \<and>
    cr_numReceived (consumer_loop numRecords interval polls s) =
      min numRecords (cr_numReceived s + sum_list (map (\<lambda>(ts, recs). length (filter (\<lambda>r. r \<noteq> None) recs)) polls))"
proof (induction polls arbitrary: s)
  case (Cons b polls)
  obtain ts recs where b: "b = (ts, recs)" by fastforce
  show ?case
  proof (cases "cr_numReceived s < numRecords")
    case True
    with consumer_batch_counts [OF True Cons.prems(2), of interval ts recs]
      Cons.IH [of "consumer_batch numRecords interval ts recs s"]
    show ?thesis by (simp add: b min_def)
  qed (use Cons.prems b in \<open>simp add: min_def\<close>)
qed simp

section \<open>A run for the witnesses\<close>


section \<open>Properties\<close>

text \<open>C35. Percentiles: whatever the reports of a period, no update throws, and the percentiles printed are those
  members of the sorted latencies, cut at one below \<open>MAX_LATENCY_MS\<close>, that the indexes select; the sums are
  those of the reports.\<close>

theorem percentiles_are_order_statistics:
  assumes "reports \<noteq> []" "length reports \<le> 2 ^ 53"
  shows "\<exists>p targets. update_all reports (new_period warm start) = Inr p \<and> msgSucceed p = length reports \<and>
    msgSizeSum p = sum_list (map fst reports) \<and> latencyMsSum p = sum_list (latencies reports) \<and>
    map Inr targets = map (\<lambda>q. percentile_index q (length reports - 1)) [500, 950, 990, 999] \<and>
    (\<forall>t\<in>set targets. t < length reports) \<and>
    latency_percentiles p = Inr (map (\<lambda>t. sort (map latency_slot (latencies reports)) ! t) targets)"
proof -
  obtain p where p: "update_all reports (new_period warm start) = Inr p" "period_counts (latencies reports) p"
    "msgSizeSum p = sum_list (map fst reports)"
    using update_all_counts [OF period_counts_new [of warm start], of reports] by (auto simp: new_period_def)
  have some: "latencies reports \<noteq> []" "length (latencies reports) = length reports"
    using assms(1) by (simp_all add: latencies_def)
  obtain targets where targets: "percentile_indexes (length reports - 1) = Inr targets" "length targets = 4"
    "\<forall>t\<in>set targets. t \<le> length reports - 1"
    "map Inr targets = map (\<lambda>q. percentile_index q (length reports - 1)) [500, 950, 990, 999]"
    by (rule percentile_indexes_are [of "length reports - 1"]) (use assms(2) in simp)
  have "0 < length reports" using assms(1) by simp
  then have below: "\<forall>t\<in>set targets. t < length reports" using targets(3) by (metis Suc_pred' less_Suc_eq_le)
  from percentiles_of_counts [OF p(2) some(1) _ targets(2)] p targets(1,4) some(2) below show ?thesis
    by (intro exI [of _ p] exI [of _ targets]) (simp add: period_counts_def)
qed

theorem percentiles_are_order_statistics_witness:
  "\<exists>p. update_all [(8, 100, 103), (8, 90, 93), (8, 80, 83)] (new_period False 100) = Inr p \<and> msgSizeSum p = 24 \<and>
     latency_percentiles p = Inr [3, 3, 3, 3]"
proof -
  define reports :: "(nat \<times> 64 word \<times> 64 word) list" where "reports = [(8, 100, 103), (8, 90, 93), (8, 80, 83)]"
  have "reports \<noteq> []" "length reports \<le> 2 ^ 53" by (simp_all add: reports_def)
  from percentiles_are_order_statistics [OF this, of False 100] obtain p targets where
    p: "update_all reports (new_period False 100) = Inr p" "msgSizeSum p = sum_list (map fst reports)"
    "map Inr targets = map (\<lambda>q. percentile_index q (length reports - 1)) [500, 950, 990, 999]"
    "\<forall>t\<in>set targets. t < length reports"
    "latency_percentiles p = Inr (map (\<lambda>t. sort (map latency_slot (latencies reports)) ! t) targets)"
    by blast
  have four: "length targets = 4" using map_eq_imp_length_eq [OF p(3)] by simp
  have slots: "map latency_slot (latencies reports) = [3, 3, 3]"
    by (simp add: reports_def latencies_def latency_slot_def MAX_LATENCY_MS_def)
  have "sort (map latency_slot (latencies reports)) ! t = 3" if "t \<in> set targets" for t
  proof -
    have "t \<in> {0, 1, 2}" using p(4) that by (auto simp: reports_def)
    then show ?thesis unfolding slots by auto
  qed
  then have "map (\<lambda>t. sort (map latency_slot (latencies reports)) ! t) targets = map (\<lambda>_. 3) targets"
    by (intro map_cong) simp_all
  then have "latency_percentiles p = Inr (replicate 4 3)"
    using p(5) four by (simp add: map_replicate_const)
  moreover have "msgSizeSum p = 24" using p(2) by (simp add: reports_def)
  moreover have "replicate 4 3 = [3, 3, 3, 3 :: nat]" by (simp add: numeral_eq_Suc)
  ultimately show ?thesis using p(1) by (intro exI [of _ p]) (simp add: reports_def)
qed





end
