(* ===== verification/Client_Setup.thy ===== *)
theory Client_Setup
  imports Consumer_Loops Producer_Correctness
begin

text \<open>
  When the constructors of the clients succeed and what they leave: a configuration is sound when every
  value the client itself reads is valid; with a library that takes new clients the constructor then
  returns. What an observer of the library sees is compared before and after.
\<close>

section \<open>Observers\<close>

definition silent :: "('w \<Rightarrow> 'o) \<Rightarrow> ('w \<Rightarrow> 'r \<times> 'w) \<Rightarrow> bool" where
  \<comment> \<open>the call changes nothing the observer sees\<close>
  "silent obs c \<longleftrightarrow> (\<forall>w. obs (snd (c w)) = obs w)"

definition quiet_setup :: "('w, 'n) client_api_scheme \<Rightarrow> ('w \<Rightarrow> 'o) \<Rightarrow> bool" where
  "quiet_setup A obs \<longleftrightarrow>
     (\<forall>k v. silent obs (rd_kafka_conf_set A k v)) \<and> (\<forall>c w. obs (rd_kafka_conf_set_cb A c w) = obs w) \<and>
     silent obs (rd_kafka_conf_interceptor_add_on_new A) \<and> (\<forall>t. silent obs (rd_kafka_new A t)) \<and>
     (\<forall>b. silent obs (rd_kafka_brokers_add A b))"

definition takes_clients :: "('w, 'n) client_api_scheme \<Rightarrow> bool" where
  "takes_clients A \<longleftrightarrow>
     (\<forall>w. fst (rd_kafka_conf_interceptor_add_on_new A w) = RD_KAFKA_RESP_ERR_NO_ERROR) \<and>
     (\<forall>t w. fst (rd_kafka_new A t w) = RD_KAFKA_RESP_ERR_NO_ERROR) \<and> (\<forall>b w. fst (rd_kafka_brokers_add A b w) \<noteq> 0)"

section \<open>Sound configurations\<close>

definition valid_log_level :: "string \<Rightarrow> bool" where
  "valid_log_level str \<longleftrightarrow> (case stoi str of Inl _ \<Rightarrow> False | Inr l \<Rightarrow> 0 \<le> l \<and> l \<le> 7)"

definition valid_switch :: "string \<Rightarrow> bool" where
  "valid_switch str \<longleftrightarrow> str \<in> {''true'', ''t'', ''1'', ''false'', ''f'', ''0''}"

definition sound_client :: "Properties \<Rightarrow> bool" where
  "sound_client p \<longleftrightarrow> props_ok p \<and> prop_string BOOTSTRAP_SERVERS p \<noteq> None \<and>
     (\<forall>str. prop_string LOG_LEVEL p = Some str \<longrightarrow> valid_log_level str) \<and>
     (\<forall>str. prop_string ENABLE_MANUAL_EVENTS_POLL p = Some str \<longrightarrow> valid_switch str)"

lemma keeps_save_polling_ok:
  assumes "\<And>str. prop_string ENABLE_MANUAL_EVENTS_POLL p = Some str \<Longrightarrow> valid_switch str"
  shows "keeps (under_construction q) E (save_polling_option p)"
  using assms
  by (auto simp: save_polling_option_def getProperty_eq under_construction_def triple_def valid_switch_def split: option.split)

lemma keeps_save_log_level_ok:
  assumes "\<And>str. prop_string LOG_LEVEL p = Some str \<Longrightarrow> valid_log_level str"
  shows "keeps (under_construction q) E (save_log_level p)"
  using assms
  by (auto simp: save_log_level_def getProperty_eq under_construction_def check_log_level_def triple_def valid_log_level_def
      split: option.split sum.splits)

lemma keeps_configure_ok:
  assumes "props_ok p" "set kvs \<subseteq> set p"
  shows "keeps (under_construction p) E (configure A p kvs)"
  using assms(2)
proof (induction kvs)
  case (Cons kv kvs)
  obtain k v where kv: "kv = (k, v)" by (cases kv)
  have "set kvs \<subseteq> set p" using Cons.prems by simp
  note rest = Cons.IH [OF this]
  have found: "omap_find k p = Some v"
    using Cons.prems assms(1) by (simp add: kv omap_find_in)
  show ?case
    unfolding kv configure.simps getProperty_eq
    by (cases "prop_string k p") (auto intro!: triple_rules rest keeps_put_property [OF assms(1) found])
qed (auto intro: triple_rules)

lemma keeps_set_callbacks_ok:
  assumes "props_ok p" "takes_clients A"
  shows "keeps (under_construction p) E (set_callbacks A p)"
proof -
  have "keeps (under_construction p) E (set_interceptors A p)"
  proof (cases "props_contains ''interceptors'' p")
    case True
    have "\<exists>x. props_get as_Interceptors ''interceptors'' p = Inr x"
      by (rule props_get_typed [OF assms(1) True])
         (use props_ok_typed(5) [OF assms(1)] in \<open>force simp: as_Interceptors_def\<close>)
    then obtain x where x: "props_get as_Interceptors ''interceptors'' p = Inr x" by blast
    show ?thesis
      using assms(2) unfolding set_interceptors_def x seqM_liftE takes_clients_def
      by (auto simp: True triple_def under_construction_def throw_if_def)
  qed (auto simp: set_interceptors_def intro: triple_rules)
  then show ?thesis
    unfolding set_callbacks_def
    using props_ok_typed [OF assms(1)]
    by (intro triple_rules keeps_set_callback assms(1))
       (fastforce simp: as_StatsCallback_def as_ErrorCallback_def as_Oauthbearer_def under_construction_def)+
qed

lemma construct_client_succeeds:
  assumes "sound_client p" "takes_clients A"
  shows "triple (under_construction p) (construct_client A t p (register_callback A k))
     (\<lambda>_ s. under_construction p s \<and> opened s) (\<lambda>_ _. False)"
proof -
  have ok: "props_ok p" using assms(1) by (simp add: sound_client_def)
  have extra: "keeps (under_construction p) (\<lambda>_. False) (register_callback A k)"
    by (cases k) (auto simp: register_callback_def intro: triple_rules)
  have log_cb: "keeps (under_construction p) (\<lambda>_. False) (save_log_cb p)" by (rule keeps_save_log_cb [OF ok])
  have level: "keeps (under_construction p) (\<lambda>_. False) (save_log_level p)"
    and switch: "keeps (under_construction p) (\<lambda>_. False) (save_polling_option p)"
    by (rule keeps_save_log_level_ok, use assms(1) in \<open>simp add: sound_client_def\<close>)
      (rule keeps_save_polling_ok, use assms(1) in \<open>simp add: sound_client_def\<close>)
  have opens: "triple (under_construction p) (open_client A t p) (\<lambda>_ s. under_construction p s \<and> opened s) (\<lambda>_ _. False)"
    using assms by (auto simp: open_client_def getProperty_eq under_construction_def triple_def seqM_split
        takes_clients_def sound_client_def throw_if_def)
  show ?thesis
    unfolding construct_client_def
    by (rule triple_seqM [OF keeps_save_client_id], rule triple_seqM [OF log_cb],
        rule triple_seqM [OF level], rule triple_seqM [OF switch],
        rule triple_seqM [OF keeps_configure_ok [OF ok subset_refl]],
        rule triple_seqM [OF keeps_set_callbacks_ok [OF ok assms(2)]], rule triple_seqM [OF extra],
        rule opens)
qed

section \<open>The consumer\<close>

text \<open>What the base class leaves alone while it sets itself up.\<close>

definition untouched :: "('w \<Rightarrow> 'o) \<Rightarrow> ('w, 'm) consumer_scheme \<Rightarrow> ('w, 'm) consumer_scheme \<Rightarrow> bool" where
  "untouched obs s0 s \<longleftrightarrow> obs (world s) = obs (world s0) \<and> groupId s = groupId s0 \<and> maxPollRecords s = maxPollRecords s0 \<and>
     enableAutoCommit s = enableAutoCommit s0 \<and> pendingEvent s = pendingEvent s0 \<and> rebalanceCb s = rebalanceCb s0"

lemma untouched_lib_call: "silent obs c \<Longrightarrow> preserves (untouched obs s0) (lib_call c)"
  by (simp add: preserves_def untouched_def silent_def)

lemma untouched_lib_do: "(\<And>w. obs (f w) = obs w) \<Longrightarrow> preserves (untouched obs s0) (lib_do f)"
  by (simp add: preserves_def untouched_def)

lemma untouched_put_property: "preserves (untouched obs s0) (put_property k v)"
  by (auto simp: preserves_def put_property_def untouched_def split: prod.split)

lemma untouched_configure:
  assumes "quiet_setup A obs"
  shows "preserves (untouched obs s0) (configure A p kvs)"
proof (induction kvs)
  case (Cons kv kvs)
  obtain k v where "kv = (k, v)" by (cases kv)
  moreover have "silent obs (rd_kafka_conf_set A k' v')" for k' v' using assms by (simp add: quiet_setup_def)
  ultimately show ?case
    using Cons by (simp only: configure.simps) (intro inv_intros untouched_lib_call untouched_put_property)
qed (simp only: configure.simps preserves_ret)

lemma untouched_construct_client:
  assumes "quiet_setup A obs"
  shows "preserves (untouched obs s0) (construct_client A t p (register_callback A k))"
proof -
  have quiet: "silent obs (rd_kafka_conf_interceptor_add_on_new A)" "silent obs (rd_kafka_new A r)"
    "silent obs (rd_kafka_brokers_add A b)" "obs (rd_kafka_conf_set_cb A c w) = obs w" for r b c w
    using assms by (simp_all add: quiet_setup_def)
  note lib = untouched_lib_call untouched_lib_do quiet
  have throws: "preserves (untouched obs s0) (throw_if e)" for e
    by (simp add: preserves_def throw_if_def)
  have extra: "preserves (untouched obs s0) (register_callback A k)"
    by (cases k) (simp_all only: register_callback_def option.simps preserves_ret untouched_lib_do quiet)
  have level: "preserves (untouched obs s0) (save_log_level p)"
    unfolding save_log_level_def check_log_level_def
    by (auto simp: preserves_def seqM_split untouched_def split: option.split sum.split)
  have sets: "preserves (untouched obs s0) (set_callbacks A p)"
    unfolding set_callbacks_def set_interceptors_def set_callback_def
    by (intro inv_intros lib throws preserves_modM) (simp_all add: untouched_def)
  show ?thesis
    unfolding construct_client_def save_client_id_def save_log_cb_def save_polling_option_def open_client_def
    by (intro inv_intros lib throws extra level sets untouched_configure [OF assms] preserves_modM)
      (simp_all add: untouched_def)
qed

text \<open>
  The values of a consumer's configuration that its constructor reads.
\<close>

definition poll_records_of :: "Properties \<Rightarrow> nat" where
  "poll_records_of p = (case prop_string MAX_POLL_RECORDS p of
       None \<Rightarrow> 500 | Some str \<Rightarrow> (case stoi str of Inl _ \<Rightarrow> 500 | Inr n \<Rightarrow> size_t_of_int n))"

definition auto_commit_of :: "Properties \<Rightarrow> bool" where
  "auto_commit_of p = (case prop_string ENABLE_AUTO_COMMIT p of None \<Rightarrow> True | Some str \<Rightarrow> is_true_string str)"

definition group_of :: "string \<Rightarrow> Properties \<Rightarrow> string" where
  "group_of random_group p = (case prop_string GROUP_ID p of None \<Rightarrow> random_group | Some g \<Rightarrow> g)"

definition sound_consumer :: "Properties \<Rightarrow> bool" where
  "sound_consumer p \<longleftrightarrow> sound_client p \<and>
     (\<forall>str. prop_string MAX_POLL_RECORDS p = Some str \<longrightarrow> (\<exists>n. stoi str = Inr n)) \<and>
     (\<forall>str. prop_string ENABLE_AUTO_COMMIT p = Some str \<longrightarrow> is_true_string str \<or> is_false_string str)"

definition validated :: "string \<Rightarrow> string \<Rightarrow> Properties \<Rightarrow> Properties" where
  "validated random random_group p =
     (let p1 = reformed random (props_remove MAX_POLL_RECORDS p);
          p2 = (if prop_string GROUP_ID p1 = None then omap_put GROUP_ID (ValueType_of (StringObj random_group)) p1 else p1)
      in omap_put ENABLE_AUTO_OFFSET_STORE (ValueType_of (StringObj ''true''))
           (omap_put AUTO_COMMIT_INTERVAL_MS (ValueType_of (StringObj ''0''))
             (omap_put ENABLE_AUTO_COMMIT (ValueType_of (StringObj ''false'')) p2)))"

lemma consumer_validate_eq:
  assumes "prop_string BOOTSTRAP_SERVERS p \<noteq> None"
  shows "consumer_validate random random_group p = Inr (validated random random_group p)"
  using assms
  by (auto simp: consumer_validate_def validate_eq getProperty_eq put_string_Inr validated_def Let_def)

lemma validated_sound:
  assumes "sound_consumer p"
  shows "sound_client (validated random random_group p)"
    "prop_string GROUP_ID (validated random random_group p) = Some (group_of random_group p)"
proof -
  have five: "valid_log_level ''5''" by code_simp
  have keys: "LOG_LEVEL \<noteq> ENABLE_AUTO_OFFSET_STORE" "LOG_LEVEL \<noteq> AUTO_COMMIT_INTERVAL_MS" "LOG_LEVEL \<noteq> ENABLE_AUTO_COMMIT"
    "LOG_LEVEL \<noteq> MAX_POLL_RECORDS" "ENABLE_MANUAL_EVENTS_POLL \<noteq> ENABLE_AUTO_OFFSET_STORE"
    "ENABLE_MANUAL_EVENTS_POLL \<noteq> AUTO_COMMIT_INTERVAL_MS" "ENABLE_MANUAL_EVENTS_POLL \<noteq> ENABLE_AUTO_COMMIT"
    "ENABLE_MANUAL_EVENTS_POLL \<noteq> MAX_POLL_RECORDS" "ENABLE_MANUAL_EVENTS_POLL \<noteq> GROUP_ID"
    "ENABLE_MANUAL_EVENTS_POLL \<noteq> CLIENT_ID" "ENABLE_MANUAL_EVENTS_POLL \<noteq> LOG_LEVEL"
    "BOOTSTRAP_SERVERS \<noteq> ENABLE_AUTO_OFFSET_STORE" "BOOTSTRAP_SERVERS \<noteq> AUTO_COMMIT_INTERVAL_MS"
    "BOOTSTRAP_SERVERS \<noteq> ENABLE_AUTO_COMMIT"
    by code_simp+
  have ok: "props_ok (props_remove MAX_POLL_RECORDS p)"
    using assms by (simp add: sound_consumer_def sound_client_def props_remove_def)
  show "prop_string GROUP_ID (validated random random_group p) = Some (group_of random_group p)"
    by (auto simp: validated_def Let_def prop_string_reformed group_of_def keys split: option.split)
  show "sound_client (validated random random_group p)"
    using assms ok five
    by (auto simp: sound_client_def sound_consumer_def validated_def Let_def prop_string_reformed keys split: if_splits)
qed

lemma triple_of_preserves: "preserves I m \<Longrightarrow> triple I m (\<lambda>_. I) (\<lambda>_ _. True)"
  by (auto simp: preserves_def triple_def split: prod.splits sum.splits)

text \<open>Who polls for events is decided once, by the option.\<close>

definition manual_of :: "Properties \<Rightarrow> bool" where
  "manual_of p = (case prop_string ENABLE_MANUAL_EVENTS_POLL p of None \<Rightarrow> False | Some v \<Rightarrow> v \<in> {''true'', ''t'', ''1''})"

definition client_view :: "('w \<Rightarrow> 'o) \<Rightarrow> bool \<Rightarrow> 'o \<Rightarrow> ('w, 'm) client_scheme \<Rightarrow> bool" where
  "client_view obs b x s \<longleftrightarrow> enableManualEventsPoll s = b \<and> obs (world s) = x"

lemma construct_client_manual:
  assumes "quiet_setup A obs"
  shows "triple (client_view obs False x) (construct_client A t p (register_callback A k))
    (\<lambda>_. client_view obs (manual_of p) x) (\<lambda>_ _. True)"
proof -
  have quiet: "silent obs (rd_kafka_conf_set A k' v')" "silent obs (rd_kafka_conf_interceptor_add_on_new A)"
    "silent obs (rd_kafka_new A r)" "silent obs (rd_kafka_brokers_add A b)" "obs (rd_kafka_conf_set_cb A c w) = obs w" for k' v' r b c w
    using assms by (simp_all add: quiet_setup_def)
  have calls: "silent obs c \<Longrightarrow> preserves (client_view obs b x) (lib_call c)"
    "(\<And>w. obs (f w) = obs w) \<Longrightarrow> preserves (client_view obs b x) (lib_do f)" for b c f
    by (simp_all add: preserves_def client_view_def silent_def)
  have put: "preserves (client_view obs b x) (put_property k' v)" for b k' v
    by (auto simp: preserves_def put_property_def client_view_def split: prod.split)
  have throws: "preserves (client_view obs b x) (throw_if e)" for b e
    by (simp add: preserves_def throw_if_def)
  have config: "preserves (client_view obs b x) (configure A p kvs)" for b kvs
  proof (induction kvs)
    case (Cons kv kvs)
    obtain k' v where "kv = (k', v)" by (cases kv)
    then show ?case
      using Cons by (simp only: configure.simps) (intro inv_intros calls put quiet)
  qed (simp only: configure.simps preserves_ret)
  have extra: "preserves (client_view obs b x) (register_callback A k)" for b
    by (cases k) (simp_all only: register_callback_def option.simps preserves_ret calls quiet)
  have client: "preserves (client_view obs b x) (save_client_id t p)"
    and level: "preserves (client_view obs b x) (save_log_level p)"
    and log: "preserves (client_view obs b x) (save_log_cb p)"
    and sets: "preserves (client_view obs b x) (set_callbacks A p)"
    and opens: "preserves (client_view obs b x) (open_client A t p)" for b
    unfolding save_client_id_def save_log_level_def check_log_level_def save_log_cb_def set_callbacks_def
      set_interceptors_def set_callback_def open_client_def
    by ((intro inv_intros calls throws quiet preserves_modM; simp add: client_view_def)[1])+
  have switch: "triple (client_view obs False x) (save_polling_option p) (\<lambda>_. client_view obs (manual_of p) x) (\<lambda>_ _. True)"
    by (auto simp: save_polling_option_def getProperty_eq triple_def client_view_def manual_of_def split: option.split)
  show ?thesis
    unfolding construct_client_def
    by (rule triple_seqM [OF triple_of_preserves [OF client]], rule triple_seqM [OF triple_of_preserves [OF log]],
        rule triple_seqM [OF triple_of_preserves [OF level]], rule triple_seqM [OF switch],
        rule triple_seqM [OF triple_of_preserves [OF config]], rule triple_seqM [OF triple_of_preserves [OF sets]],
        rule triple_seqM [OF triple_of_preserves [OF extra]], rule triple_of_preserves [OF opens])
qed

lemma no_thread_construct: "preserves (\<lambda>s. \<not> pollThread s) (construct_client A t p (register_callback A k))"
proof -
  have calls: "preserves (\<lambda>s. \<not> pollThread s) (lib_call c)" "preserves (\<lambda>s. \<not> pollThread s) (lib_do f)" for c f
    by (simp_all add: preserves_def)
  have put: "preserves (\<lambda>s. \<not> pollThread s) (put_property k' v)" for k' v
    by (auto simp: preserves_def put_property_def split: prod.split)
  have throws: "preserves (\<lambda>s. \<not> pollThread s) (throw_if e)" for e
    by (simp add: preserves_def throw_if_def)
  have config: "preserves (\<lambda>s. \<not> pollThread s) (configure A p kvs)" for kvs
  proof (induction kvs)
    case (Cons kv kvs)
    obtain k' v where "kv = (k', v)" by (cases kv)
    then show ?case using Cons by (simp only: configure.simps) (intro inv_intros calls put)
  qed (simp only: configure.simps preserves_ret)
  have extra: "preserves (\<lambda>s. \<not> pollThread s) (register_callback A k)"
    by (cases k) (simp_all only: register_callback_def option.simps preserves_ret calls)
  show ?thesis
    unfolding construct_client_def save_client_id_def save_log_level_def check_log_level_def save_log_cb_def set_callbacks_def
      set_interceptors_def set_callback_def save_polling_option_def open_client_def
    by (intro inv_intros calls throws extra config preserves_modM) simp_all
qed

section \<open>The settings the library took\<close>

text \<open>
  A setting the library takes, or one the client keeps for itself, is among the client's properties after
  the construction.
\<close>

definition takes_setting :: "('w, 'n) client_api_scheme \<Rightarrow> string \<Rightarrow> bool" where
  "takes_setting A k \<longleftrightarrow> k \<in> set PRIVATE_PROPERTY_KEYS \<or> (\<forall>v w. fst (rd_kafka_conf_set A (c_str k) v w))"

definition has_setting :: "Properties \<Rightarrow> string \<Rightarrow> ('w, 'm) client_scheme \<Rightarrow> bool" where
  "has_setting p k s \<longleftrightarrow> accepted_from p (properties s) \<and> prop_string k (properties s) = prop_string k p"

lemma put_property_accepted:
  assumes "props_ok p" "omap_find k p = Some v" "prop_string k p = Some str" "accepted_from p (properties s)"
  shows "put_property k v s = (Inr (), s\<lparr>properties := omap_put k v (properties s)\<rparr>)"
    "accepted_from p (omap_put k v (properties s))"
  using accepted_from_put [OF assms(4,1-3)] by (auto simp: put_property_def)

lemma prop_string_found: "omap_find k p = omap_find k q \<Longrightarrow> prop_string k p = prop_string k q"
  by (simp add: prop_string_def)

lemma has_put:
  assumes "props_ok p" "omap_find k' p = Some v" "prop_string k' p = Some str" "accepted_from p (properties s)"
    and "k' = k \<or> has_setting p k s"
  shows "has_setting p k (s\<lparr>properties := omap_put k' v (properties s)\<rparr>)"
proof (cases "k' = k")
  case True
  then have "prop_string k (omap_put k' v (properties s)) = prop_string k p"
    using assms(2) by (intro prop_string_found) simp
  then show ?thesis using put_property_accepted(2) [OF assms(1-4)] by (simp add: has_setting_def)
next
  case False
  then have "prop_string k (omap_put k' v (properties s)) = prop_string k (properties s)"
    by (intro prop_string_found) simp
  then show ?thesis
    using put_property_accepted(2) [OF assms(1-4)] assms(5) False by (simp add: has_setting_def)
qed

lemma configure_has:
  fixes A :: "('w, 'n) client_api_scheme" and s :: "('w, 'm) client_scheme"
  assumes "props_ok p" "takes_setting A k" "prop_string k p \<noteq> None" "set kvs \<subseteq> set p"
    and "accepted_from p (properties s)" "k \<in> fst ` set kvs \<or> has_setting p k s"
  shows "has_setting p k (snd (configure A p kvs s))"
  using assms(4-6)
proof (induction kvs arbitrary: s)
  case (Cons kv kvs)
  obtain k' v where kv: "kv = (k', v)" by (cases kv)
  have found: "omap_find k' p = Some v"
    using Cons.prems(1) assms(1) by (simp add: kv omap_find_in)
  have sub: "set kvs \<subseteq> set p" using Cons.prems(1) by simp
  show ?case
  proof (cases "prop_string k' p")
    case None
    then have "k' \<noteq> k" using assms(3) by auto
    then show ?thesis
      using Cons.IH [OF sub Cons.prems(2)] Cons.prems(3) None by (auto simp: kv getProperty_eq)
  next
    case (Some str)
    let ?put = "\<lambda>t. t\<lparr>properties := omap_put k' v (properties t)\<rparr>"
    have after: "has_setting p k (snd (configure A p kvs (?put t)))"
      if "accepted_from p (properties t)" "k' = k \<or> k \<in> fst ` set kvs \<or> has_setting p k t" for t :: "('w, 'm) client_scheme"
    proof (rule Cons.IH [OF sub])
      show "accepted_from p (properties (?put t))"
        using put_property_accepted(2) [OF assms(1) found Some that(1)] by simp
      show "k \<in> fst ` set kvs \<or> has_setting p k (?put t)"
        using has_put [OF assms(1) found Some that(1)] that(2) by blast
    qed
    have put: "put_property k' v t = (Inr (), ?put t)" if "accepted_from p (properties t)" for t :: "('w, 'm) client_scheme"
      by (rule put_property_accepted(1) [OF assms(1) found Some that])
    show ?thesis
    proof (cases "k' \<in> set PRIVATE_PROPERTY_KEYS")
      case True
      then show ?thesis
        using Cons.prems(2,3) put [OF Cons.prems(2)] after [OF Cons.prems(2)]
        by (auto simp: kv getProperty_eq Some)
    next
      case False
      let ?r = "rd_kafka_conf_set A (c_str k') (c_str str) (world s)"
      let ?s = "s\<lparr>world := snd ?r\<rparr>"
      have acc: "accepted_from p (properties ?s)" using Cons.prems(2) by simp
      have same: "has_setting p k ?s = has_setting p k s" by (simp add: has_setting_def)
      show ?thesis
      proof (cases "fst ?r")
        case True
        then show ?thesis
          using Cons.prems(3) put [OF acc] after [OF acc] same False
          by (auto simp: kv getProperty_eq Some)
      next
        case refused: False
        then have "k' \<noteq> k" using assms(2) False by (auto simp: takes_setting_def)
        then show ?thesis
          using Cons.IH [OF sub acc] Cons.prems(3) same False refused
          by (auto simp: kv getProperty_eq Some)
      qed
    qed
  qed
qed simp

lemma has_setting_frame:
  assumes "\<And>s. properties (f s) = properties s"
  shows "preserves (has_setting p k) (modM f)"
  using assms by (simp add: preserves_def has_setting_def)

lemma construct_client_has:
  fixes A :: "('w, 'n) client_api_scheme"
  assumes "props_ok p" "takes_setting A k" "prop_string k p \<noteq> None"
  shows "triple (\<lambda>s :: ('w, 'm) client_scheme. accepted_from p (properties s)) (construct_client A t p (register_callback A c))
     (\<lambda>_. has_setting p k) (\<lambda>_ _. True)"
proof -
  let ?I = "\<lambda>s :: ('w, 'm) client_scheme. accepted_from p (properties s)"
  have acc: "preserves ?I (modM f)" if "\<And>s. properties (f s) = properties s" for f
    using that by (simp add: preserves_def)
  have level: "preserves ?I (save_log_level p)"
    unfolding save_log_level_def check_log_level_def by (intro inv_intros acc) simp
  have client: "preserves ?I (save_client_id t p)"
    unfolding save_client_id_def by (intro inv_intros acc) simp
  have log: "preserves ?I (save_log_cb p)"
    unfolding save_log_cb_def by (intro inv_intros acc) simp
  have switch: "preserves ?I (save_polling_option p)"
    unfolding save_polling_option_def by (intro inv_intros acc) simp_all
  have member: "k \<in> fst ` set p"
  proof -
    obtain v where "omap_find k p = Some v" using assms(3) by (auto simp: prop_string_def split: option.splits)
    then have "(k, v) \<in> set p" by (rule omap_find_Some_in)
    then show ?thesis by force
  qed
  have config: "triple ?I (configure A p p) (\<lambda>_. has_setting p k) (\<lambda>_ _. True)"
  proof (rule tripleI)
    fix s :: "('w, 'm) client_scheme" assume "?I s"
    from configure_has [OF assms subset_refl this disjI1 [OF member]]
    show "case configure A p p s of (Inl e, s') \<Rightarrow> True | (Inr x, s') \<Rightarrow> has_setting p k s'"
      by (auto split: prod.split sum.split)
  qed
  have lib: "preserves (has_setting p k) (lib_call f)" "preserves (has_setting p k) (lib_do g)" for f g
    by (simp_all add: preserves_def has_setting_def)
  have throws: "preserves (has_setting p k) (throw_if e)" for e
    by (simp add: preserves_def throw_if_def)
  have extra: "preserves (has_setting p k) (register_callback A c)"
    by (cases c) (simp_all only: register_callback_def option.simps preserves_ret lib)
  have sets: "preserves (has_setting p k) (set_callbacks A p)"
    unfolding set_callbacks_def set_interceptors_def set_callback_def
    by (intro inv_intros lib throws has_setting_frame) simp_all
  have opens: "preserves (has_setting p k) (open_client A t p)"
    unfolding open_client_def by (intro inv_intros lib throws has_setting_frame) simp_all
  show ?thesis
    unfolding construct_client_def
    by (rule triple_seqM [OF triple_of_preserves [OF client]], rule triple_seqM [OF triple_of_preserves [OF log]],
        rule triple_seqM [OF triple_of_preserves [OF level]], rule triple_seqM [OF triple_of_preserves [OF switch]],
        rule triple_seqM [OF config], rule triple_seqM [OF triple_of_preserves [OF sets]],
        rule triple_seqM [OF triple_of_preserves [OF extra]], rule triple_of_preserves [OF opens])
qed

section \<open>The constructor of the consumer\<close>

lemma put_client_string_run:
  "key_fits k (StringObj str) \<Longrightarrow> put_client_string k str s =
     (Inr (), s\<lparr>properties := omap_put k (ValueType_of (StringObj str)) (properties s)\<rparr>)"
  using validate_of [of k "StringObj str"] by (simp add: put_client_string_def put_property_def props_put_value_def)

lemma pick_max_poll_records_run:
  assumes "\<And>str. prop_string MAX_POLL_RECORDS p = Some str \<Longrightarrow> \<exists>n. stoi str = Inr n" "maxPollRecords s = 500"
  shows "pick_max_poll_records p s = (Inr (), s\<lparr>maxPollRecords := poll_records_of p,
    properties := omap_put MAX_POLL_RECORDS (ValueType_of (StringObj (show_nat (poll_records_of p)))) (properties s)\<rparr>)"
  using assms
  by (auto simp: pick_max_poll_records_def getProperty_eq seqM_split poll_records_of_def put_client_string_run lift_std_def
      split: option.split)

lemma pick_enable_auto_commit_run:
  assumes "\<And>str. prop_string ENABLE_AUTO_COMMIT p = Some str \<Longrightarrow> is_true_string str \<or> is_false_string str" "enableAutoCommit s"
  shows "pick_enable_auto_commit p s = (Inr (), s\<lparr>enableAutoCommit := auto_commit_of p,
    properties := omap_put ENABLE_AUTO_COMMIT (ValueType_of (StringObj (if auto_commit_of p then ''true'' else ''false''))) (properties s)\<rparr>)"
  using assms
  by (auto simp: pick_enable_auto_commit_def getProperty_eq seqM_split auto_commit_of_def put_client_string_run
      split: option.split)

definition takes_consumers :: "('w, 'n) consumer_api_scheme \<Rightarrow> bool" where
  "takes_consumers A \<longleftrightarrow> takes_clients A \<and> takes_setting A GROUP_ID \<and>
     (\<forall>w. fst (rd_kafka_poll_set_consumer A w) = RD_KAFKA_RESP_ERR_NO_ERROR)"

definition quiet_consumer_setup :: "('w, 'n) consumer_api_scheme \<Rightarrow> ('w \<Rightarrow> 'o) \<Rightarrow> bool" where
  "quiet_consumer_setup A obs \<longleftrightarrow> quiet_setup A obs \<and> silent obs (rd_kafka_poll_set_consumer A)"

lemma construct_consumer_state:
  assumes "sound_consumer p" "takes_consumers A" "quiet_consumer_setup A obs"
  shows "\<exists>s. construct_consumer A random random_group p (consumer_default w) = (Inr (), s) \<and>
    opened s \<and> fresh_consumer s \<and> enableAutoCommit s = auto_commit_of p \<and> maxPollRecords s = poll_records_of p \<and>
    groupId s = group_of random_group p \<and> rebalanceCb s = None \<and> pendingEvent s = None \<and> obs (world s) = obs w"
proof -
  let ?q = "validated random random_group p"
  let ?c = "construct_client A KafkaConsumer ?q (register_callback A (Some Conf_rebalance_cb))"
  let ?s0 = "consumer_default w"
  have clients: "takes_clients A" and silent_init: "quiet_setup A obs"
    and grp: "takes_setting A GROUP_ID" "prop_string GROUP_ID ?q \<noteq> None"
    using assms validated_sound [OF assms(1), of random random_group]
    by (simp_all add: takes_consumers_def quiet_consumer_setup_def)
  have boot: "prop_string BOOTSTRAP_SERVERS p \<noteq> None" and records: "\<And>str. prop_string MAX_POLL_RECORDS p = Some str \<Longrightarrow> \<exists>n. stoi str = Inr n"
    and auto: "\<And>str. prop_string ENABLE_AUTO_COMMIT p = Some str \<Longrightarrow> is_true_string str \<or> is_false_string str"
    using assms(1) by (auto simp: sound_consumer_def sound_client_def)
  note valid = validated_sound(1) [OF assms(1), of random random_group]
  have start: "under_construction ?q ?s0" "accepted_from ?q (properties ?s0)"
    by (simp_all add: under_construction_def accepted_from_def props_ok_def consumer_default_def client_default_def client.defs)
  obtain s1 where run: "?c ?s0 = (Inr (), s1)" and s1: "opened s1"
    using construct_client_succeeds [OF valid clients, of KafkaConsumer "Some Conf_rebalance_cb"] start(1)
    unfolding triple_def by (cases "?c ?s0"; cases "fst (?c ?s0)") fastforce+
  have "untouched obs ?s0 ?s0" by (simp add: untouched_def)
  from preservesD [OF untouched_construct_client [OF silent_init] this, of KafkaConsumer ?q "Some Conf_rebalance_cb"] run
  have "untouched obs ?s0 s1" by simp
  then have same: "obs (world s1) = obs w" "maxPollRecords s1 = 500" "enableAutoCommit s1" "pendingEvent s1 = None" "rebalanceCb s1 = None"
    by (simp_all add: untouched_def consumer_default_def client_default_def client.defs)
  have fresh: "fresh_consumer s1"
    using preservesD [OF fresh_construct_client fresh_default, of A KafkaConsumer ?q "Some Conf_rebalance_cb" w] run by simp
  have has: "has_setting ?q GROUP_ID s1"
    using triple_returns [OF construct_client_has [OF _ grp] start(2) run] valid by (simp add: sound_client_def)
  have the_group: "prop_string GROUP_ID (properties s1) = Some (group_of random_group p)"
    using has validated_sound(2) [OF assms(1), of random random_group] by (simp add: has_setting_def)
  have poll_set: "fst (rd_kafka_poll_set_consumer A v) = RD_KAFKA_RESP_ERR_NO_ERROR"
    "obs (snd (rd_kafka_poll_set_consumer A v)) = obs v" for v
    using assms(2,3) by (simp_all add: takes_consumers_def quiet_consumer_setup_def silent_def)
  show ?thesis
    using poll_set same fresh s1
    by (simp add: construct_consumer_def consumer_validate_eq [OF boot] seqM_split run pick_max_poll_records_run records
        pick_enable_auto_commit_run auto getProperty_eq the_group startBackgroundPollingIfNecessary_def throw_if_def
        fresh_consumer_def isWithAutoEventsPolling_def)
qed

section \<open>The constructor of the producer\<close>

lemma reformed_sound:
  assumes "sound_client p"
  shows "sound_client (reformed random p)" "manual_of (reformed random p) = manual_of p"
proof -
  have five: "valid_log_level ''5''" by code_simp
  have keys: "ENABLE_MANUAL_EVENTS_POLL \<noteq> CLIENT_ID" "ENABLE_MANUAL_EVENTS_POLL \<noteq> LOG_LEVEL" by code_simp+
  show "sound_client (reformed random p)"
    using assms five by (auto simp: sound_client_def prop_string_reformed keys split: if_splits)
  show "manual_of (reformed random p) = manual_of p"
    by (simp add: manual_of_def prop_string_reformed keys)
qed

lemma producer_validate_reforms:
  assumes "producer_validate random p = Inr q"
  shows "q = reformed random p"
  using assms by (auto simp: producer_validate_def validate_eq getProperty_eq split: sum.splits if_splits)

lemma construct_producer_state:
  assumes "sound_client p" "producer_validate random p = Inr q" "takes_clients A" "quiet_setup A obs"
  shows "\<exists>s. construct_producer A random p (producer_default w) = (Inr (), s) \<and> opened s \<and> pollable s \<and>
    enableManualEventsPoll s = manual_of p \<and> (pollThread s \<longleftrightarrow> \<not> manual_of p) \<and> obs (world s) = obs w"
proof -
  let ?s0 = "producer_default w" and ?q = "reformed random p"
  let ?c = "construct_client A KafkaProducer ?q (register_callback A (Some Conf_dr_msg_cb))"
  have q: "q = ?q" by (rule producer_validate_reforms [OF assms(2)])
  have start: "under_construction ?q ?s0" "client_view obs False (obs w) ?s0" "\<not> pollThread ?s0"
    by (simp_all add: under_construction_def accepted_from_def props_ok_def producer_default_def client_default_def
        client.defs client_view_def)
  obtain s1 where run: "?c ?s0 = (Inr (), s1)" and s1: "opened s1"
    using construct_client_succeeds [OF reformed_sound(1) [OF assms(1)] assms(3), of random KafkaProducer "Some Conf_dr_msg_cb"] start(1)
    unfolding triple_def by (cases "?c ?s0"; cases "fst (?c ?s0)") fastforce+
  have view: "client_view obs (manual_of p) (obs w) s1"
    using triple_returns [OF construct_client_manual [OF assms(4)] start(2) run] reformed_sound(2) [OF assms(1)] by simp
  have thread: "\<not> pollThread s1"
  proof -
    have "preserves (\<lambda>s. \<not> pollThread s) ?c" by (rule no_thread_construct)
    from preservesD [OF this start(3)] run show ?thesis by simp
  qed
  show ?thesis
    using s1 view thread
    by (simp add: construct_producer_def assms(2) q seqM_split run startBackgroundPollingIfNecessary_def
        isWithAutoEventsPolling_def client_view_def)
qed

end
