(* ===== verification/Consumer_Programs.thy ===== *)
theory Consumer_Programs
  imports Client_Setup Program_Scopes
begin

text \<open>
  The programs that read: a loop that polls and handles the records of each poll, in a block whose end
  destroys the consumer. What is committed is compared with what was handled, on an observed library: one
  whose messages handed over and whose commit requests are written down, in order.
\<close>

section \<open>The polling loop\<close>

text \<open>
  \<open>go\<close> is the condition of the loop, \<open>handle\<close> its body after the poll; it answers whether to go on.
\<close>

definition POLL_TIMEOUT :: int where
  "POLL_TIMEOUT = 100"

definition poll_round ::
  "('w, 'n) consumer_api_scheme \<Rightarrow> ('w, 'x) machine_scheme \<Rightarrow> (('w, 'm) consumer_scheme \<times> 'v, exn, bool) prog \<Rightarrow>
     (ConsumerRecord list \<Rightarrow> (('w, 'm) consumer_scheme \<times> 'v, exn, 'a option) prog) \<Rightarrow> 'a \<Rightarrow>
     (('w, 'm) consumer_scheme \<times> 'v, exn, 'a option) prog" where
  \<comment> \<open>\<open>Some\<close> result leaves the loop\<close>
  "poll_round A M go handle result =
     seqM (on_client (thread_runs M (consumer_pollCallbacks A))) (\<lambda>_.
     seqM go (\<lambda>more.
     if \<not> more then ret (Some result)
     else seqM (on_client (poll A POLL_TIMEOUT)) handle))"

fun poll_loop ::
  "('w, 'n) consumer_api_scheme \<Rightarrow> ('w, 'x) machine_scheme \<Rightarrow> (('w, 'm) consumer_scheme \<times> 'v, exn, bool) prog \<Rightarrow>
     (ConsumerRecord list \<Rightarrow> (('w, 'm) consumer_scheme \<times> 'v, exn, 'a option) prog) \<Rightarrow> 'a \<Rightarrow> nat \<Rightarrow>
     (('w, 'm) consumer_scheme \<times> 'v, exn, 'a) prog" where
  "poll_loop A M go handle result 0 = throw Out_of_fuel"
| "poll_loop A M go handle result (Suc n) =
     seqM (poll_round A M go handle result) (\<lambda>r. case r of Some x \<Rightarrow> ret x | None \<Rightarrow> poll_loop A M go handle result n)"

interpretation polling: fuel_loop "poll_loop A M go handle result" "poll_round A M go handle result" Out_of_fuel
  for A :: "('w, 'n) consumer_api_scheme" and M :: "('w, 'x) machine_scheme" and go handle result
  by unfold_locales auto

section \<open>Printing the records\<close>

fun for_records :: "(ConsumerRecord \<Rightarrow> ('s, exn, unit) prog) \<Rightarrow> ConsumerRecord list \<Rightarrow> ('s, exn, unit) prog" where
  \<comment> \<open>\<open>for (const auto& record: records) ..\<close>\<close>
  "for_records show_one [] = ret ()"
| "for_records show_one (rec # recs) = seqM (show_one rec) (\<lambda>_. for_records show_one recs)"

definition show_records ::
  "(ConsumerRecord \<Rightarrow> ('s, exn, unit) prog) \<Rightarrow> ConsumerRecord list \<Rightarrow> ('s, exn, 'a option) prog" where
  \<comment> \<open>a body of the polling loop that goes through all records and goes on\<close>
  "show_records show_one recs = seqM (for_records show_one recs) (\<lambda>_. ret None)"

definition record_fields :: "(int \<Rightarrow> string) \<Rightarrow> ConsumerRecord \<Rightarrow> tool_output list" where
  \<comment> \<open>the lines the consumers print from the topic to the headers\<close>
  "record_fields localSeconds rec =
     [Out_line (''    Topic    : '' @ cr_topic rec),
      Out_line (''    Partition: '' @ show_int (cr_partition rec)),
      Out_line (''    Offset   : '' @ show_int (cr_offset rec)),
      Out_line (''    Timestamp: '' @ Timestamp_toString (timestamp_seconds localSeconds) (cr_timestamp rec)),
      Out_line (''    Headers  : '' @ Headers_toString (cr_headers rec))]"

section \<open>An observed library\<close>

text \<open>
  \<open>taken w\<close> are the messages the library has handed over and \<open>asked w\<close> the commit requests it has
  been given, in order; only the two calls that do so add to them. The topic names of messages are C
  strings.
\<close>

definition quiet_calls :: "('w, 'n) consumer_api_scheme \<Rightarrow> ('w, 'x) machine_scheme \<Rightarrow> ('w \<Rightarrow> 'o) \<Rightarrow> bool" where
  "quiet_calls A M obs \<longleftrightarrow>
     (\<forall>ms. silent obs (rd_kafka_poll A ms)) \<and> (\<forall>ms. silent obs (rd_kafka_queue_poll_callback A ms)) \<and>
     silent obs (steady_now A) \<and> (\<forall>l. silent obs (rd_kafka_subscribe A l)) \<and>
     silent obs (rd_kafka_consumer_close A) \<and> silent obs (rd_kafka_outq_len A) \<and> silent obs (rd_kafka_queue_length A) \<and>
     (\<forall>l. silent obs (rd_kafka_assign A l)) \<and> (\<forall>l. silent obs (rd_kafka_incremental_assign A l)) \<and>
     (\<forall>l. silent obs (rd_kafka_incremental_unassign A l)) \<and>
     silent obs (system_clock_now M) \<and> silent obs (arrived_sigints M) \<and> silent obs (thread_turns M)"

definition observes ::
  "('w, 'n) consumer_api_scheme \<Rightarrow> ('w, 'x) machine_scheme \<Rightarrow> ('w \<Rightarrow> rd_kafka_message_t list) \<Rightarrow>
     ('w \<Rightarrow> rd_kafka_topic_partition_list_t option list) \<Rightarrow> bool" where
  "observes A M taken asked \<longleftrightarrow>
     quiet_calls A M (\<lambda>w. (taken w, asked w)) \<and>
     (\<forall>ms n w. asked (snd (rd_kafka_consume_batch_queue A ms n w)) = asked w \<and>
        taken (snd (rd_kafka_consume_batch_queue A ms n w)) = taken w @
          (case snd (fst (rd_kafka_consume_batch_queue A ms n w)) of Inl _ \<Rightarrow> [] | Inr recs \<Rightarrow> recs)) \<and>
     (\<forall>l a w. asked (snd (rd_kafka_commit A l a w)) = asked w @ [l] \<and> taken (snd (rd_kafka_commit A l a w)) = taken w) \<and>
     (\<forall>w. \<forall>rec\<in>set (taken w). no_nul (cr_topic rec))"

text \<open>
  The last offset seen for a partition, and the position the requests ask to commit for it.
\<close>

definition last_offset :: "TopicPartition \<Rightarrow> ConsumerRecord list \<Rightarrow> Offset option" where
  "last_offset tp recs = map_of (rev (map (\<lambda>m. ((cr_topic m, cr_partition m), cr_offset m)) recs)) tp"

definition asked_position :: "TopicPartition \<Rightarrow> rd_kafka_topic_partition_list_t option list \<Rightarrow> Offset option" where
  "asked_position tp reqs =
     foldl (\<lambda>acc l. case omap_find tp (getTopicPartitionOffsets l) of None \<Rightarrow> acc | Some off \<Rightarrow> Some off) None reqs"

lemma asked_position_snoc [simp]:
  "asked_position tp (reqs @ [l]) =
     (case omap_find tp (getTopicPartitionOffsets l) of None \<Rightarrow> asked_position tp reqs | Some off \<Rightarrow> Some off)"
  unfolding asked_position_def by simp

lemma asked_position_Nil [simp]: "asked_position tp [] = None"
  by (simp add: asked_position_def)

lemma last_offset_append [simp]:
  "last_offset tp (recs @ recs') = (case last_offset tp recs' of None \<Rightarrow> last_offset tp recs | Some off \<Rightarrow> Some off)"
  by (simp add: last_offset_def map_add_def split: option.split)

lemma last_offset_Nil [simp]: "last_offset tp [] = None"
  by (simp add: last_offset_def)

section \<open>What the quiet calls leave alone\<close>

definition steady :: "('w \<Rightarrow> 'o) \<Rightarrow> ('w, 'm) consumer_scheme \<Rightarrow> ('w, 'm) consumer_scheme \<Rightarrow> bool" where
  "steady obs s0 s \<longleftrightarrow> enableAutoCommit s = enableAutoCommit s0 \<and> offsetsToStore s = offsetsToStore s0 \<and>
     opened s = opened s0 \<and> obs (world s) = obs (world s0)"

lemma steady_refl [simp]: "steady obs s s"
  by (simp add: steady_def)

lemma steady_trans: "steady obs s t \<Longrightarrow> steady obs t u \<Longrightarrow> steady obs s u"
  by (simp add: steady_def)

lemma steady_lib_call: "silent obs c \<Longrightarrow> preserves (steady obs s0) (lib_call c)"
  by (simp add: preserves_def steady_def silent_def)

lemma silent_getCurrentTime: "silent obs c \<Longrightarrow> silent obs (getCurrentTime f c)"
  by (simp add: silent_def getCurrentTime_def split_beta)

lemma steady_changeAssignment:
  assumes "quiet_calls A M obs"
  shows "preserves (steady obs s0) (changeAssignment A ev tps)"
  using assms unfolding changeAssignment_def Let_def quiet_calls_def silent_def
  by (cases ev) (auto simp: preserves_def steady_def)

lemma steady_onRebalance:
  assumes "quiet_calls A M obs"
  shows "preserves (steady obs s0) (onRebalance A err l)"
proof -
  have "preserves (steady obs s0) (modM (learn_protocol A))"
    by (auto simp: preserves_def steady_def learn_protocol_def split: option.split)
  moreover have "preserves (steady obs s0) (modM (clear_pending err))"
    by (auto simp: preserves_def steady_def clear_pending_def)
  moreover have "preserves (steady obs s0) (call_cb cb e)" for cb and e :: "nat \<Rightarrow> client_event"
    by (auto simp: preserves_def steady_def call_cb_apply split: option.split)
  ultimately show ?thesis
    unfolding onRebalance_def Let_def
    by (intro inv_intros steady_changeAssignment [OF assms])
qed

lemma steady_serve_all:
  assumes "quiet_calls A M obs"
  shows "preserves (steady obs s0) (serve_all A cs)"
proof (rule preserves_serve_all)
  show "preserves (steady obs s0) (serve A c)" for c
  proof (cases c)
    case (Served_offset_commit err l cb)
    then show ?thesis
      by (auto simp: serve_def offsetCommitCallback_def preserves_def steady_def call_cb_apply
          split: option.split)
  qed (simp add: serve_def steady_onRebalance [OF assms])
qed

lemma steady_thread_runs:
  assumes "quiet_calls A M obs"
  shows "preserves (steady obs s0) (thread_runs M (consumer_pollCallbacks A))"
proof -
  have "silent obs (rd_kafka_queue_poll_callback A ms)" "silent obs (thread_turns M)" for ms
    using assms by (simp_all add: quiet_calls_def)
  then show ?thesis
    unfolding thread_runs_def consumer_pollCallbacks_def
    by (intro inv_intros steady_lib_call steady_serve_all [OF assms])
qed

lemma steady_subscribe:
  assumes "quiet_calls A M obs"
  shows "preserves (steady obs s0) (subscribe A fuel topics cb timeout)"
proof -
  have quiet: "silent obs (steady_now A)" "silent obs (rd_kafka_subscribe A l)" "silent obs (rd_kafka_poll A ms)" for l ms
    using assms by (simp_all add: quiet_calls_def)
  have await: "preserves (steady obs s0) (await_event A until n)" for until n
    by (induction n) (auto simp only: await_event.simps poll_library_def
        intro!: inv_intros steady_lib_call steady_serve_all [OF assms] quiet)
  have sets: "preserves (steady obs s0) (modM (\<lambda>s. s\<lparr>userSubscription := x1\<rparr>))"
    "preserves (steady obs s0) (modM (\<lambda>s. s\<lparr>rebalanceCb := x2\<rparr>))"
    "preserves (steady obs s0) (modM (\<lambda>s. s\<lparr>pendingEvent := x3\<rparr>))" for x1 x2 x3
    by (simp_all add: preserves_def steady_def)
  have throws: "preserves (steady obs s0) (throw_if e)" for e
    by (simp add: preserves_def throw_if_def)
  show ?thesis
    unfolding subscribe_def start_subscription_def await_or_time_out_def
    by (intro inv_intros steady_lib_call quiet await sets throws)
qed

lemma steadyD:
  "preserves (steady obs s) m \<Longrightarrow> m s = (r, s') \<Longrightarrow> steady obs s s'"
  using preservesD [of "steady obs s" m s] by simp

section \<open>Polling with automatic commits\<close>

text \<open>
  \<open>in_step\<close>: committing the offsets kept would move the committed position of every partition just past
  the last record handed over.
\<close>

definition in_step ::
  "('w \<Rightarrow> rd_kafka_message_t list) \<Rightarrow> ('w \<Rightarrow> rd_kafka_topic_partition_list_t option list) \<Rightarrow> ('w, 'm) consumer_scheme \<Rightarrow> bool" where
  "in_step taken asked s \<longleftrightarrow> enableAutoCommit s \<and> omap_ok (offsetsToStore s) \<and>
     (\<forall>tp_o\<in>set (offsetsToStore s). no_nul (fst (fst tp_o))) \<and>
     (\<forall>tp. (case omap_find tp (offsetsToStore s) of None \<Rightarrow> asked_position tp (asked (world s)) | Some off \<Rightarrow> Some (off + 1)) =
        map_option (\<lambda>off. off + 1) (last_offset tp (taken (world s))))"

lemma in_step_steady: "steady (\<lambda>w. (taken w, asked w)) s s' \<Longrightarrow> in_step taken asked s \<Longrightarrow> in_step taken asked s'"
  by (simp add: steady_def in_step_def del: split_paired_All cong: option.case_cong)

lemma find_increment: "omap_find tp (increment_offsets m) = map_option (\<lambda>off. off + 1) (omap_find tp m)"
  unfolding increment_offsets_def by (induction m) auto

lemma ok_increment: "omap_ok m \<Longrightarrow> omap_ok (increment_offsets m)"
  by (simp add: omap_ok_def increment_offsets_def comp_def)

text \<open>An accepted commit of the kept offsets brings the position asked for to the last record handed over.\<close>

lemma commitStored_in_step:
  assumes obs: "observes A M taken asked" and s: "in_step taken asked s"
    and run: "commitStoredOffsetsIfNecessary A type s = (Inr (), s')"
  shows "enableAutoCommit s' \<and> opened s' = opened s \<and> offsetsToStore s' = [] \<and> taken (world s') = taken (world s) \<and>
    (\<forall>tp. asked_position tp (asked (world s')) = map_option (\<lambda>off. off + 1) (last_offset tp (taken (world s))))"
proof (cases "offsetsToStore s = []")
  case True
  then show ?thesis using s run by (simp add: commitStored_skip in_step_def del: split_paired_All)
next
  case False
  have auto: "enableAutoCommit s" using s by (simp add: in_step_def)
  let ?l = "Some (createRkTopicPartitionList (increment_offsets (offsetsToStore s)))"
  have commit: "asked (snd (rd_kafka_commit A ?l (type = Async) (world s))) = asked (world s) @ [?l]"
    "taken (snd (rd_kafka_commit A ?l (type = Async) (world s))) = taken (world s)"
    using obs unfolding observes_def by blast+
  then have s': "s' = s\<lparr>world := snd (rd_kafka_commit A ?l (type = Async) (world s)), offsetsToStore := []\<rparr>"
    using run by (auto simp: commitStored_run [OF auto False] split: prod.splits if_splits)
  have "getTopicPartitionOffsets ?l = increment_offsets (offsetsToStore s)"
    using s by (intro getTopicPartitionOffsets_create ok_increment) (auto simp: in_step_def increment_offsets_def)
  then have asked: "asked_position tp (asked (world s')) =
      (case omap_find tp (offsetsToStore s) of None \<Rightarrow> asked_position tp (asked (world s)) | Some off \<Rightarrow> Some (off + 1))" for tp
    by (simp add: s' commit find_increment split: option.split)
  have "(case omap_find tp (offsetsToStore s) of None \<Rightarrow> asked_position tp (asked (world s)) | Some off \<Rightarrow> Some (off + 1)) =
      map_option (\<lambda>off. off + 1) (last_offset tp (taken (world s)))" for tp
    using s unfolding in_step_def by blast
  with asked show ?thesis using auto commit by (simp add: s' del: split_paired_All)
qed

lemma no_nul_store:
  "(\<And>m. m \<in> set recs \<Longrightarrow> no_nul (cr_topic m)) \<Longrightarrow> tp_o \<in> set (foldl store_offset [] recs) \<Longrightarrow> no_nul (fst (fst tp_o))"
proof -
  assume topics: "\<And>m. m \<in> set recs \<Longrightarrow> no_nul (cr_topic m)" and "tp_o \<in> set (foldl store_offset [] recs)"
  have stored: "foldl store_offset [] recs = omap_of_list (map (\<lambda>m. ((cr_topic m, cr_partition m), cr_offset m)) recs)"
    unfolding omap_of_list_def foldl_map store_offset_def by simp
  then have "omap_find (fst tp_o) (foldl store_offset [] recs) = Some (snd tp_o)"
    using \<open>tp_o \<in> _\<close> by (intro omap_find_in) simp_all
  then have "(fst tp_o, snd tp_o) \<in> set (rev (map (\<lambda>m. ((cr_topic m, cr_partition m), cr_offset m)) recs))"
    unfolding find_stored by (rule map_of_SomeD)
  then show ?thesis using topics by auto
qed

lemma ok_store: "omap_ok (foldl store_offset [] recs)"
proof -
  have "foldl store_offset [] recs = omap_of_list (map (\<lambda>m. ((cr_topic m, cr_partition m), cr_offset m)) recs)"
    unfolding omap_of_list_def foldl_map store_offset_def by simp
  then show ?thesis by simp
qed

lemma poll_parts:
  assumes "poll A t s = (Inr recs, s')"
  obtains s1 s2 where "commitStoredOffsetsIfNecessary A Async s = (Inr (), s1)"
    "snd (fst (rd_kafka_consume_batch_queue A (convertMsDurationToInt t) (maxPollRecords s1) (world s1))) = Inr recs"
    "serve_all A (fst (fst (rd_kafka_consume_batch_queue A (convertMsDurationToInt t) (maxPollRecords s1) (world s1))))
       (s1\<lparr>world := snd (rd_kafka_consume_batch_queue A (convertMsDurationToInt t) (maxPollRecords s1) (world s1))\<rparr>) = (Inr (), s2)"
    "s' = (if enableAutoCommit s2 then s2\<lparr>offsetsToStore := foldl store_offset (offsetsToStore s2) recs\<rparr> else s2)"
proof -
  obtain s1 where s1: "commitStoredOffsetsIfNecessary A Async s = (Inr (), s1)"
    using assms by (auto simp: poll_def elim: seqM_cases)
  with that assms show thesis
    by (auto simp: poll_def seqM_split storeOffsetsIfNecessary_def split: prod.splits sum.splits if_splits)
qed

lemma poll_in_step:
  assumes obs: "observes A M taken asked" and s: "in_step taken asked s" and run: "poll A t s = (Inr recs, s')"
  shows "in_step taken asked s' \<and> opened s' = opened s \<and> taken (world s') = taken (world s) @ recs \<and>
    (\<forall>tp. asked_position tp (asked (world s')) = map_option (\<lambda>off. off + 1) (last_offset tp (taken (world s))))"
proof -
  obtain s1 s2 where s1: "commitStoredOffsetsIfNecessary A Async s = (Inr (), s1)"
    and recs: "snd (fst (rd_kafka_consume_batch_queue A (convertMsDurationToInt t) (maxPollRecords s1) (world s1))) = Inr recs"
    and serve: "serve_all A (fst (fst (rd_kafka_consume_batch_queue A (convertMsDurationToInt t) (maxPollRecords s1) (world s1))))
       (s1\<lparr>world := snd (rd_kafka_consume_batch_queue A (convertMsDurationToInt t) (maxPollRecords s1) (world s1))\<rparr>) = (Inr (), s2)"
    and s': "s' = (if enableAutoCommit s2 then s2\<lparr>offsetsToStore := foldl store_offset (offsetsToStore s2) recs\<rparr> else s2)"
    by (rule poll_parts [OF run])
  let ?w = "snd (rd_kafka_consume_batch_queue A (convertMsDurationToInt t) (maxPollRecords s1) (world s1))"
  have quiet: "quiet_calls A M (\<lambda>w. (taken w, asked w))" using obs by (simp add: observes_def)
  have one: "enableAutoCommit s1" "opened s1 = opened s" "offsetsToStore s1 = []" "taken (world s1) = taken (world s)"
    "\<And>tp. asked_position tp (asked (world s1)) = map_option (\<lambda>off. off + 1) (last_offset tp (taken (world s)))"
    using commitStored_in_step [OF obs s s1] by (simp_all del: split_paired_All)
  have consume: "asked ?w = asked (world s1)" "taken ?w = taken (world s) @ recs"
    using obs one(4) recs unfolding observes_def by (simp_all del: split_paired_All)
  have "steady (\<lambda>w. (taken w, asked w)) (s1\<lparr>world := ?w\<rparr>) s2"
    by (rule steadyD [OF steady_serve_all [OF quiet] serve])
  then have two: "enableAutoCommit s2" "opened s2 = opened s" "offsetsToStore s2 = []" "taken (world s2) = taken (world s) @ recs"
    "asked (world s2) = asked (world s1)"
    using one consume by (simp_all add: steady_def)
  have topics: "no_nul (cr_topic m)" if "m \<in> set recs" for m
    using obs two(4) that unfolding observes_def by (metis Un_iff set_append)
  have final: "offsetsToStore s' = foldl store_offset [] recs" "enableAutoCommit s'" "world s' = world s2" "opened s' = opened s2"
    using two by (simp_all add: s')
  have "in_step taken asked s'"
    unfolding in_step_def final(1,3) two(4,5) last_offset_append one(5) find_stored
    using final(2) ok_store no_nul_store topics
    by (auto simp: last_offset_def simp del: split_paired_All split: option.split)
  then show ?thesis using two one(5) by (simp add: final del: split_paired_All)
qed

lemma poll_takes:
  assumes obs: "observes A M taken asked" and run: "poll A t s = (Inr recs, s')"
  shows "taken (world s') = taken (world s) @ recs"
proof -
  obtain s1 s2 where s1: "commitStoredOffsetsIfNecessary A Async s = (Inr (), s1)"
    and recs: "snd (fst (rd_kafka_consume_batch_queue A (convertMsDurationToInt t) (maxPollRecords s1) (world s1))) = Inr recs"
    and serve: "serve_all A (fst (fst (rd_kafka_consume_batch_queue A (convertMsDurationToInt t) (maxPollRecords s1) (world s1))))
       (s1\<lparr>world := snd (rd_kafka_consume_batch_queue A (convertMsDurationToInt t) (maxPollRecords s1) (world s1))\<rparr>) = (Inr (), s2)"
    and s': "s' = (if enableAutoCommit s2 then s2\<lparr>offsetsToStore := foldl store_offset (offsetsToStore s2) recs\<rparr> else s2)"
    by (rule poll_parts [OF run])
  have commit: "taken (snd (rd_kafka_commit A l a w)) = taken w" for l a w
    using obs by (simp add: observes_def)
  have "taken (world s1) = taken (world s)"
  proof (cases "enableAutoCommit s \<and> offsetsToStore s \<noteq> []")
    case True
    then show ?thesis using s1 commit by (auto simp: commitStored_run split: prod.splits if_splits) (metis snd_conv)
  next
    case False
    then show ?thesis using s1 commitStored_skip [OF False, of A Async] by simp
  qed
  moreover have "steady (\<lambda>w. (taken w, asked w)) (s1\<lparr>world := snd (rd_kafka_consume_batch_queue A (convertMsDurationToInt t) (maxPollRecords s1) (world s1))\<rparr>) s2"
    by (rule steadyD [OF steady_serve_all [of A M] serve]) (use obs in \<open>simp add: observes_def\<close>)
  ultimately show ?thesis using obs recs by (simp add: s' steady_def observes_def)
qed

section \<open>Polling without automatic commits\<close>

text \<open>
  A program that commits by itself asks for what it has been given: \<open>rd_kafka_commit\<close> without a list
  commits the stored offsets of the partitions that are assigned at the time, and the library stores the
  offset of a message without error when it hands it over. \<open>kept\<close> are partitions that stay assigned to the
  consumer for the whole run: nothing is known of the others, whose stored offsets are lost with the
  assignment. \<open>positions\<close> are the offsets the group has committed; \<open>RD_KAFKA_RESP_ERR__NO_OFFSET\<close> says
  that no stored offset is left to commit.
\<close>

definition without_error :: "ConsumerRecord list \<Rightarrow> ConsumerRecord list" where
  "without_error recs = filter (\<lambda>m. \<not> error_set (cr_error m)) recs"

definition position_after :: "(TopicPartition \<Rightarrow> Offset option) \<Rightarrow> ConsumerRecord list \<Rightarrow> TopicPartition \<Rightarrow> Offset option" where
  \<comment> \<open>the position after a commit of what has been handed over\<close>
  "position_after before recs tp =
     (case last_offset tp (without_error recs) of None \<Rightarrow> before tp | Some off \<Rightarrow> Some (off + 1))"

definition among :: "TopicPartition set \<Rightarrow> (TopicPartition \<Rightarrow> Offset option) \<Rightarrow> TopicPartition \<Rightarrow> Offset option" where
  "among kept f tp = (if tp \<in> kept then f tp else None)"

definition commits_kept ::
  "('w, 'n) consumer_api_scheme \<Rightarrow> ('w, 'x) machine_scheme \<Rightarrow> TopicPartition set \<Rightarrow> ('w \<Rightarrow> rd_kafka_message_t list) \<Rightarrow>
     ('w \<Rightarrow> TopicPartition \<Rightarrow> Offset option) \<Rightarrow> bool" where
  "commits_kept A M kept taken positions \<longleftrightarrow>
     quiet_calls A M (\<lambda>w. (taken w, among kept (positions w))) \<and>
     (\<forall>ms n w. among kept (positions (snd (rd_kafka_consume_batch_queue A ms n w))) = among kept (positions w) \<and>
        taken (snd (rd_kafka_consume_batch_queue A ms n w)) = taken w @
          (case snd (fst (rd_kafka_consume_batch_queue A ms n w)) of Inl _ \<Rightarrow> [] | Inr recs \<Rightarrow> recs)) \<and>
     (\<forall>a w. taken (snd (rd_kafka_commit A None a w)) = taken w \<and>
        among kept (positions (snd (rd_kafka_commit A None a w))) =
          among kept (if fst (rd_kafka_commit A None a w) = RD_KAFKA_RESP_ERR_NO_ERROR then position_after (positions w) (taken w)
             else positions w) \<and>
        (fst (rd_kafka_commit A None a w) = RD_KAFKA_RESP_ERR__NO_OFFSET \<longrightarrow>
           among kept (position_after (positions w) (taken w)) = among kept (positions w)))"

lemma among_iff: "among kept f = among kept g \<longleftrightarrow> (\<forall>tp\<in>kept. f tp = g tp)"
  by (auto simp: among_def fun_eq_iff)

lemma position_after_Nil [simp]: "position_after before [] = before"
  by (simp add: position_after_def without_error_def fun_eq_iff)

lemma position_after_more: "position_after (position_after before recs) (recs @ recs') = position_after before (recs @ recs')"
  by (auto simp: position_after_def without_error_def fun_eq_iff split: option.split)

lemma position_after_cong:
  "among kept f = among kept g \<Longrightarrow> among kept (position_after f recs) = among kept (position_after g recs)"
  by (auto simp: among_iff position_after_def split: option.split)

lemma poll_manual:
  assumes lib: "commits_kept A M kept taken positions" and s: "\<not> enableAutoCommit s" and run: "poll A t s = (Inr recs, s')"
  shows "\<not> enableAutoCommit s' \<and> opened s' = opened s \<and> taken (world s') = taken (world s) @ recs \<and>
    among kept (positions (world s')) = among kept (positions (world s))"
proof -
  obtain s1 s2 where s1: "commitStoredOffsetsIfNecessary A Async s = (Inr (), s1)"
    and recs: "snd (fst (rd_kafka_consume_batch_queue A (convertMsDurationToInt t) (maxPollRecords s1) (world s1))) = Inr recs"
    and serve: "serve_all A (fst (fst (rd_kafka_consume_batch_queue A (convertMsDurationToInt t) (maxPollRecords s1) (world s1))))
       (s1\<lparr>world := snd (rd_kafka_consume_batch_queue A (convertMsDurationToInt t) (maxPollRecords s1) (world s1))\<rparr>) = (Inr (), s2)"
    and s': "s' = (if enableAutoCommit s2 then s2\<lparr>offsetsToStore := foldl store_offset (offsetsToStore s2) recs\<rparr> else s2)"
    by (rule poll_parts [OF run])
  let ?w = "snd (rd_kafka_consume_batch_queue A (convertMsDurationToInt t) (maxPollRecords s1) (world s1))"
  have quiet: "quiet_calls A M (\<lambda>w. (taken w, among kept (positions w)))" using lib by (simp add: commits_kept_def)
  have same: "s1 = s" using s s1 by (simp add: commitStored_skip)
  have consume: "among kept (positions ?w) = among kept (positions (world s))" "taken ?w = taken (world s) @ recs"
    using lib recs unfolding commits_kept_def same by simp_all
  have "steady (\<lambda>w. (taken w, among kept (positions w))) (s1\<lparr>world := ?w\<rparr>) s2"
    by (rule steadyD [OF steady_serve_all [OF quiet] serve])
  then show ?thesis using s consume by (simp add: s' same steady_def)
qed

lemma commitSync_kept:
  assumes lib: "commits_kept A M kept taken positions" and run: "commitSync A s = (Inr (), s')"
  shows "among kept (positions (world s')) = among kept (position_after (positions (world s)) (taken (world s))) \<and>
    taken (world s') = taken (world s) \<and> enableAutoCommit s' = enableAutoCommit s \<and> opened s' = opened s"
proof -
  obtain r w where r: "rd_kafka_commit A None False (world s) = (r, w)" by fastforce
  have "taken w = taken (world s)" "among kept (positions w) = among kept (if r = RD_KAFKA_RESP_ERR_NO_ERROR
      then position_after (positions (world s)) (taken (world s)) else positions (world s))"
    "r = RD_KAFKA_RESP_ERR__NO_OFFSET \<Longrightarrow>
       among kept (position_after (positions (world s)) (taken (world s))) = among kept (positions (world s))"
    using lib unfolding commits_kept_def by (metis r fst_conv snd_conv)+
  then show ?thesis
    using run by (auto simp: commitSync_def commit_def rk_list_or_null_def seqM_split r split: if_splits)
qed

section \<open>Runs of the loop\<close>

definition only_looks :: "('w \<Rightarrow> 'o) \<Rightarrow> (('w, 'm) consumer_scheme \<times> 'v screen_scheme, exn, bool) prog \<Rightarrow> bool" where
  \<comment> \<open>a condition that prints nothing and leaves the consumer as it is\<close>
  "only_looks obs go \<longleftrightarrow> (\<forall>sv. steady obs (fst sv) (fst (snd (go sv))) \<and> printed (snd (snd (go sv))) = printed (snd sv))"

lemma only_looks_check:
  assumes "quiet_calls A M obs"
  shows "only_looks obs (check_running M)"
  using assms
  by (auto simp: only_looks_def check_running_def seqM_split steady_def quiet_calls_def silent_def)

lemma only_looks_ret: "only_looks obs (ret b)"
  by (simp add: only_looks_def)

definition prints_batch ::
  "('w \<Rightarrow> 'o) \<Rightarrow> (ConsumerRecord \<Rightarrow> tool_output list \<Rightarrow> bool) \<Rightarrow>
     (ConsumerRecord list \<Rightarrow> (('w, 'm) consumer_scheme \<times> 'v screen_scheme, exn, 'a option) prog) \<Rightarrow> bool" where
  \<comment> \<open>a body that, when it goes on, has printed every record as \<open>text\<close> allows\<close>
  "prints_batch obs text handle \<longleftrightarrow> (\<forall>recs sv. fst (handle recs sv) = Inr None \<longrightarrow>
     steady obs (fst sv) (fst (snd (handle recs sv))) \<and>
     (\<exists>Ls. list_all2 text recs Ls \<and> printed (snd (snd (handle recs sv))) = printed (snd sv) @ concat Ls))"

lemma prints_batchD:
  "prints_batch obs text handle \<Longrightarrow> fst (handle recs sv) = Inr None \<Longrightarrow>
     steady obs (fst sv) (fst (snd (handle recs sv))) \<and>
     (\<exists>Ls. list_all2 text recs Ls \<and> printed (snd (snd (handle recs sv))) = printed (snd sv) @ concat Ls)"
  by (simp add: prints_batch_def del: split_paired_All)

definition prints_record ::
  "('w \<Rightarrow> 'o) \<Rightarrow> (ConsumerRecord \<Rightarrow> tool_output list \<Rightarrow> bool) \<Rightarrow>
     (ConsumerRecord \<Rightarrow> (('w, 'm) consumer_scheme \<times> 'v screen_scheme, exn, unit) prog) \<Rightarrow> bool" where
  "prints_record obs text show_one \<longleftrightarrow> (\<forall>rec sv.
     fst (show_one rec sv) = Inr () \<and> steady obs (fst sv) (fst (snd (show_one rec sv))) \<and>
     (\<exists>L. text rec L \<and> printed (snd (snd (show_one rec sv))) = printed (snd sv) @ L))"

lemma prints_for_records:
  assumes "prints_record obs text show_one"
  shows "fst (for_records show_one recs sv) = Inr () \<and> steady obs (fst sv) (fst (snd (for_records show_one recs sv))) \<and>
    (\<exists>Ls. list_all2 text recs Ls \<and> printed (snd (snd (for_records show_one recs sv))) = printed (snd sv) @ concat Ls)"
proof (induction recs arbitrary: sv)
  case (Cons rec recs)
  obtain sv1 where one: "show_one rec sv = (Inr (), sv1)"
    using assms unfolding prints_record_def by (metis prod.collapse)
  then obtain L where L: "steady obs (fst sv) (fst sv1)" "text rec L" "printed (snd sv1) = printed (snd sv) @ L"
    using assms unfolding prints_record_def by (metis snd_conv)
  obtain Ls where Ls: "list_all2 text recs Ls"
    "printed (snd (snd (for_records show_one recs sv1))) = printed (snd sv1) @ concat Ls"
    using Cons.IH [of sv1] by blast
  have "list_all2 text (rec # recs) (L # Ls)" using L(2) Ls(1) by simp
  moreover have "printed (snd (snd (for_records show_one recs sv1))) = printed (snd sv) @ concat (L # Ls)"
    using L(3) Ls(2) by simp
  ultimately show ?case
    using Cons.IH [of sv1] steady_trans [OF L(1)] by (simp only: for_records.simps seqM_split one prod.case sum.case) blast
qed (auto intro: exI [of _ "[]"])

lemma show_records_run:
  "fst (for_records show_one recs sv) = Inr () \<Longrightarrow> show_records show_one recs sv = (Inr None, snd (for_records show_one recs sv))"
  by (cases "for_records show_one recs sv") (simp add: show_records_def seqM_split)

lemma prints_show_records: "prints_record obs text show_one \<Longrightarrow> prints_batch obs text (show_records show_one)"
  unfolding prints_batch_def
proof (intro allI impI)
  fix recs and sv :: "('a, 'c) consumer_scheme \<times> 'd screen_scheme"
  assume "prints_record obs text show_one"
  then have all: "fst (for_records show_one recs sv) = Inr () \<and> steady obs (fst sv) (fst (snd (for_records show_one recs sv))) \<and>
    (\<exists>Ls. list_all2 text recs Ls \<and> printed (snd (snd (for_records show_one recs sv))) = printed (snd sv) @ concat Ls)"
    by (rule prints_for_records)
  show "steady obs (fst sv) (fst (snd (show_records show_one recs sv))) \<and>
    (\<exists>Ls. list_all2 text recs Ls \<and> printed (snd (snd (show_records show_one recs sv))) = printed (snd sv) @ concat Ls)"
    using all by (simp add: show_records_run)
qed

lemma shown_round:
  assumes obs: "observes A M taken asked" and go: "only_looks (\<lambda>w. (taken w, asked w)) go"
    and handle: "prints_batch (\<lambda>w. (taken w, asked w)) text handle"
    and s: "in_step taken asked s"
    and run: "poll_round A M go handle x (s, v) = (Inr None, (s', v'))"
  shows "\<exists>recs Ls. in_step taken asked s' \<and> opened s' = opened s \<and> taken (world s') = taken (world s) @ recs \<and>
    list_all2 text recs Ls \<and> printed v' = printed v @ concat Ls \<and>
    (\<forall>tp. asked_position tp (asked (world s')) = map_option (\<lambda>off. off + 1) (last_offset tp (taken (world s))))"
proof -
  let ?obs = "\<lambda>w. (taken w, asked w)"
  have quiet: "quiet_calls A M ?obs" using obs by (simp add: observes_def)
  obtain r1 s1 where one: "thread_runs M (consumer_pollCallbacks A) s = (r1, s1)" by fastforce
  obtain r2 s2 v2 where two: "go (s1, v) = (r2, (s2, v2))" by (metis prod.collapse)
  obtain recs s3 where poll: "poll A POLL_TIMEOUT s2 = (Inr recs, s3)" and batch: "handle recs (s3, v2) = (Inr None, (s', v'))"
    using run by (auto simp: poll_round_def seqM_split one two split: sum.splits if_splits)
      (metis prod.collapse)
  have "steady ?obs s s1" by (rule steadyD [OF steady_thread_runs [OF quiet] one])
  moreover have "steady ?obs s1 s2" "printed v2 = printed v"
    using go two unfolding only_looks_def by (metis fst_conv snd_conv)+
  ultimately have s2: "steady ?obs s s2" and v2: "printed v2 = printed v" using steady_trans by blast+
  have world: "taken (world s2) = taken (world s)" and is_open: "opened s2 = opened s"
    using s2 by (simp_all add: steady_def)
  obtain Ls where Ls: "steady ?obs s3 s'" "list_all2 text recs Ls" "printed v' = printed v2 @ concat Ls"
    using prints_batchD [OF handle, of recs "(s3, v2)"] by (auto simp: batch)
  from poll_in_step [OF obs in_step_steady [OF s2 s] poll] in_step_steady [OF Ls(1)]
  show ?thesis
    unfolding world using Ls v2 is_open
    by (intro exI [of _ recs] exI [of _ Ls]) (simp add: steady_def del: split_paired_All)
qed

lemma no_fuel_serve_all [no_fuel]: "never_out_of_fuel (serve_all A cs)"
  using throws_serve_all by (auto simp: never_out_of_fuel_def plain_exception_def)

lemma no_fuel_pollCallbacks [no_fuel]: "never_out_of_fuel (consumer_pollCallbacks A ms)"
  unfolding consumer_pollCallbacks_def by (intro no_fuel)

lemma no_fuel_poll [no_fuel]: "never_out_of_fuel (poll A t)"
  unfolding poll_def commitStoredOffsetsIfNecessary_def commit_def storeOffsetsIfNecessary_def
  by (intro no_fuel) (simp_all add: throw_error_def)

lemma no_fuel_for_records [no_fuel]:
  "(\<And>rec. never_out_of_fuel (show_one rec)) \<Longrightarrow> never_out_of_fuel (for_records show_one recs)"
  by (induction recs) (auto simp only: for_records.simps intro!: no_fuel)

lemma no_fuel_show_records [no_fuel]:
  "(\<And>rec. never_out_of_fuel (show_one rec)) \<Longrightarrow> never_out_of_fuel (show_records show_one recs)"
  unfolding show_records_def by (intro no_fuel)

lemma no_fuel_round:
  "never_out_of_fuel go \<Longrightarrow> (\<And>recs. never_out_of_fuel (handle recs)) \<Longrightarrow> never_out_of_fuel (poll_round A M go handle x)"
  unfolding poll_round_def by (intro no_fuel)

text \<open>
  What holds after every number of rounds: everything handed over has been printed, in order and once.
\<close>

lemma shown_rounds:
  assumes obs: "observes A M taken asked" and go: "only_looks (\<lambda>w. (taken w, asked w)) go"
    and handle: "prints_batch (\<lambda>w. (taken w, asked w)) text handle"
    and fuel: "never_out_of_fuel go" "\<And>recs. never_out_of_fuel (handle recs)"
    and s: "in_step taken asked s"
    and run: "poll_loop A M go handle x n (s, v) = (Inl Out_of_fuel, (s', v'))"
  shows "\<exists>recs Ls. in_step taken asked s' \<and> opened s' = opened s \<and> taken (world s') = taken (world s) @ recs \<and>
    list_all2 text recs Ls \<and> printed v' = printed v @ concat Ls"
  using s run
proof (induction n arbitrary: s v)
  case (Suc n)
  obtain r s1 v1 where round: "poll_round A M go handle x (s, v) = (r, (s1, v1))" by (metis prod.collapse)
  moreover have no_fuel: "fst (poll_round A M go handle x (s, v)) \<noteq> Inl Out_of_fuel"
    using fuel by (intro no_fuelD no_fuel_round)
  ultimately have r: "r = Inr None" "poll_loop A M go handle x n (s1, v1) = (Inl Out_of_fuel, (s', v'))"
    using Suc.prems(2) no_fuel
    by (auto simp: seqM_split split: sum.splits option.splits)
  obtain recs Ls where one: "in_step taken asked s1" "opened s1 = opened s" "taken (world s1) = taken (world s) @ recs"
    "list_all2 text recs Ls" "printed v1 = printed v @ concat Ls"
    using shown_round [OF obs go handle Suc.prems(1) round [unfolded r(1)]] by blast
  obtain recs' Ls' where "in_step taken asked s'" "opened s' = opened s1" "taken (world s') = taken (world s1) @ recs'"
    "list_all2 text recs' Ls'" "printed v' = printed v1 @ concat Ls'"
    using Suc.IH [OF one(1) r(2)] by blast
  with one show ?case
    by (intro exI [of _ "recs @ recs'"] exI [of _ "Ls @ Ls'"]) (simp add: list_all2_appendI)
qed (auto intro!: exI [of _ "[]"])

lemma shown_then_left:
  assumes "observes A M taken asked" "only_looks (\<lambda>w. (taken w, asked w)) go"
    and "prints_batch (\<lambda>w. (taken w, asked w)) text handle"
    and "never_out_of_fuel go" "\<And>recs. never_out_of_fuel (handle recs)"
    and "in_step taken asked s"
    and "poll_loop A M go handle x n (s, v) = (Inr y, (s', v'))"
  shows "\<exists>s1 v1 recs Ls. in_step taken asked s1 \<and> opened s1 = opened s \<and> taken (world s1) = taken (world s) @ recs \<and>
    list_all2 text recs Ls \<and> printed v1 = printed v @ concat Ls \<and>
    poll_round A M go handle x (s1, v1) = (Inr (Some y), (s', v'))"
proof -
  obtain k s1 v1 where "poll_loop A M go handle x k (s, v) = (Inl Out_of_fuel, (s1, v1))"
    "poll_round A M go handle x (s1, v1) = (Inr (Some y), (s', v'))"
    using polling.last_round [OF assms(7)] by auto
  with shown_rounds [OF assms(1-6)] show ?thesis by blast
qed

text \<open>A body that never leaves the loop by itself: the loop ends by its condition.\<close>

definition never_breaks :: "(ConsumerRecord list \<Rightarrow> ('s, exn, 'a option) prog) \<Rightarrow> bool" where
  "never_breaks handle \<longleftrightarrow> (\<forall>recs s x. fst (handle recs s) \<noteq> Inr (Some x))"

lemma never_breaks_show: "never_breaks (show_records show_one)"
  by (auto simp: never_breaks_def show_records_def seqM_split split: prod.splits sum.splits)

lemma ended_round:
  assumes quiet: "quiet_calls A M obs" and go: "only_looks obs go" and handle: "never_breaks handle"
    and run: "poll_round A M go handle x (s, v) = (Inr (Some y), (s', v'))"
  shows "y = x \<and> steady obs s s' \<and> printed v' = printed v"
proof -
  obtain r1 s1 where one: "thread_runs M (consumer_pollCallbacks A) s = (r1, s1)" by fastforce
  obtain r2 s2 v2 where two: "go (s1, v) = (r2, (s2, v2))" by (metis prod.collapse)
  have "steady obs s s1" by (rule steadyD [OF steady_thread_runs [OF quiet] one])
  moreover have "steady obs s1 s2" "printed v2 = printed v"
    using go two unfolding only_looks_def by (metis fst_conv snd_conv)+
  moreover have "y = x \<and> s' = s2 \<and> v' = v2"
  proof -
    have no_break: "handle recs sv \<noteq> (Inr (Some y), sv')" for recs sv sv'
      using handle unfolding never_breaks_def by (metis fst_conv)
    then show ?thesis
      using run by (cases "poll A POLL_TIMEOUT s2")
        (auto simp: poll_round_def seqM_split one two split: sum.splits if_splits)
  qed
  ultimately show ?thesis using steady_trans by blast
qed

lemma shown_to_the_end:
  assumes obs: "observes A M taken asked" and go: "only_looks (\<lambda>w. (taken w, asked w)) go"
    and handle: "prints_batch (\<lambda>w. (taken w, asked w)) text handle" "never_breaks handle"
    and s: "in_step taken asked s"
    and run: "poll_loop A M go handle x n (s, v) = (Inr y, (s', v'))"
  shows "\<exists>recs Ls. in_step taken asked s' \<and> opened s' = opened s \<and> taken (world s') = taken (world s) @ recs \<and>
    list_all2 text recs Ls \<and> printed v' = printed v @ concat Ls"
  using s run
proof (induction n arbitrary: s v)
  case (Suc n)
  have quiet: "quiet_calls A M (\<lambda>w. (taken w, asked w))" using obs by (simp add: observes_def)
  obtain r s1 v1 where round: "poll_round A M go handle x (s, v) = (r, (s1, v1))" by (metis prod.collapse)
  then consider z where "r = Inr (Some z)" "s' = s1" "v' = v1"
    | "r = Inr None" "poll_loop A M go handle x n (s1, v1) = (Inr y, (s', v'))"
    using Suc.prems(2) by (auto simp: seqM_split split: sum.splits option.splits)
  then show ?case
  proof cases
    case 1
    then have "steady (\<lambda>w. (taken w, asked w)) s s'" "printed v' = printed v"
      using ended_round [OF quiet go handle(2) round [unfolded 1(1)]] by simp_all
    then show ?thesis
      using in_step_steady Suc.prems(1)
      by (intro exI [of _ "[]"]) (auto simp: steady_def)
  next
    case 2
    obtain recs Ls where one: "in_step taken asked s1" "opened s1 = opened s" "taken (world s1) = taken (world s) @ recs"
      "list_all2 text recs Ls" "printed v1 = printed v @ concat Ls"
      using shown_round [OF obs go handle(1) Suc.prems(1) round [unfolded 2(1)]] by blast
    obtain recs' Ls' where "in_step taken asked s'" "opened s' = opened s1" "taken (world s') = taken (world s1) @ recs'"
      "list_all2 text recs' Ls'" "printed v' = printed v1 @ concat Ls'"
      using Suc.IH [OF one(1) 2(2)] by blast
    with one show ?thesis
      by (intro exI [of _ "recs @ recs'"] exI [of _ "Ls @ Ls'"]) (simp add: list_all2_appendI)
  qed
qed simp

text \<open>
  The commit in the round after \<open>n\<close> rounds asks for exactly what those rounds have printed.
\<close>

lemma next_round_commits:
  assumes obs: "observes A M taken asked" and go: "only_looks (\<lambda>w. (taken w, asked w)) go"
    and handle: "prints_batch (\<lambda>w. (taken w, asked w)) text handle"
    and fuel: "never_out_of_fuel go" "\<And>recs. never_out_of_fuel (handle recs)"
    and s: "in_step taken asked s"
    and run: "poll_loop A M go handle x n (s, v) = (Inl Out_of_fuel, (s1, v1))"
      "poll_loop A M go handle x (Suc n) (s, v) = (Inl Out_of_fuel, (s2, v2))"
  shows "asked_position tp (asked (world s2)) = map_option (\<lambda>off. off + 1) (last_offset tp (taken (world s1)))"
proof -
  have no_fuel: "fst (poll_round A M go handle x sv) \<noteq> Inl Out_of_fuel" for sv
    using fuel by (intro no_fuelD no_fuel_round)
  have "poll_loop A M go handle x (n + 1) (s, v) = poll_loop A M go handle x 1 (s1, v1)"
    by (rule polling.fuel_split [OF no_fuel run(1)])
  then have "poll_loop A M go handle x (Suc 0) (s1, v1) = (Inl Out_of_fuel, (s2, v2))"
    using run(2) by simp
  then have "poll_round A M go handle x (s1, v1) = (Inr None, (s2, v2))"
    using no_fuel [of "(s1, v1)"]
    by (cases "poll_round A M go handle x (s1, v1)") (auto simp: seqM_split split: sum.splits option.splits)
  moreover have "in_step taken asked s1" using shown_rounds [OF obs go handle fuel s run(1)] by blast
  ultimately show ?thesis using shown_round [OF obs go handle] by blast
qed

lemma fresh_in_step:
  "enableAutoCommit s \<Longrightarrow> offsetsToStore s = [] \<Longrightarrow> taken (world s) = [] \<Longrightarrow> asked (world s) = [] \<Longrightarrow> in_step taken asked s"
  by (simp add: in_step_def)

section \<open>The destructor\<close>

definition still :: "('w \<Rightarrow> 'o) \<Rightarrow> 'o \<Rightarrow> ('w, 'm) client_scheme \<Rightarrow> bool" where
  "still obs x s \<longleftrightarrow> obs (world s) = x"

lemma still_lib_call: "silent obs c \<Longrightarrow> preserves (still obs x) (lib_call c)"
  by (simp add: preserves_def still_def silent_def)

lemma still_serve_all: "quiet_calls A M obs \<Longrightarrow> preserves (still obs x) (serve_all A cs :: (('a, 'e) consumer_scheme, exn, unit) prog)"
proof (rule preservesI)
  fix s :: "('a, 'e) consumer_scheme"
  assume "quiet_calls A M obs" "still obs x s"
  then show "still obs x (snd (serve_all A cs s))"
    using preservesD [OF steady_serve_all [of A M obs s cs] steady_refl] by (simp add: still_def steady_def)
qed

lemma still_drain:
  "silent obs len \<Longrightarrow> preserves (still obs x) pollq \<Longrightarrow> preserves (still obs x) (drain_queue len pollq fuel)"
  by (induction fuel) (auto simp only: drain_queue.simps intro!: inv_intros still_lib_call)

definition leave_group :: "('w, 'n) consumer_api_scheme \<Rightarrow> nat \<Rightarrow> (('w, 'm) consumer_scheme, exn, unit) prog" where
  \<comment> \<open>\<open>close\<close> after its commit\<close>
  "leave_group A fuel =
     seqM (seqM (lib_call (rd_kafka_consumer_close A)) (serve_all A)) (\<lambda>_.
     seqM (drain_queue (rd_kafka_outq_len A) (poll_library A TIMEOUT_INFINITE) fuel) (\<lambda>_.
     drain_queue (rd_kafka_queue_length A) (consumer_pollCallbacks A TIMEOUT_INFINITE) fuel))"

lemma still_leave_group:
  assumes quiet: "quiet_calls A M obs"
  shows "preserves (still obs x) (leave_group A fuel)"
proof -
  have "silent obs (rd_kafka_consumer_close A)" "silent obs (rd_kafka_outq_len A)" "silent obs (rd_kafka_queue_length A)"
    "silent obs (rd_kafka_poll A ms)" "silent obs (rd_kafka_queue_poll_callback A ms)" for ms
    using quiet by (simp_all add: quiet_calls_def)
  then show ?thesis
    unfolding leave_group_def poll_library_def consumer_pollCallbacks_def
    by (intro inv_intros still_lib_call still_drain still_serve_all [OF quiet])
qed

lemma close_after_commit:
  assumes "commitStoredOffsetsIfNecessary A Sync (s\<lparr>opened := False, pollThread := False, pollable := False\<rparr>) = (Inr (), s1)"
  shows "close_consumer A fuel s = leave_group A fuel s1"
  using assms
  by (simp add: close_consumer_def leave_group_def stopBackgroundPollingIfNecessary_def seqM_split)

text \<open>Closing commits what the last poll kept, when the library takes the commit.\<close>

definition accepts_commits :: "('w, 'n) consumer_api_scheme \<Rightarrow> bool" where
  "accepts_commits A \<longleftrightarrow> (\<forall>l a w. fst (rd_kafka_commit A l a w) = RD_KAFKA_RESP_ERR_NO_ERROR)"

lemma destroy_commits:
  assumes obs: "observes A M taken asked" and s: "in_step taken asked s" "opened s" and accepts: "accepts_commits A"
  shows "taken (world (snd (destroy_consumer A fuel s))) = taken (world s) \<and>
    (\<forall>tp. asked_position tp (asked (world (snd (destroy_consumer A fuel s)))) =
       map_option (\<lambda>off. off + 1) (last_offset tp (taken (world s))))"
proof -
  let ?s0 = "s\<lparr>opened := False, pollThread := False, pollable := False\<rparr>"
  have "in_step taken asked ?s0" using s(1) by (simp add: in_step_def del: split_paired_All cong: option.case_cong)
  moreover obtain s1 where run: "commitStoredOffsetsIfNecessary A Sync ?s0 = (Inr (), s1)"
  proof (cases "enableAutoCommit ?s0 \<and> offsetsToStore ?s0 \<noteq> []")
    case True
    then show ?thesis
      using accepts that commitStored_run [of ?s0 A Sync] unfolding accepts_commits_def
      by (auto split: prod.splits if_splits) (metis fst_conv)
  qed (use that commitStored_skip in blast)
  ultimately have one: "taken (world s1) = taken (world s)"
    "\<And>tp. asked_position tp (asked (world s1)) = map_option (\<lambda>off. off + 1) (last_offset tp (taken (world s)))"
    using commitStored_in_step [OF obs _ run] by (simp_all del: split_paired_All)
  let ?x = "(taken (world s1), asked (world s1))"
  have quiet: "quiet_calls A M (\<lambda>w. (taken w, asked w))" using obs by (simp add: observes_def)
  have "still (\<lambda>w. (taken w, asked w)) ?x (snd (leave_group A fuel s1))"
    by (rule preservesD [OF still_leave_group [OF quiet]]) (simp add: still_def)
  moreover have "destroy_consumer A fuel s = leave_group A fuel s1"
    using s(2) close_after_commit [OF run] by (simp add: destroy_consumer_def)
  ultimately show ?thesis using one by (simp add: still_def del: split_paired_All)
qed

section \<open>A library for the witnesses\<close>

text \<open>
  It serves an assignment with every poll, hands over the messages of a list and takes every commit.
  The signal comes when the list is empty, and then two seconds have passed.
\<close>

record reading =
  waiting :: "rd_kafka_message_t list"
  handed_over :: "rd_kafka_message_t list"
  requested :: "rd_kafka_topic_partition_list_t option list"
  group_positions :: "TopicPartition \<Rightarrow> Offset option"

definition c_topics :: "rd_kafka_message_t list \<Rightarrow> rd_kafka_message_t list" where
  "c_topics = filter (\<lambda>m. no_nul (cr_topic m))"

definition reading_api :: "reading consumer_api" where
  "reading_api = client_api.extend quiet_api \<lparr>
     steady_now = (\<lambda>w. (if waiting w = [] then 2000000000 else 0, w)),
     rd_kafka_poll_set_consumer = (\<lambda>w. (RD_KAFKA_RESP_ERR_NO_ERROR, w)),
     rd_kafka_poll = (\<lambda>t w. ([Served_rebalance RD_KAFKA_RESP_ERR__ASSIGN_PARTITIONS None], w)),
     rd_kafka_queue_poll_callback = (\<lambda>t w. ([], w)),
     rd_kafka_consumer_close = (\<lambda>w. ([], w)),
     rd_kafka_outq_len = (\<lambda>w. (0, w)),
     rd_kafka_queue_length = (\<lambda>w. (0, w)),
     rd_kafka_subscribe = (\<lambda>l w. (RD_KAFKA_RESP_ERR_NO_ERROR, w)),
     rd_kafka_unsubscribe = (\<lambda>w. (RD_KAFKA_RESP_ERR_NO_ERROR, w)),
     rd_kafka_subscription = (\<lambda>w. ((RD_KAFKA_RESP_ERR_NO_ERROR, None), w)),
     rd_kafka_assign = (\<lambda>l w. (RD_KAFKA_RESP_ERR_NO_ERROR, w)),
     rd_kafka_incremental_assign = (\<lambda>l w. (None, w)),
     rd_kafka_incremental_unassign = (\<lambda>l w. (None, w)),
     rd_kafka_assignment = (\<lambda>w. ((RD_KAFKA_RESP_ERR_NO_ERROR, None), w)),
     rd_kafka_rebalance_protocol = (\<lambda>w. Some ''EAGER''),
     rd_kafka_topic_new = (\<lambda>t w. (None, w)),
     rd_kafka_seek = (\<lambda>t p off ms w. (RD_KAFKA_RESP_ERR_NO_ERROR, w)),
     rd_kafka_position = (\<lambda>l w. ((RD_KAFKA_RESP_ERR_NO_ERROR, l), w)),
     rd_kafka_offsets_for_times = (\<lambda>l ms w. ((RD_KAFKA_RESP_ERR_NO_ERROR, l), w)),
     rd_kafka_query_watermark_offsets = (\<lambda>t p ms w. ((RD_KAFKA_RESP_ERR_NO_ERROR, 0, 10), w)),
     rd_kafka_commit = (\<lambda>l a w. (RD_KAFKA_RESP_ERR_NO_ERROR, w\<lparr>requested := requested w @ [l],
       group_positions := (if l = None then position_after (group_positions w) (c_topics (handed_over w)) else group_positions w)\<rparr>)),
     rd_kafka_commit_queue = (\<lambda>l cb w. (RD_KAFKA_RESP_ERR_NO_ERROR, w\<lparr>requested := requested w @ [l]\<rparr>)),
     rd_kafka_committed = (\<lambda>l ms w. ((RD_KAFKA_RESP_ERR_NO_ERROR, l), w)),
     rd_kafka_consume_batch_queue = (\<lambda>t n w. (([], Inr (c_topics (take n (waiting w)))),
        w\<lparr>waiting := drop n (waiting w), handed_over := handed_over w @ take n (waiting w)\<rparr>)),
     rd_kafka_pause_partitions = (\<lambda>l w. ((RD_KAFKA_RESP_ERR_NO_ERROR, l), w)),
     rd_kafka_resume_partitions = (\<lambda>l w. ((RD_KAFKA_RESP_ERR_NO_ERROR, l), w))\<rparr>"

definition reading_machine :: "reading machine" where
  "reading_machine = \<lparr>local_seconds = (\<lambda>_. ''12:00:00''), system_clock_now = (\<lambda>w. (0, w)),
     arrived_sigints = (\<lambda>w. (if waiting w = [] then 1 else 0, w)), thread_turns = (\<lambda>w. (0, w))\<rparr>"

definition reading_start :: "rd_kafka_message_t list \<Rightarrow> reading" where
  "reading_start messages = \<lparr>waiting = messages, handed_over = [], requested = [], group_positions = (\<lambda>_. None)\<rparr>"

lemmas reading_defs = reading_api_def quiet_api_def client_api.defs reading_machine_def

lemma reading_observed: "observes reading_api reading_machine (\<lambda>w. c_topics (handed_over w)) requested"
  by (simp add: observes_def quiet_calls_def silent_def reading_defs c_topics_def)

lemma reading_kept: "commits_kept reading_api reading_machine UNIV (\<lambda>w. c_topics (handed_over w)) group_positions"
  by (simp add: commits_kept_def quiet_calls_def silent_def reading_defs c_topics_def)

lemma reading_accepts: "accepts_commits reading_api"
  by (simp add: accepts_commits_def reading_defs)

definition reading_commit :: "reading consumer \<Rightarrow> reading" where
  \<comment> \<open>the world after the commit of what is kept\<close>
  "reading_commit s = (if offsetsToStore s = [] then world s
     else (world s)\<lparr>requested := requested (world s) @ [Some (createRkTopicPartitionList (increment_offsets (offsetsToStore s)))]\<rparr>)"

lemma reading_poll:
  assumes "enableAutoCommit s" "maxPollRecords s \<le> MAX_VECTOR_SIZE"
  shows "poll reading_api t s = (Inr (c_topics (take (maxPollRecords s) (waiting (world s)))),
    s\<lparr>world := (reading_commit s)\<lparr>waiting := drop (maxPollRecords s) (waiting (world s)),
        handed_over := handed_over (world s) @ take (maxPollRecords s) (waiting (world s))\<rparr>,
      offsetsToStore := foldl store_offset [] (c_topics (take (maxPollRecords s) (waiting (world s))))\<rparr>)"
proof (cases "offsetsToStore s = []")
  case True
  then show ?thesis
    using assms by (simp add: poll_def commitStored_skip seqM_split reading_defs storeOffsetsIfNecessary_def reading_commit_def)
next
  case False
  then show ?thesis
    using assms
    by (simp add: poll_def commitStored_run seqM_split reading_defs storeOffsetsIfNecessary_def reading_commit_def)
qed

lemma reading_looks:
  "thread_runs reading_machine (consumer_pollCallbacks reading_api) s = (Inr (), s)"
  "check_running reading_machine (s, v) =
     (Inr (still_running (receive_sigints (if waiting (world s) = [] then 1 else 0) v)),
      (s, receive_sigints (if waiting (world s) = [] then 1 else 0) v))"
  by (simp_all add: thread_runs_def check_running_def reading_defs)

definition reading_polled :: "reading consumer \<Rightarrow> reading consumer" where
  "reading_polled s = s\<lparr>world := (reading_commit s)\<lparr>waiting := drop (maxPollRecords s) (waiting (world s)),
        handed_over := handed_over (world s) @ take (maxPollRecords s) (waiting (world s))\<rparr>,
      offsetsToStore := foldl store_offset [] (c_topics (take (maxPollRecords s) (waiting (world s))))\<rparr>"

lemma reading_round:
  assumes "enableAutoCommit s" "maxPollRecords s \<le> MAX_VECTOR_SIZE"
  shows "poll_round reading_api reading_machine (ret True) handle x (s, v) =
      handle (c_topics (take (maxPollRecords s) (waiting (world s)))) (reading_polled s, v)"
    "still_running v' \<Longrightarrow> waiting (world s) \<noteq> [] \<Longrightarrow>
      poll_round reading_api reading_machine (check_running reading_machine) handle' x (s, v') =
      handle' (c_topics (take (maxPollRecords s) (waiting (world s)))) (reading_polled s, v')"
  by (simp_all add: poll_round_def seqM_split reading_looks reading_poll [OF assms] reading_polled_def)

lemma reading_stops:
  assumes "waiting (world s) = []" "\<not> sigint_ignored v"
  shows "poll_round reading_api reading_machine (check_running reading_machine) handle x (s, v) =
      (Inr (Some x), (s, receive_sigints 1 v))"
  using assms by (simp add: poll_round_def seqM_split reading_looks receive_sigints_eq)

lemma reading_polled_fields [simp]:
  "enableAutoCommit (reading_polled s) = enableAutoCommit s" "maxPollRecords (reading_polled s) = maxPollRecords s"
  "opened (reading_polled s) = opened s" "waiting (world (reading_polled s)) = drop (maxPollRecords s) (waiting (world s))"
  "handed_over (world (reading_polled s)) = handed_over (world s) @ take (maxPollRecords s) (waiting (world s))"
  by (simp_all add: reading_polled_def)

lemma reading_takes: "takes_consumers reading_api"
  by (simp add: takes_consumers_def takes_clients_def takes_setting_def reading_defs)

lemma reading_quiet_setup: "quiet_consumer_setup reading_api obs"
  by (simp add: quiet_consumer_setup_def quiet_setup_def silent_def reading_defs)

lemma sample_sound: "sound_consumer sample_properties"
  by (simp add: sound_consumer_def sound_client_def config_keys)

lemma sample_values: "auto_commit_of sample_properties" "poll_records_of sample_properties = 500"
  by (simp_all add: auto_commit_of_def poll_records_of_def config_keys)

lemma reading_subscribe:
  assumes "fresh_consumer s" "pendingEvent s = None"
  shows "\<exists>s1. subscribe reading_api (Suc n) topics None DEFAULT_SUBSCRIBE_TIMEOUT_MS s = (Inr (), s1) \<and>
    world s1 = world s \<and> opened s1 = opened s \<and> enableAutoCommit s1 = enableAutoCommit s \<and>
    maxPollRecords s1 = maxPollRecords s \<and> offsetsToStore s1 = offsetsToStore s"
  using assms
  by (simp add: fresh_consumer_def subscribe_def start_subscription_def await_or_time_out_def seqM_split reading_defs
      poll_library_def serve_def onRebalance_def Let_def changeAssignment_def learn_protocol_def clear_pending_def
      deadline_def DEFAULT_SUBSCRIBE_TIMEOUT_MS_def to_int64_def throw_if_def isCooperativeEnabled_def call_cb_def)

lemma reading_destroy:
  assumes "enableAutoCommit s" "opened s"
  shows "\<exists>s'. destroy_consumer reading_api (Suc n) s = (Inr (), s') \<and> handed_over (world s') = handed_over (world s)"
  using assms
  by (cases "offsetsToStore s = []")
    (simp_all add: destroy_consumer_def close_consumer_def stopBackgroundPollingIfNecessary_def seqM_split reading_defs
      commitStored_run commitStored_skip catchM_def)

end
