(* ===== verification/Producer_Programs.thy ===== *)
theory Producer_Programs
  imports Client_Setup Program_Scopes
begin

text \<open>
  The programs that write: a loop over the lines of the input that sends, in a block whose end destroys the
  producer. What is handed to the library is compared with the input, on a library whose received records
  are written down, in order.
\<close>

section \<open>An observed library\<close>

text \<open>\<open>sent w\<close> are the argument lists of \<open>rd_kafka_produceva\<close> so far; no other call adds to them.\<close>

definition quiet_producing :: "('w, 'n) producer_api_scheme \<Rightarrow> ('w, 'x) machine_scheme \<Rightarrow> ('w \<Rightarrow> 'o) \<Rightarrow> bool" where
  "quiet_producing A M obs \<longleftrightarrow>
     (\<forall>ms. silent obs (producer_rd_kafka_poll A ms)) \<and> (\<forall>ms. silent obs (rd_kafka_flush A ms)) \<and>
     (\<forall>fl. silent obs (rd_kafka_purge A fl)) \<and> silent obs (system_clock_now M) \<and> silent obs (thread_turns M)"

definition logs_sends :: "('w, 'n) producer_api_scheme \<Rightarrow> ('w, 'x) machine_scheme \<Rightarrow> ('w \<Rightarrow> rd_kafka_vu_t list list) \<Rightarrow> bool" where
  "logs_sends A M sent \<longleftrightarrow> quiet_producing A M sent \<and>
     (\<forall>vus w. sent (snd (rd_kafka_produceva A vus w)) = sent w @ [vus])"

definition same_sender :: "('w \<Rightarrow> 'o) \<Rightarrow> ('w, 'm) producer_scheme \<Rightarrow> ('w, 'm) producer_scheme \<Rightarrow> bool" where
  "same_sender obs s0 s \<longleftrightarrow> obs (world s) = obs (world s0) \<and> enableManualEventsPoll s = enableManualEventsPoll s0 \<and>
     opened s = opened s0"

lemma same_sender_refl [simp]: "same_sender obs s s"
  by (simp add: same_sender_def)

lemma same_sender_trans: "same_sender obs s t \<Longrightarrow> same_sender obs t u \<Longrightarrow> same_sender obs s u"
  by (simp add: same_sender_def)

lemma sender_lib_call: "silent obs c \<Longrightarrow> preserves (same_sender obs s0) (lib_call c)"
  by (simp add: preserves_def same_sender_def silent_def)

lemma sender_deliver_all: "preserves (same_sender obs s0) (deliver_all L ds)"
  by (simp add: preserves_def deliver_all_eq same_sender_def)

lemma sender_polls:
  assumes "quiet_producing A M obs"
  shows "preserves (same_sender obs s0) (producer_pollCallbacks A ms)"
proof -
  have "silent obs (producer_rd_kafka_poll A ms)" using assms by (simp add: quiet_producing_def)
  then show ?thesis
    unfolding producer_pollCallbacks_def by (intro inv_intros sender_lib_call sender_deliver_all)
qed

lemma sender_thread_runs:
  assumes "quiet_producing A M obs"
  shows "preserves (same_sender obs s0) (thread_runs M (producer_pollCallbacks A))"
proof -
  have "silent obs (thread_turns M)" using assms by (simp add: quiet_producing_def)
  then show ?thesis
    unfolding thread_runs_def by (intro inv_intros sender_lib_call sender_polls [OF assms])
qed

lemma sender_await:
  assumes "quiet_producing A M obs"
  shows "preserves (same_sender obs s0) (await_delivery A n)"
proof (induction n)
  case (Suc n)
  show ?case
    unfolding await_delivery.simps by (intro inv_intros sender_polls [OF assms] Suc)
qed (simp only: await_delivery.simps preserves_throw)

lemma senderD: "preserves (same_sender obs s) m \<Longrightarrow> same_sender obs s (snd (m s))"
  using preservesD [of "same_sender obs s" m s] by simp

lemma send_logged:
  assumes "logs_sends A M sent"
  shows "sent (world (snd (send A rec cb option action s))) = sent (world s) @ [sent_vus A s rec cb option action]"
    "enableManualEventsPoll (snd (send A rec cb option action s)) = enableManualEventsPoll s"
    "opened (snd (send A rec cb option action s)) = opened s"
  using assms by (simp_all add: send_eq logs_sends_def case_prod_unfold Let_def)

lemma syncSend_logged:
  assumes "logs_sends A M sent"
  shows "sent (world (snd (syncSend A n rec s))) = sent (world s) @ [sent_vus A s rec Sync_callback NoCopyRecordValue Block] \<and>
    enableManualEventsPoll (snd (syncSend A n rec s)) = enableManualEventsPoll s \<and> opened (snd (syncSend A n rec s)) = opened s"
proof -
  have quiet: "quiet_producing A M sent" using assms by (simp add: logs_sends_def)
  let ?s1 = "s\<lparr>syncResult := None\<rparr>"
  obtain r s2 where send: "send A rec Sync_callback NoCopyRecordValue Block ?s1 = (r, s2)" by fastforce
  have auto: "isWithAutoEventsPolling ?s1 = isWithAutoEventsPolling s" by (simp add: isWithAutoEventsPolling_def)
  have s2: "sent (world s2) = sent (world s) @ [sent_vus A s rec Sync_callback NoCopyRecordValue Block]"
    "enableManualEventsPoll s2 = enableManualEventsPoll s" "opened s2 = opened s"
    using send_logged [OF assms, of rec Sync_callback NoCopyRecordValue Block ?s1] send by (simp_all add: auto)
  show ?thesis
  proof (cases r)
    case (Inl e)
    then show ?thesis using s2 by (simp add: syncSend_def send)
  next
    case (Inr u)
    have "same_sender sent s2 (snd (await_delivery A n s2))" by (rule senderD [OF sender_await [OF quiet]])
    moreover have "snd (syncSend A n rec s) = snd (await_delivery A n s2)"
      using Inr by (auto simp: syncSend_def send seqM_split throw_if_def split: prod.splits sum.splits)
    ultimately show ?thesis using s2 by (simp add: same_sender_def)
  qed
qed

section \<open>Lines to records\<close>

text \<open>
  A loop body that, for a line, hands over the argument lists \<open>f line\<close> and, if it returns, goes on when
  \<open>g line\<close>. \<open>up_to_stop\<close> are the lines such a loop takes.
\<close>

definition sends_each ::
  "('w \<Rightarrow> rd_kafka_vu_t list list) \<Rightarrow> bool \<Rightarrow> (string \<Rightarrow> rd_kafka_vu_t list list) \<Rightarrow> (string \<Rightarrow> bool) \<Rightarrow>
     (string \<Rightarrow> (('w, 'm) producer_scheme \<times> 'v, exn, bool) prog) \<Rightarrow> bool" where
  "sends_each sent manual f g work \<longleftrightarrow> (\<forall>l s v. enableManualEventsPoll s = manual \<longrightarrow>
     (case work l (s, v) of (r, (s', v')) \<Rightarrow>
        sent (world s') = sent (world s) @ f l \<and> enableManualEventsPoll s' = manual \<and> opened s' = opened s \<and>
        (case r of Inl _ \<Rightarrow> True | Inr go_on \<Rightarrow> go_on = g l)))"

fun up_to_stop :: "('a \<Rightarrow> bool) \<Rightarrow> 'a list \<Rightarrow> 'a list" where
  "up_to_stop g [] = []"
| "up_to_stop g (x # xs) = x # (if g x then up_to_stop g xs else [])"

lemma up_to_stop_all [simp]: "up_to_stop (\<lambda>_. True) xs = xs"
  by (induction xs) simp_all

lemma up_to_stop_eq: "up_to_stop g xs = takeWhile g xs @ take 1 (dropWhile g xs)"
  by (induction xs) simp_all

lemma sends_eachD:
  assumes "sends_each sent manual f g work" "enableManualEventsPoll s = manual" "work l (s, v) = (r, (s', v'))"
  shows "sent (world s') = sent (world s) @ f l \<and> enableManualEventsPoll s' = manual \<and> opened s' = opened s \<and>
    (\<forall>go_on. r = Inr go_on \<longrightarrow> go_on = g l)"
  using assms(1) [unfolded sends_each_def, rule_format, OF assms(2), of l v] by (cases r) (auto simp: assms(3))

lemma sends_eachI:
  fixes work :: "string \<Rightarrow> (('w, 'm) producer_scheme \<times> 'v, exn, bool) prog"
  assumes "\<And>l s v r s' v'. enableManualEventsPoll s = manual \<Longrightarrow> work l (s, v) = (r, (s', v')) \<Longrightarrow>
    sent (world s') = sent (world s) @ f l \<and> enableManualEventsPoll s' = manual \<and> opened s' = opened s \<and>
    (\<forall>go_on. r = Inr go_on \<longrightarrow> go_on = g l)"
  shows "sends_each sent manual f g work"
  unfolding sends_each_def
proof (intro allI impI)
  fix l v and s :: "('w, 'm) producer_scheme"
  assume manual: "enableManualEventsPoll s = manual"
  obtain r s' v' where run: "work l (s, v) = (r, (s', v'))" by (metis prod.collapse)
  from assms [OF manual run] show "case work l (s, v) of (r, (s', v')) \<Rightarrow>
      sent (world s') = sent (world s) @ f l \<and> enableManualEventsPoll s' = manual \<and> opened s' = opened s \<and>
      (case r of Inl _ \<Rightarrow> True | Inr go_on \<Rightarrow> go_on = g l)"
    by (simp add: run split: sum.split)
qed

text \<open>Line by line, in order: all the lines up to the stop, or those up to the one that threw.\<close>

lemma each_line_sends:
  assumes work: "sends_each sent manual f g work" and "enableManualEventsPoll s = manual"
    and "each_line work ls (s, v) = (r, (s', v'))"
  shows "\<exists>k\<le>length (up_to_stop g ls). sent (world s') = sent (world s) @ concat (map f (take k (up_to_stop g ls))) \<and>
    (r = Inr () \<longrightarrow> k = length (up_to_stop g ls)) \<and> enableManualEventsPoll s' = manual \<and> opened s' = opened s"
  using assms(2,3)
proof (induction ls arbitrary: s v)
  case (Cons l ls)
  obtain r1 s1 v1 where one: "work l (s, v) = (r1, (s1, v1))" by (metis prod.collapse)
  note s1 = sends_eachD [OF work Cons.prems(1) one]
  show ?case
  proof (cases r1)
    case (Inl e)
    then show ?thesis using Cons.prems(2) s1 by (intro exI [of _ 1]) (auto simp: seqM_split one)
  next
    case (Inr go_on)
    show ?thesis
    proof (cases "g l")
      case False
      then show ?thesis using Cons.prems(2) s1 Inr by (intro exI [of _ 1]) (auto simp: seqM_split one)
    next
      case True
      then have "each_line work ls (s1, v1) = (r, (s', v'))"
        using Cons.prems(2) s1 Inr by (auto simp: seqM_split one)
      from Cons.IH [OF _ this] s1 obtain k where k: "k \<le> length (up_to_stop g ls)"
        "sent (world s') = sent (world s1) @ concat (map f (take k (up_to_stop g ls)))"
        "r = Inr () \<longrightarrow> k = length (up_to_stop g ls)" "enableManualEventsPoll s' = manual" "opened s' = opened s1" by blast
      then show ?thesis using s1 True by (intro exI [of _ "Suc k"]) simp
    qed
  qed
qed auto

text \<open>The destructor hands nothing over.\<close>

lemma sender_close:
  fixes s :: "('a, 'c) producer_scheme"
  assumes "quiet_producing A M obs"
  shows "obs (world (snd (close_producer A t s))) = obs (world s)"
proof -
  let ?I = "\<lambda>x (s :: ('a, 'c) producer_scheme). obs (world s) = x"
  have flush: "preserves (?I x) (lib_call (rd_kafka_flush A ms))" and purge: "preserves (?I x) (lib_call (rd_kafka_purge A fl))" for ms fl x
    using assms by (simp_all add: preserves_def quiet_producing_def silent_def)
  have serve: "preserves (?I x) (deliver_all L ds)" and polls: "preserves (?I x) (producer_pollCallbacks A ms)" for L ds x ms
    using assms by (simp_all add: preserves_def deliver_all_eq producer_pollCallbacks_def quiet_producing_def silent_def)
  have "preserves (?I (obs (world s))) (close_producer A t)"
    unfolding close_producer_def stopBackgroundPollingIfNecessary_def flush_def purge_def case_prod_unfold
    by (intro inv_intros preserves_modM flush purge serve polls) simp_all
  then show ?thesis by (simp add: preserves_def)
qed

section \<open>Whole programs\<close>

text \<open>
  A block with a producer: \<open>before\<close> the loop the program prints, \<open>after\<close> it the program may close the
  producer itself.
\<close>

definition writing_program ::
  "('w, 'n) producer_api_scheme \<Rightarrow> (exn \<Rightarrow> bool) \<Rightarrow> string \<Rightarrow> Properties \<Rightarrow> ('v, exn, unit) prog \<Rightarrow>
     (string \<Rightarrow> ('w producer \<times> 'v, exn, bool) prog) \<Rightarrow> ('w producer, exn, unit) prog \<Rightarrow> nat \<Rightarrow>
     ('w producer \<times> 'v) \<times> reader \<Rightarrow> unit outcome \<times> ('w producer \<times> 'v) \<times> reader" where
  "writing_program A handled random props before work after fuel =
     in_scope handled (on_client (on_client (construct_producer A random props)))
       (seqM (on_client (on_vars before)) (\<lambda>_. seqM (for_lines work fuel) (\<lambda>_. on_client (on_client after))))
       (on_client (on_client (destroy_producer A)))"

lemma writing_block_sends:
  assumes work: "sends_each sent manual f g work" and after: "\<And>s. sent (world (snd (after s))) = sent (world s)"
    and fuel: "length (lines_of content) < fuel" and s: "enableManualEventsPoll s = manual"
    and run: "seqM (on_client (on_vars before)) (\<lambda>_. seqM (for_lines work fuel) (\<lambda>_. on_client (on_client after)))
        ((s, v), reader_of content) = (r, ((s', v'), rd))"
  shows "\<exists>k\<le>length (up_to_stop g (lines_of content)).
    sent (world s') = sent (world s) @ concat (map f (take k (up_to_stop g (lines_of content)))) \<and>
    (r = Inr () \<longrightarrow> k = length (up_to_stop g (lines_of content)))"
proof (cases "fst (before v)")
  case (Inl e)
  then show ?thesis using run by (intro exI [of _ 0]) (auto simp: seqM_split)
next
  case (Inr u)
  let ?v1 = "snd (before v)"
  obtain r1 s1 v2 where each: "each_line work (lines_of content) (s, ?v1) = (r1, (s1, v2))" by (metis prod.collapse)
  obtain rd1 where loop: "for_lines work fuel ((s, ?v1), reader_of content) = (r1, ((s1, v2), rd1))"
    using for_lines_each [OF fuel, of work "(s, ?v1)"] each by (metis fst_conv snd_conv prod.collapse)
  show ?thesis
    using each_line_sends [OF work s each] run Inr loop after [of s1] by (cases r1) (auto simp: seqM_split)
qed

lemma destroy_producer_obs:
  "quiet_producing A M obs \<Longrightarrow> obs (world (snd (destroy_producer A s))) = obs (world s)"
  using sender_close [of A M obs InfiniteTimeout s] by (simp add: destroy_producer_def)

lemma writing_program_sends:
  assumes logs: "logs_sends A M sent" and quiet: "quiet_setup A sent" and takes: "takes_clients A"
    and config: "sound_client props" "producer_validate random props = Inr q"
    and work: "sends_each sent (manual_of props) f g work"
    and after: "\<And>s. sent (world (snd (after s))) = sent (world s)"
    and fuel: "length (lines_of content) < fuel"
    and run: "writing_program A handled random props before work after fuel ((producer_default w, v), reader_of content) =
      (x, ((s', v'), rd))"
  shows "\<exists>k\<le>length (up_to_stop g (lines_of content)).
    sent (world s') = sent w @ concat (map f (take k (up_to_stop g (lines_of content)))) \<and>
    (x = Finished () \<longrightarrow> k = length (up_to_stop g (lines_of content)))"
proof -
  obtain s where built: "construct_producer A random props (producer_default w) = (Inr (), s)"
    and s: "enableManualEventsPoll s = manual_of props" "sent (world s) = sent w"
    using construct_producer_state [OF config takes quiet] by blast
  have producing: "quiet_producing A M sent" using logs by (simp add: logs_sends_def)
  let ?block = "seqM (on_client (on_vars before)) (\<lambda>_. seqM (for_lines work fuel) (\<lambda>_. on_client (on_client after)))"
  obtain r t vt rt where block: "?block ((s, v), reader_of content) = (r, ((t, vt), rt))" by (metis prod.collapse)
  note sends = writing_block_sends [OF work after fuel s(1) block, unfolded s(2)]
  from run show ?thesis
    unfolding writing_program_def
  proof (cases rule: in_scope_cases)
    case (no_client e)
    then show ?thesis by (simp add: built)
  next
    case (stopped s1 e)
    from stopped(1) have "s1 = ((s, v), reader_of content)" by (simp add: built)
    then show ?thesis using sends stopped(2,4) block by auto
  next
    case (left s1 r' s2)
    from left(1) have "s1 = ((s, v), reader_of content)" by (simp add: built)
    then have r': "r' = r" "s2 = ((t, vt), rt)" using left(2) block by simp_all
    then have "s' = snd (destroy_producer A t)" using left(3) by simp
    moreover have "x = Finished () \<longrightarrow> r = Inr ()" using left(5) r'(1) by (auto split: sum.splits)
    ultimately show ?thesis using sends destroy_producer_obs [OF producing, of t] by metis
  qed
qed

section \<open>A library for the witnesses\<close>

text \<open>The library keeps the argument lists it is given; every poll reports the last of them.\<close>

definition writing_api :: "rd_kafka_vu_t list list producer_api" where
  "writing_api = client_api.extend quiet_api \<lparr>
     RD_KAFKA_MSG_F_COPY = 2, RD_KAFKA_MSG_F_BLOCK = 4, RD_KAFKA_PURGE_F_QUEUE = 1, RD_KAFKA_PURGE_F_INFLIGHT = 2,
     rd_kafka_produceva = (\<lambda>vus w. (None, w @ [vus])),
     producer_rd_kafka_poll = (\<lambda>ms w. (if w = [] then [] else [(sample_message, vus_opaque (last w))], w)),
     rd_kafka_flush = (\<lambda>ms w. (([], RD_KAFKA_RESP_ERR_NO_ERROR), w)),
     rd_kafka_purge = (\<lambda>fl w. (RD_KAFKA_RESP_ERR_NO_ERROR, w)),
     rd_kafka_init_transactions = (\<lambda>ms w. (None, w)),
     rd_kafka_begin_transaction = (\<lambda>w. (None, w)),
     rd_kafka_commit_transaction = (\<lambda>ms w. (None, w)),
     rd_kafka_abort_transaction = (\<lambda>ms w. (None, w)),
     rd_kafka_send_offsets_to_transaction = (\<lambda>l g ms w. (None, w))\<rparr>"

definition writing_machine :: "rd_kafka_vu_t list list machine" where
  "writing_machine = \<lparr>local_seconds = (\<lambda>_. ''12:00:00''), system_clock_now = (\<lambda>w. (0, w)),
     arrived_sigints = (\<lambda>w. (0, w)), thread_turns = (\<lambda>w. (1, w))\<rparr>"

lemmas writing_defs = writing_api_def quiet_api_def client_api.defs writing_machine_def

lemma writing_logs: "logs_sends writing_api writing_machine (\<lambda>w. w)"
  by (simp add: logs_sends_def quiet_producing_def silent_def writing_defs)

lemma writing_takes: "takes_clients writing_api" "quiet_setup writing_api obs"
  by (simp_all add: takes_clients_def quiet_setup_def silent_def writing_defs)

lemma sample_sound_client: "sound_client sample_properties"
  by (simp add: sound_client_def config_keys)

lemma sample_not_manual: "\<not> manual_of sample_properties"
  by (simp add: manual_of_def config_keys ENABLE_MANUAL_EVENTS_POLL_def)

lemma sample_validated: "producer_validate random sample_properties = Inr (reformed random sample_properties)"
proof -
  have keys: "PARTITIONER \<noteq> CLIENT_ID" "PARTITIONER \<noteq> LOG_LEVEL" "PARTITIONER \<noteq> BOOTSTRAP_SERVERS"
    "ENABLE_IDEMPOTENCE \<noteq> CLIENT_ID" "ENABLE_IDEMPOTENCE \<noteq> LOG_LEVEL" "ENABLE_IDEMPOTENCE \<noteq> BOOTSTRAP_SERVERS"
    by code_simp+
  show ?thesis
    by (simp add: producer_validate_def validate_eq getProperty_eq check_partitioner_def prop_string_reformed keys)
qed

end
