(* ===== verification/Console_Clients.thy ===== *)
theory Console_Clients
  imports Consumer_Programs Producer_Programs Command_Line
begin

text \<open>
  \<open>KafkaConsoleConsumer.cc\<close> and \<open>KafkaConsoleProducer.cc\<close> behind their command lines: what they do with
  their client, what they print, and how they end.
\<close>

section \<open>The console consumer\<close>

definition console_record :: "(int \<Rightarrow> string) \<Rightarrow> string \<Rightarrow> ConsumerRecord \<Rightarrow> tool_output list" where
  "console_record localSeconds now rec =
     [Out_line (''Current Local Time ['' @ now @ '']''),
      Out_line (''  Topic    : '' @ cr_topic rec),
      Out_line (''  Partition: '' @ show_int (cr_partition rec)),
      Out_line (''  Offset   : '' @ show_int (cr_offset rec)),
      Out_line (''  Timestamp: '' @ Timestamp_toString (timestamp_seconds localSeconds) (cr_timestamp rec)),
      Out_line (''  Headers  : '' @ Headers_toString (cr_headers rec)),
      Out_line (''  Key   ['' @ pad_left 4 CHR '' '' (show_nat (buffer_size (cr_key rec))) @ '' B]: '' @ buffer_toString (cr_key rec)),
      Out_line (''  Value ['' @ pad_left 4 CHR '' '' (show_nat (buffer_size (cr_value rec))) @ '' B]: '' @ buffer_toString (cr_value rec)),
      Out_line ''--------------------'']"

definition show_console_record ::
  "rdkafka_lib \<Rightarrow> ('w, 'x) machine_scheme \<Rightarrow> ConsumerRecord \<Rightarrow>
     (('w, 'm) consumer_scheme \<times> 'v screen_scheme, exn, unit) prog" where
  "show_console_record L M rec =
     (if \<not> error_set (cr_error rec) then
        seqM (on_client (lib_call (getCurrentTime (local_seconds M) (system_clock_now M)))) (\<lambda>now.
        on_vars (say (console_record (local_seconds M) now rec)))
      else on_vars (say [Err_line (cr_toString L (timestamp_seconds (local_seconds M)) rec)]))"

definition console_reading ::
  "('w, 'n) consumer_api_scheme \<Rightarrow> ('w, 'x) machine_scheme \<Rightarrow> nat \<Rightarrow> string \<Rightarrow>
     (('w, 'm) consumer_scheme \<times> 'v stoppable_scheme, exn, unit) prog" where
  \<comment> \<open>\<open>RunConsumer\<close> once there is a consumer\<close>
  "console_reading A M fuel topic =
     seqM (on_client (subscribe A fuel [topic] None DEFAULT_SUBSCRIBE_TIMEOUT_MS)) (\<lambda>_.
     seqM (on_vars (say [Out_line ''--------------------''])) (\<lambda>_.
     poll_loop A M (check_running M) (show_records (show_console_record (the_lib A) M)) () fuel))"

definition RunConsumer ::
  "('w, 'n) consumer_api_scheme \<Rightarrow> ('w, 'x) machine_scheme \<Rightarrow> nat \<Rightarrow> string \<Rightarrow> string \<Rightarrow> string \<Rightarrow> Properties \<Rightarrow>
     ('w, 'm) consumer_scheme \<times> 'v stoppable_scheme \<Rightarrow> unit outcome \<times> ('w, 'm) consumer_scheme \<times> 'v stoppable_scheme" where
  \<comment> \<open>the two strings are the random parts of the client id and the group id\<close>
  "RunConsumer A M fuel random random_group topic props =
     in_scope kafka_exception (on_client (construct_consumer A random random_group props))
       (console_reading A M fuel topic) (on_client (destroy_consumer A fuel))"

definition console_consumer ::
  "('w, 'n) consumer_api_scheme \<Rightarrow> ('w, 'x) machine_scheme \<Rightarrow> nat \<Rightarrow> string \<Rightarrow> string \<Rightarrow> string \<Rightarrow> string list \<Rightarrow> 'w \<Rightarrow>
     ending \<times> 'w consumer \<times> stoppable" where
  "console_consumer A M fuel random random_group cid argv w =
     console_consumer_main (RunConsumer A M fuel random random_group) cid argv (consumer_default w, stoppable_start)"

text \<open>What is printed for a record: its lines at some time, or one line on the error stream.\<close>

definition console_text :: "rdkafka_lib \<Rightarrow> (int \<Rightarrow> string) \<Rightarrow> ConsumerRecord \<Rightarrow> tool_output list \<Rightarrow> bool" where
  "console_text L localSeconds rec ls \<longleftrightarrow>
     (if error_set (cr_error rec) then ls = [Err_line (cr_toString L (timestamp_seconds localSeconds) rec)]
      else \<exists>now. ls = console_record localSeconds now rec)"

lemma prints_console_record:
  assumes "quiet_calls A M obs"
  shows "prints_record obs (console_text L (local_seconds M)) (show_console_record L M)"
proof -
  have "silent obs (getCurrentTime (local_seconds M) (system_clock_now M))"
    using assms by (intro silent_getCurrentTime) (simp add: quiet_calls_def)
  then show ?thesis
    by (auto simp: prints_record_def show_console_record_def console_text_def seqM_split steady_def silent_def)
qed

lemma no_fuel_console_record [no_fuel]: "never_out_of_fuel (show_console_record L M rec)"
  unfolding show_console_record_def by (intro no_fuel)

text \<open>On the machine of the witnesses printing changes nothing but the screen.\<close>

lemma reading_shows:
  "\<exists>ls. show_records (show_console_record L reading_machine) recs (s, v) = (Inr None, (s, v\<lparr>printed := printed v @ ls\<rparr>))"
proof -
  have one: "\<exists>ls. show_console_record L reading_machine rec (s, v) = (Inr (), (s, v\<lparr>printed := printed v @ ls\<rparr>))" for rec v
    by (auto simp: show_console_record_def seqM_split getCurrentTime_def reading_machine_def intro!: exI)
  have "\<exists>ls. for_records (show_console_record L reading_machine) recs (s, v) = (Inr (), (s, v\<lparr>printed := printed v @ ls\<rparr>))" for v
  proof (induction recs arbitrary: v)
    case (Cons rec recs)
    obtain ls where ls: "show_console_record L reading_machine rec (s, v) = (Inr (), (s, v\<lparr>printed := printed v @ ls\<rparr>))"
      using one by blast
    obtain ls' where "for_records (show_console_record L reading_machine) recs (s, v\<lparr>printed := printed v @ ls\<rparr>) =
        (Inr (), (s, v\<lparr>printed := (printed v @ ls) @ ls'\<rparr>))"
      using Cons.IH [of "v\<lparr>printed := printed v @ ls\<rparr>"] by auto
    then show ?case by (auto simp: seqM_split ls intro!: exI [of _ "ls @ ls'"])
  qed (auto intro!: exI [of _ "[]"])
  then obtain ls where "for_records (show_console_record L reading_machine) recs (s, v) = (Inr (), (s, v\<lparr>printed := printed v @ ls\<rparr>))"
    by blast
  then show ?thesis using show_records_run [of "show_console_record L reading_machine" recs "(s, v)"] by auto
qed

lemma reading_console_round:
  assumes "enableAutoCommit s" "maxPollRecords s \<le> MAX_VECTOR_SIZE" "waiting (world s) \<noteq> []" "still_running v"
  shows "\<exists>ls. poll_round reading_api reading_machine (check_running reading_machine)
      (show_records (show_console_record L reading_machine)) x (s, v) =
    (Inr None, (reading_polled s, v\<lparr>printed := printed v @ ls\<rparr>))"
  using reading_round(2) [OF assms(1,2,4,3)] reading_shows by metis

section \<open>Properties of the console consumer\<close>

text \<open>C26. Nothing is committed before it is printed, and nothing printed is forgotten: after any number of
  complete rounds of the console consumer's loop everything the library handed over has been printed, in
  order and once, and the commit of the round after that asks, for every partition, for exactly the
  position past the last record printed by then. The library's messages and commit requests are written
  down in order; topic names are C strings.\<close>

theorem console_prints_before_commit:
  assumes "observes A M taken asked"
    and "enableAutoCommit s" "offsetsToStore s = []" "taken (world s) = []" "asked (world s) = []"
    and "poll_loop A M (check_running M) (show_records (show_console_record L M)) () n (s, v) = (Inl Out_of_fuel, (s1, v1))"
    and "poll_loop A M (check_running M) (show_records (show_console_record L M)) () (Suc n) (s, v) = (Inl Out_of_fuel, (s2, v2))"
  shows "(\<exists>Ls. list_all2 (console_text L (local_seconds M)) (taken (world s1)) Ls \<and> printed v1 = printed v @ concat Ls) \<and>
    asked_position tp (asked (world s2)) = map_option (\<lambda>off. off + 1) (last_offset tp (taken (world s1)))"
proof -
  let ?obs = "\<lambda>w. (taken w, asked w)"
  have quiet: "quiet_calls A M ?obs" using assms(1) by (simp add: observes_def)
  note go = only_looks_check [OF quiet]
  note handle = prints_show_records [OF prints_console_record [OF quiet, of L]]
  have fuel: "never_out_of_fuel (check_running M)"
    "never_out_of_fuel (show_records (show_console_record L M) recs)" for recs
    by (intro no_fuel)+
  have s: "in_step taken asked s" using assms(2-5) by (simp add: fresh_in_step)
  show ?thesis
    using shown_rounds [OF assms(1) go handle fuel s assms(6)] assms(4)
      next_round_commits [OF assms(1) go handle fuel s assms(6,7)] by simp
qed

theorem console_prints_before_commit_witness:
  "\<exists>(s :: reading consumer) (v :: stoppable). enableAutoCommit s \<and> offsetsToStore s = [] \<and>
     asked_position (''t'', 0) (requested (world (fst (snd (poll_loop reading_api reading_machine (check_running reading_machine)
       (show_records (show_console_record rdkafka_h reading_machine)) () (Suc 1) (s, v)))))) = Some 8"
proof -
  let ?m = "\<lambda>off. sim_message off RD_KAFKA_RESP_ERR_NO_ERROR" and ?v = stoppable_start
  obtain s :: "reading consumer" where s: "enableAutoCommit s" "maxPollRecords s = 1" "offsetsToStore s = []"
    "waiting (world s) = [?m 7, ?m 8]" "handed_over (world s) = []" "requested (world s) = []"
    using that [of "(consumer_default (reading_start [?m 7, ?m 8]))\<lparr>maxPollRecords := 1\<rparr>"]
    by (simp add: consumer_default_def client_default_def client.defs reading_start_def)
  let ?h = "show_records (show_console_record rdkafka_h reading_machine)" and ?s1 = "reading_polled s"
  let ?round = "poll_round reading_api reading_machine (check_running reading_machine) ?h ()"
  let ?run = "\<lambda>n. poll_loop reading_api reading_machine (check_running reading_machine) ?h () n (s, ?v)"
  have max: "1 \<le> MAX_VECTOR_SIZE" by (simp add: MAX_VECTOR_SIZE_def)
  obtain ls where one: "?round (s, ?v) = (Inr None, (?s1, ?v\<lparr>printed := printed ?v @ ls\<rparr>))"
    using reading_console_round [of s ?v rdkafka_h "()"] s max by (auto simp: stoppable_start_def)
  let ?v1 = "?v\<lparr>printed := printed ?v @ ls\<rparr>"
  obtain ls' where two: "?round (?s1, ?v1) = (Inr None, (reading_polled ?s1, ?v1\<lparr>printed := printed ?v1 @ ls'\<rparr>))"
    using reading_console_round [of ?s1 ?v1 rdkafka_h "()"] s max by (auto simp: stoppable_start_def)
  have run1: "?run 1 = (Inl Out_of_fuel, (?s1, ?v1))"
    and run2: "?run (Suc 1) = (Inl Out_of_fuel, (reading_polled ?s1, ?v1\<lparr>printed := printed ?v1 @ ls'\<rparr>))"
    by (simp_all add: one two seqM_split)
  have "asked_position (''t'', 0) (requested (world (reading_polled ?s1))) = Some 8"
    using console_prints_before_commit [OF reading_observed _ _ _ _ run1 run2, of "(''t'', 0)"] s
    by (simp add: c_topics_def last_offset_def sim_message_def cr_topic_def cr_partition_def cr_offset_def no_nul_def)
  then have "asked_position (''t'', 0) (requested (world (fst (snd (?run (Suc 1)))))) = Some 8"
    unfolding run2 by (simp only: fst_conv snd_conv)
  with s(1,3) show ?thesis by blast
qed

text \<open>C27. A clean stop of the console consumer: when \<open>RunConsumer\<close> gets to its end, stopped by the signal, from
  a consumer that commits automatically, everything the library handed over has been printed after the
  first line, in order and once, and the destructor has moved the committed position of every partition
  just past its last record, provided the library takes the commits.\<close>

theorem console_consumer_clean_stop:
  assumes "observes A M taken asked" "accepts_commits A"
    and "takes_consumers A" "quiet_consumer_setup A (\<lambda>w. (taken w, asked w))"
    and "sound_consumer props" "auto_commit_of props" "taken w = []" "asked w = []"
    and "RunConsumer A M fuel r g topic props (consumer_default w, v) = (Finished (), (s', v'))"
  shows "(\<exists>Ls. list_all2 (console_text (the_lib A) (local_seconds M)) (taken (world s')) Ls \<and>
      printed v' = printed v @ Out_line ''--------------------'' # concat Ls) \<and>
    asked_position tp (asked (world s')) = map_option (\<lambda>off. off + 1) (last_offset tp (taken (world s')))"
proof -
  let ?obs = "\<lambda>w. (taken w, asked w)"
  let ?handle = "show_records (show_console_record (the_lib A) M)"
  have quiet: "quiet_calls A M ?obs" using assms(1) by (simp add: observes_def)
  obtain s where built: "construct_consumer A r g props (consumer_default w) = (Inr (), s)" "opened s"
    and s: "in_step taken asked s" and taken_s: "taken (world s) = []"
    using construct_consumer_state [OF assms(5,3,4), of r g w] assms(6-8)
    by (auto simp: fresh_consumer_def intro!: fresh_in_step)
  obtain s2 v2 where block: "console_reading A M fuel topic (s, v) = (Inr (), (s2, v2))"
    and left: "(s', v') = snd (on_client (destroy_consumer A fuel) (s2, v2))"
    using built(1) assms(9) unfolding RunConsumer_def
    by (auto elim!: in_scope_cases simp: unhandled_def split: sum.splits)
  obtain s1 where sub: "subscribe A fuel [topic] None DEFAULT_SUBSCRIBE_TIMEOUT_MS s = (Inr (), s1)"
    and loop: "poll_loop A M (check_running M) ?handle () fuel
      (s1, v\<lparr>printed := printed v @ [Out_line ''--------------------'']\<rparr>) = (Inr (), (s2, v2))"
    using block unfolding console_reading_def
    by (cases "subscribe A fuel [topic] None DEFAULT_SUBSCRIBE_TIMEOUT_MS s") (auto simp: seqM_split split: sum.splits)
  have s1: "steady ?obs s s1" by (rule steadyD [OF steady_subscribe [OF quiet] sub])
  have "in_step taken asked s1" by (rule in_step_steady [OF s1 s])
  from shown_to_the_end [OF assms(1) only_looks_check [OF quiet]
      prints_show_records [OF prints_console_record [OF quiet, of "the_lib A"]] never_breaks_show this loop]
  obtain Ls where two: "in_step taken asked s2" "opened s2" "list_all2 (console_text (the_lib A) (local_seconds M)) (taken (world s2)) Ls"
    "printed v2 = printed v @ Out_line ''--------------------'' # concat Ls"
    using s1 built(2) taken_s by (auto simp: steady_def)
  have "taken (world s') = taken (world s2)" "v' = v2"
    "asked_position tp (asked (world s')) = map_option (\<lambda>off. off + 1) (last_offset tp (taken (world s2)))"
    using destroy_commits [OF assms(1) two(1,2) assms(2), of fuel] left by (simp_all del: split_paired_All)
  with two show ?thesis by auto
qed

theorem console_consumer_clean_stop_witness:
  "asked_position (''t'', 0) (requested (world (fst (snd (RunConsumer reading_api reading_machine 2 ''id'' ''group'' ''t'' sample_properties
      (consumer_default (reading_start [sim_message 7 RD_KAFKA_RESP_ERR_NO_ERROR]), stoppable_start)))))) = Some 8"
proof -
  let ?w = "reading_start [sim_message 7 RD_KAFKA_RESP_ERR_NO_ERROR]" and ?v = stoppable_start
  let ?taken = "\<lambda>w. c_topics (handed_over w)"
  let ?handle = "show_records (show_console_record (the_lib reading_api) reading_machine)"
  let ?run = "RunConsumer reading_api reading_machine 2 ''id'' ''group'' ''t'' sample_properties (consumer_default ?w, ?v)"
  obtain s where built: "construct_consumer reading_api ''id'' ''group'' sample_properties (consumer_default ?w) = (Inr (), s)"
    and s: "fresh_consumer s" "enableAutoCommit s" "opened s" "maxPollRecords s = 500" "pendingEvent s = None" "world s = ?w"
    using construct_consumer_state [OF sample_sound reading_takes reading_quiet_setup, where obs = "\<lambda>w. w" and w = ?w
        and random = "''id''" and random_group = "''group''"] sample_values by auto
  obtain s1 where sub: "subscribe reading_api 2 [''t''] None DEFAULT_SUBSCRIBE_TIMEOUT_MS s = (Inr (), s1)"
    and s1: "enableAutoCommit s1" "opened s1" "maxPollRecords s1 = 500" "world s1 = ?w"
    using reading_subscribe [OF s(1,5), of 1 "[''t'']"] s by (auto simp: numeral_2_eq_2)
  let ?v1 = "?v\<lparr>printed := [Out_line ''--------------------'']\<rparr>"
  have wait: "waiting (world s1) = [sim_message 7 RD_KAFKA_RESP_ERR_NO_ERROR]" by (simp add: s1 reading_start_def)
  obtain ls where round: "poll_round reading_api reading_machine (check_running reading_machine) ?handle () (s1, ?v1) =
      (Inr None, (reading_polled s1, ?v\<lparr>printed := Out_line ''--------------------'' # ls\<rparr>))"
    using reading_console_round [of s1 ?v1 "the_lib reading_api" "()"] s1 wait
    by (auto simp: stoppable_start_def MAX_VECTOR_SIZE_def)
  let ?v2 = "?v\<lparr>printed := Out_line ''--------------------'' # ls\<rparr>"
  have blank: "printed ?v = []" by (simp add: stoppable_start_def)
  have stop: "poll_round reading_api reading_machine (check_running reading_machine) ?handle () (reading_polled s1, ?v2) =
      (Inr (Some ()), (reading_polled s1, receive_sigints 1 ?v2))"
    using wait s1 by (intro reading_stops) (simp_all add: stoppable_start_def)
  have block: "console_reading reading_api reading_machine 2 ''t'' (s, ?v) = (Inr (), (reading_polled s1, receive_sigints 1 ?v2))"
    by (simp add: console_reading_def seqM_split sub [unfolded numeral_2_eq_2] numeral_2_eq_2 blank round stop)
  obtain s2 where gone: "destroy_consumer reading_api 2 (reading_polled s1) = (Inr (), s2)"
    and same: "handed_over (world s2) = handed_over (world (reading_polled s1))"
    using reading_destroy [of "reading_polled s1" 1] s1 by (auto simp: numeral_2_eq_2)
  have fin: "?run = (Finished (), (s2, receive_sigints 1 ?v2))"
    by (simp add: RunConsumer_def in_scope_def built block gone)
  have "?taken (world s2) = [sim_message 7 RD_KAFKA_RESP_ERR_NO_ERROR]"
    using same s1 wait by (simp add: reading_start_def c_topics_def sim_message_def cr_topic_def no_nul_def)
  with console_consumer_clean_stop [OF reading_observed reading_accepts reading_takes reading_quiet_setup sample_sound _ _ _ fin, of "(''t'', 0)"]
  have "asked_position (''t'', 0) (requested (world s2)) = Some 8"
    by (simp add: sample_values reading_start_def c_topics_def last_offset_def sim_message_def cr_topic_def cr_partition_def cr_offset_def)
  then show ?thesis by (simp only: fin fst_conv snd_conv)
qed

section \<open>The console producer\<close>

definition console_line_record :: "rdkafka_lib \<Rightarrow> console_args \<Rightarrow> string \<Rightarrow> ProducerRecord" where
  "console_line_record L args l =
     (case console_partition args of
        Some p \<Rightarrow> ProducerRecord_make (console_topic args) p NullBuffer (Some l)
      | None \<Rightarrow> ProducerRecord_unassigned L (console_topic args) NullBuffer (Some l))"

definition just_sent :: "rdkafka_lib \<Rightarrow> (int \<Rightarrow> string) \<Rightarrow> RecordMetadata \<Rightarrow> std_exn + string" where
  "just_sent L localSeconds m =
     (case rm_offset L m of Inl e \<Rightarrow> Inl e | Inr offsetOption \<Rightarrow>
      case rm_keySize m of Inl e \<Rightarrow> Inl e | Inr ks \<Rightarrow>
      case rm_valueSize m of Inl e \<Rightarrow> Inl e | Inr vs \<Rightarrow>
      case rm_topic m of Inl e \<Rightarrow> Inl e | Inr t \<Rightarrow>
      case rm_partition m of Inl e \<Rightarrow> Inl e | Inr p \<Rightarrow>
      case rm_timestamp m of Inl e \<Rightarrow> Inl e | Inr ts \<Rightarrow>
      case rm_persistedStatus m of Inl e \<Rightarrow> Inl e | Inr pst \<Rightarrow>
        Inr (''Just Sent Key['' @ show_nat ks @ '' B]/Value['' @ show_nat vs @ '' B] ==> '' @ t @ ''-'' @ show_int p @ ''@'' @
          (case offsetOption of Some off \<Rightarrow> show_int off | None \<Rightarrow> ''NA'') @ '', '' @
          Timestamp_toString (timestamp_seconds localSeconds) ts @ '', '' @ getPersistedStatusString pst))"

definition prompt :: tool_output where
  "prompt = Out_text ''> ''"

definition console_send ::
  "('w, 'n) producer_api_scheme \<Rightarrow> ('w, 'x) machine_scheme \<Rightarrow> nat \<Rightarrow> console_args \<Rightarrow> string \<Rightarrow>
     (('w, 'm) producer_scheme \<times> 'v screen_scheme, exn, bool) prog" where
  \<comment> \<open>the body of the loop\<close>
  "console_send A M fuel args l =
     seqM (on_client (lib_call (getCurrentTime (local_seconds M) (system_clock_now M)))) (\<lambda>now.
     seqM (on_vars (say [Out_line (''Current Local Time ['' @ now @ '']'')])) (\<lambda>_.
     seqM (on_client (syncSend A fuel (console_line_record (the_lib A) args l))) (\<lambda>metadata.
     seqM (liftE (lift_std (just_sent (the_lib A) (local_seconds M) metadata))) (\<lambda>report.
     seqM (on_vars (say [Out_line report, Out_line ''--------------------'', prompt])) (\<lambda>_. ret True)))))"

definition console_sending ::
  "('w, 'n) producer_api_scheme \<Rightarrow> ('w, 'x) machine_scheme \<Rightarrow> nat \<Rightarrow> string \<Rightarrow> console_args \<Rightarrow> Properties \<Rightarrow>
     ('w producer \<times> 'v screen_scheme) \<times> reader \<Rightarrow> unit outcome \<times> ('w producer \<times> 'v screen_scheme) \<times> reader" where
  \<comment> \<open>\<open>main\<close> from the producer on\<close>
  "console_sending A M fuel random args props =
     writing_program A kafka_exception random props (say [prompt]) (console_send A M fuel args) (ret ()) fuel"

definition console_producer ::
  "('w, 'n) producer_api_scheme \<Rightarrow> ('w, 'x) machine_scheme \<Rightarrow> nat \<Rightarrow> string \<Rightarrow> string \<Rightarrow> string list \<Rightarrow> string \<Rightarrow> 'w \<Rightarrow>
     ending \<times> ('w producer \<times> screen) \<times> reader" where
  "console_producer A M fuel random cid argv content w =
     console_producer_main (console_sending A M fuel random) cid argv
       ((producer_default w, \<lparr>printed = []\<rparr>), reader_of content)"

lemma console_send_logged:
  fixes A :: "('w, 'n) producer_api_scheme" and M :: "('w, 'x) machine_scheme"
  assumes "logs_sends A M sent"
  shows "sends_each sent manual (\<lambda>l. [record_vus (console_line_record (the_lib A) args l)
      (message_flags A (\<not> manual) NoCopyRecordValue Block) (opaque_of (console_line_record (the_lib A) args l) Sync_callback)])
    (\<lambda>_. True) (console_send A M fuel args :: string \<Rightarrow> (('w, 'm) producer_scheme \<times> 'v screen_scheme, exn, bool) prog)"
  unfolding sends_each_def
proof (intro allI impI)
  fix l :: string and s :: "('w, 'm) producer_scheme" and v :: "'v screen_scheme"
  assume manual: "enableManualEventsPoll s = manual"
  let ?rec = "console_line_record (the_lib A) args l"
  have "silent sent (getCurrentTime (local_seconds M) (system_clock_now M))"
    using assms by (intro silent_getCurrentTime) (simp add: logs_sends_def quiet_producing_def)
  then have clock: "sent (snd (getCurrentTime (local_seconds M) (system_clock_now M) w)) = sent w" for w
    by (simp add: silent_def)
  let ?s1 = "s\<lparr>world := snd (getCurrentTime (local_seconds M) (system_clock_now M) (world s))\<rparr>"
  have auto: "isWithAutoEventsPolling ?s1 = (\<not> manual)" using manual by (simp add: isWithAutoEventsPolling_def)
  obtain r s2 where send: "syncSend A fuel ?rec ?s1 = (r, s2)" by fastforce
  have s2: "sent (world s2) = sent (world s) @ [record_vus ?rec (message_flags A (\<not> manual) NoCopyRecordValue Block) (opaque_of ?rec Sync_callback)]"
    "enableManualEventsPoll s2 = manual" "opened s2 = opened s"
    using syncSend_logged [OF assms, of fuel ?rec ?s1] send manual by (simp_all add: auto clock)
  have run: "fst (snd (console_send A M fuel args l (s, v))) = s2"
    "\<And>go_on. fst (console_send A M fuel args l (s, v)) = Inr go_on \<Longrightarrow> go_on"
    by (auto simp: console_send_def seqM_split send split: sum.splits)
  show "case console_send A M fuel args l (s, v) of (r, (s', v')) \<Rightarrow>
      sent (world s') = sent (world s) @ [record_vus ?rec (message_flags A (\<not> manual) NoCopyRecordValue Block) (opaque_of ?rec Sync_callback)] \<and>
      enableManualEventsPoll s' = manual \<and> opened s' = opened s \<and> (case r of Inl _ \<Rightarrow> True | Inr go_on \<Rightarrow> go_on = True)"
    using s2 run by (cases "console_send A M fuel args l (s, v)") (auto split: sum.split)
qed

text \<open>C28. The console producer hands the library one record per line of its input, in order, with the topic and
  the partition of the command line, no key and the line as its value, an empty line and an unfinished
  last line included, and nothing else; when it ends normally all lines have been handed over, and
  otherwise those up to the first that could not be sent. The library's records are written down in
  order; the configuration is one it takes.\<close>

theorem console_producer_sends_lines:
  assumes "logs_sends A M sent" "quiet_setup A sent" "takes_clients A"
    and "sound_client props" "producer_validate random props = Inr q"
    and "length (lines_of content) < fuel"
    and "console_sending A M fuel random args props ((producer_default w, v), reader_of content) = (x, ((s', v'), rd))"
  shows "\<exists>k\<le>length (lines_of content). sent (world s') = sent w @ map (\<lambda>l.
      record_vus (console_line_record (the_lib A) args l) (message_flags A (\<not> manual_of props) NoCopyRecordValue Block)
        \<lparr>opaque_recordId = None, opaque_deliveryCb = Sync_callback\<rparr>) (take k (lines_of content)) \<and>
    (x = Finished () \<longrightarrow> k = length (lines_of content))"
proof -
  have no_id: "pr_id (console_line_record (the_lib A) args l) = None" for l
    by (simp add: console_line_record_def ProducerRecord_make_def ProducerRecord_unassigned_def split: option.split)
  from writing_program_sends [OF assms(1-5) console_send_logged [OF assms(1)] _ assms(6) assms(7) [unfolded console_sending_def]]
  show ?thesis by (simp add: no_id)
qed

definition two_lines :: string where
  \<comment> \<open>two lines, no newline after the second\<close>
  "two_lines = ''hello'' @ [newline] @ ''world''"

lemma lines_of_two: "lines_of two_lines = [''hello'', ''world'']"
  by (simp add: two_lines_def newline_def lines_of.simps)

theorem console_producer_sends_lines_witness:
  "\<exists>k\<le>2. world (fst (fst (snd (console_sending writing_api writing_machine 9 ''id''
      \<lparr>console_brokerList = ''b'', console_topic = ''t'', console_partition = Some 3, console_props = []\<rparr> sample_properties
      ((producer_default [], \<lparr>printed = []\<rparr>), reader_of two_lines))))) =
    map (\<lambda>l. record_vus (ProducerRecord_make ''t'' 3 NullBuffer (Some l)) (message_flags writing_api True NoCopyRecordValue Block)
        \<lparr>opaque_recordId = None, opaque_deliveryCb = Sync_callback\<rparr>) (take k [''hello'', ''world''])"
proof -
  let ?args = "\<lparr>console_brokerList = ''b'', console_topic = ''t'', console_partition = Some 3, console_props = []\<rparr>"
  let ?run = "console_sending writing_api writing_machine 9 ''id'' ?args sample_properties
      ((producer_default [], \<lparr>printed = []\<rparr> :: screen), reader_of two_lines)"
  have "?run = (fst ?run, ((fst (fst (snd ?run)), snd (fst (snd ?run))), snd (snd ?run)))" by simp
  from console_producer_sends_lines [OF writing_logs writing_takes(2) writing_takes(1) sample_sound_client sample_validated _ this]
  show ?thesis by (auto simp: lines_of_two sample_not_manual console_line_record_def numeral_2_eq_2)
qed

end
