(* ===== verification/Example_Consumers.thy ===== *)
theory Example_Consumers
  imports Consumer_Programs
begin

text \<open>
  The programs under \<open>src/examples\<close> that read, whole: their configuration, their loop over the polls, what
  they print and how they end. The random parts of the client id and the group id are arguments. What a
  user's callback prints is a function of the event that records its call.
\<close>

section \<open>A program around a consumer\<close>

definition reading_block ::
  "('w, 'n) consumer_api_scheme \<Rightarrow> (exn \<Rightarrow> bool) \<Rightarrow> string \<Rightarrow> string \<Rightarrow> exn + Properties \<Rightarrow>
     (('w, 'm) consumer_scheme \<times> 'v, exn, unit) prog \<Rightarrow> nat \<Rightarrow>
     ('w, 'm) consumer_scheme \<times> 'v \<Rightarrow> unit outcome \<times> ('w, 'm) consumer_scheme \<times> 'v" where
  \<comment> \<open>the properties, the consumer, what is done with it, its destructor\<close>
  "reading_block A handled random random_group config block fuel sv =
     (case config of
        Inl e \<Rightarrow> (unhandled handled e, sv)
      | Inr props \<Rightarrow> in_scope handled (on_client (construct_consumer A random random_group props)) block
          (on_client (destroy_consumer A fuel)) sv)"

definition subscribed ::
  "('w, 'n) consumer_api_scheme \<Rightarrow> nat \<Rightarrow> string \<Rightarrow> callback \<Rightarrow> (('w, 'm) consumer_scheme \<times> 'v, exn, unit) prog" where
  "subscribed A fuel topic cb = on_client (subscribe A fuel [topic] cb DEFAULT_SUBSCRIBE_TIMEOUT_MS)"

definition message_lines :: "string \<Rightarrow> (int \<Rightarrow> string) \<Rightarrow> ConsumerRecord \<Rightarrow> tool_output list" where
  "message_lines heading localSeconds rec =
     Out_line heading # record_fields localSeconds rec @
     [Out_line (''    Key   ['' @ buffer_toString (cr_key rec) @ '']''),
      Out_line (''    Value ['' @ buffer_toString (cr_value rec) @ '']'')]"

definition show_message ::
  "rdkafka_lib \<Rightarrow> ('w, 'x) machine_scheme \<Rightarrow> string \<Rightarrow> ConsumerRecord \<Rightarrow>
     (('w, 'm) consumer_scheme \<times> 'v screen_scheme, exn, unit) prog" where
  "show_message L M heading rec =
     on_vars (say (if \<not> error_set (cr_error rec) then message_lines heading (local_seconds M) rec
       else [Err_line (cr_toString L (timestamp_seconds (local_seconds M)) rec)]))"

definition show_whole ::
  "(string \<Rightarrow> tool_output) \<Rightarrow> rdkafka_lib \<Rightarrow> ('w, 'x) machine_scheme \<Rightarrow> ConsumerRecord \<Rightarrow>
     (('w, 'm) consumer_scheme \<times> 'v screen_scheme, exn, unit) prog" where
  "show_whole out L M rec = on_vars (say [out (cr_toString L (timestamp_seconds (local_seconds M)) rec)])"

section \<open>example_KafkaConsumer_Simple.cc\<close>

definition simple_reading ::
  "('w, 'n) consumer_api_scheme \<Rightarrow> ('w, 'x) machine_scheme \<Rightarrow> nat \<Rightarrow> string \<Rightarrow>
     (('w, 'm) consumer_scheme \<times> 'v stoppable_scheme, exn, unit) prog" where
  "simple_reading A M fuel topic =
     seqM (subscribed A fuel topic None) (\<lambda>_.
     seqM (poll_loop A M (check_running M) (show_records (show_message (the_lib A) M ''Got a new message...'')) () fuel) (\<lambda>_.
     on_client (close_consumer A fuel)))"

definition example_KafkaConsumer_Simple ::
  "('w, 'n) consumer_api_scheme \<Rightarrow> ('w, 'x) machine_scheme \<Rightarrow> nat \<Rightarrow> string \<Rightarrow> string \<Rightarrow> (string \<Rightarrow> string option) \<Rightarrow>
     ('w, 'm) consumer_scheme \<times> 'v stoppable_scheme \<Rightarrow> ending \<times> ('w, 'm) consumer_scheme \<times> 'v stoppable_scheme" where
  "example_KafkaConsumer_Simple A M fuel random random_group getenv =
     with_environment getenv (\<lambda>servers topic.
       reading_block A (\<lambda>_. False) random random_group (string_properties [(''bootstrap.servers'', servers)])
         (simple_reading A M fuel topic) fuel)"

section \<open>example_KafkaClient_Callbacks.cc\<close>

definition escape :: "string \<Rightarrow> string" where
  "escape code = CHR 0x1B # ''['' @ code @ ''m''"

definition callbacks_text :: "rdkafka_lib \<Rightarrow> string \<Rightarrow> client_event \<Rightarrow> tool_output list" where
  \<comment> \<open>\<open>now\<close> is the current time of the call\<close>
  "callbacks_text L now ev = (case ev of
       ErrorEvent h e \<Rightarrow> [Err_line (escape ''1;31'' @ ''['' @ now @ ''] ==> Met Error: '' @ escape ''0'' @
         escape ''4;35'' @ error_toString L e @ escape ''0'')]
     | LogEvent h level filename lineno msg \<Rightarrow> [Out_line (''['' @ now @ '']'' @ msg)]
     | StatsEvent h jsonString \<Rightarrow> [Out_line (''Statistics: '' @ jsonString)]
     | _ \<Rightarrow> [])"

definition callbacks_config :: "string \<Rightarrow> exn + Properties" where
  \<comment> \<open>the three callbacks are the handles 1 to 3\<close>
  "callbacks_config servers =
     (case string_properties [(''bootstrap.servers'', servers)] of Inl e \<Rightarrow> Inl e | Inr props \<Rightarrow>
     (case seqM (props_put ''error_cb'' (ErrorCallbackObj (Some 1))) (\<lambda>_.
           seqM (props_put ''log_level'' (StringObj ''7'')) (\<lambda>_.
           seqM (props_put ''debug'' (StringObj ''all'')) (\<lambda>_.
           seqM (props_put ''log_cb'' (LogCallbackObj (Some 2))) (\<lambda>_.
           seqM (props_put ''statistics.interval.ms'' (StringObj ''1000'')) (\<lambda>_.
           props_put ''stats_cb'' (StatsCallbackObj (Some 3))))))) props of
        (Inl e, _) \<Rightarrow> Inl e | (Inr _, props') \<Rightarrow> Inr props'))"

definition callbacks_reading ::
  "('w, 'n) consumer_api_scheme \<Rightarrow> ('w, 'x) machine_scheme \<Rightarrow> nat \<Rightarrow> string \<Rightarrow>
     (('w, 'm) consumer_scheme \<times> 'v stoppable_scheme, exn, unit) prog" where
  "callbacks_reading A M fuel topic =
     seqM (subscribed A fuel topic None) (\<lambda>_.
     poll_loop A M (check_running M) (show_records (show_whole Err_line (the_lib A) M)) () fuel)"

definition example_KafkaClient_Callbacks ::
  "('w, 'n) consumer_api_scheme \<Rightarrow> ('w, 'x) machine_scheme \<Rightarrow> nat \<Rightarrow> string \<Rightarrow> string \<Rightarrow> (string \<Rightarrow> string option) \<Rightarrow>
     ('w, 'm) consumer_scheme \<times> 'v stoppable_scheme \<Rightarrow> ending \<times> ('w, 'm) consumer_scheme \<times> 'v stoppable_scheme" where
  "example_KafkaClient_Callbacks A M fuel random random_group getenv =
     with_environment getenv (\<lambda>servers topic.
       reading_block A (\<lambda>_. False) random random_group (callbacks_config servers) (callbacks_reading A M fuel topic) fuel)"

section \<open>example_KafkaConsumer_ManualOffsetCommit.cc\<close>

definition manual_offset_config :: "string \<Rightarrow> exn + Properties" where
  "manual_offset_config servers =
     (case string_properties [(''bootstrap.servers'', servers)] of Inl e \<Rightarrow> Inl e | Inr props \<Rightarrow>
     (case props_put ''enable.auto.commit'' (StringObj ''false'') props of
        (Inl e, _) \<Rightarrow> Inl e | (Inr _, props') \<Rightarrow> Inr props'))"

definition show_and_commit ::
  "('w, 'n) consumer_api_scheme \<Rightarrow> ('w, 'x) machine_scheme \<Rightarrow> ConsumerRecord list \<Rightarrow>
     (('w, 'm) consumer_scheme \<times> 'v screen_scheme, exn, unit option) prog" where
  "show_and_commit A M recs =
     seqM (for_records (show_whole Out_line (the_lib A) M) recs) (\<lambda>_.
     if recs \<noteq> [] then seqM (on_client (commitAsync A None)) (\<lambda>_. ret None) else ret None)"

definition manual_offset_reading ::
  "('w, 'n) consumer_api_scheme \<Rightarrow> ('w, 'x) machine_scheme \<Rightarrow> nat \<Rightarrow> string \<Rightarrow>
     (('w, 'm) consumer_scheme \<times> 'v stoppable_scheme, exn, unit) prog" where
  "manual_offset_reading A M fuel topic =
     seqM (subscribed A fuel topic None) (\<lambda>_.
     seqM (poll_loop A M (check_running M) (show_and_commit A M) () fuel) (\<lambda>_.
     on_client (commitSync A)))"

definition example_KafkaConsumer_ManualOffsetCommit ::
  "('w, 'n) consumer_api_scheme \<Rightarrow> ('w, 'x) machine_scheme \<Rightarrow> nat \<Rightarrow> string \<Rightarrow> string \<Rightarrow> (string \<Rightarrow> string option) \<Rightarrow>
     ('w, 'm) consumer_scheme \<times> 'v stoppable_scheme \<Rightarrow> ending \<times> ('w, 'm) consumer_scheme \<times> 'v stoppable_scheme" where
  "example_KafkaConsumer_ManualOffsetCommit A M fuel random random_group getenv =
     with_environment getenv (\<lambda>servers topic.
       reading_block A (\<lambda>_. False) random random_group (manual_offset_config servers)
         (manual_offset_reading A M fuel topic) fuel)"

section \<open>kafka_auto_commit_consumer.cc\<close>

definition empty_message :: "ConsumerRecord \<Rightarrow> bool" where
  "empty_message rec \<longleftrightarrow> buffer_size (cr_value rec) = 0"

fun show_until_empty ::
  "(ConsumerRecord \<Rightarrow> ('s, exn, unit) prog) \<Rightarrow> ConsumerRecord list \<Rightarrow> ('s, exn, unit option) prog" where
  \<comment> \<open>\<open>Some ()\<close> is the \<open>return 0\<close>\<close>
  "show_until_empty show_one [] = ret None"
| "show_until_empty show_one (rec # recs) =
     (if empty_message rec then ret (Some ())
      else seqM (show_one rec) (\<lambda>_. show_until_empty show_one recs))"

definition auto_commit_reading ::
  "('w, 'n) consumer_api_scheme \<Rightarrow> ('w, 'x) machine_scheme \<Rightarrow> nat \<Rightarrow> string \<Rightarrow>
     (('w, 'm) consumer_scheme \<times> 'v screen_scheme, exn, unit) prog" where
  "auto_commit_reading A M fuel topic =
     seqM (subscribed A fuel topic None) (\<lambda>_.
     seqM (on_vars (say [Out_line (''% Reading messages from topic: '' @ topic)])) (\<lambda>_.
     poll_loop A M (ret True) (show_until_empty (show_message (the_lib A) M ''% Got a new message...'')) () fuel))"

definition auto_commit_main ::
  "('w, 'n) consumer_api_scheme \<Rightarrow> ('w, 'x) machine_scheme \<Rightarrow> nat \<Rightarrow> string \<Rightarrow> string \<Rightarrow> string \<Rightarrow> string \<Rightarrow>
     ('w, 'm) consumer_scheme \<times> 'v screen_scheme \<Rightarrow> unit outcome \<times> ('w, 'm) consumer_scheme \<times> 'v screen_scheme" where
  \<comment> \<open>the block of \<open>try\<close>\<close>
  "auto_commit_main A M fuel random random_group servers topic =
     reading_block A kafka_exception random random_group (string_properties [(''bootstrap.servers'', servers)])
       (auto_commit_reading A M fuel topic) fuel"

definition kafka_auto_commit_consumer ::
  "('w, 'n) consumer_api_scheme \<Rightarrow> ('w, 'x) machine_scheme \<Rightarrow> nat \<Rightarrow> string \<Rightarrow> string \<Rightarrow> string list \<Rightarrow>
     ('w, 'm) consumer_scheme \<times> 'v screen_scheme \<Rightarrow> ending \<times> ('w, 'm) consumer_scheme \<times> 'v screen_scheme" where
  "kafka_auto_commit_consumer A M fuel random random_group argv =
     with_arguments tell_screen argv (auto_commit_main A M fuel random random_group)"

section \<open>kafka_manual_commit_consumer.cc\<close>

record manual_vars = screen +
  allCommitted :: bool
  lastTimeCommitted :: int
  running :: bool

definition manual_start :: manual_vars where
  \<comment> \<open>the time is set before it is read\<close>
  "manual_start = \<lparr>printed = [], allCommitted = True, lastTimeCommitted = 0, running = True\<rparr>"

fun show_until_quit ::
  "rdkafka_lib \<Rightarrow> ('w, 'x) machine_scheme \<Rightarrow> ConsumerRecord list \<Rightarrow>
     (('w, 'm) consumer_scheme \<times> 'v manual_vars_scheme, exn, unit) prog" where
  "show_until_quit L M [] = ret ()"
| "show_until_quit L M (rec # recs) =
     (if empty_message rec then on_vars (modM (\<lambda>v. v\<lparr>running := False\<rparr>))
      else seqM (show_message L M ''% Got a new message...'' rec) (\<lambda>_.
           seqM (if \<not> error_set (cr_error rec) then on_vars (modM (\<lambda>v. v\<lparr>allCommitted := False\<rparr>)) else ret ()) (\<lambda>_.
           show_until_quit L M recs)))"

definition commit_after_a_second ::
  "('w, 'n) consumer_api_scheme \<Rightarrow> ('w, 'x) machine_scheme \<Rightarrow> (('w, 'm) consumer_scheme \<times> 'v manual_vars_scheme, exn, unit) prog" where
  \<comment> \<open>the clock counts nanoseconds\<close>
  "commit_after_a_second A M =
     seqM (on_vars (getM allCommitted)) (\<lambda>all.
     if all then ret ()
     else seqM (on_client (lib_call (steady_now A))) (\<lambda>now.
          seqM (on_vars (getM lastTimeCommitted)) (\<lambda>last.
          if now - last > 1000000000 then
            seqM (on_client (lib_call (getCurrentTime (local_seconds M) (system_clock_now M)))) (\<lambda>time.
            seqM (on_vars (say [Out_line (''% syncCommit offsets: '' @ time)])) (\<lambda>_.
            seqM (on_client (commitSync A)) (\<lambda>_.
            on_vars (modM (\<lambda>v. v\<lparr>lastTimeCommitted := now, allCommitted := True\<rparr>)))))
          else ret ())))"

definition manual_commit_batch ::
  "('w, 'n) consumer_api_scheme \<Rightarrow> ('w, 'x) machine_scheme \<Rightarrow> ConsumerRecord list \<Rightarrow>
     (('w, 'm) consumer_scheme \<times> 'v manual_vars_scheme, exn, unit option) prog" where
  "manual_commit_batch A M recs =
     seqM (show_until_quit (the_lib A) M recs) (\<lambda>_. seqM (commit_after_a_second A M) (\<lambda>_. ret None))"

definition manual_commit_reading ::
  "('w, 'n) consumer_api_scheme \<Rightarrow> ('w, 'x) machine_scheme \<Rightarrow> nat \<Rightarrow> string \<Rightarrow>
     (('w, 'm) consumer_scheme \<times> 'v manual_vars_scheme, exn, unit) prog" where
  "manual_commit_reading A M fuel topic =
     seqM (subscribed A fuel topic None) (\<lambda>_.
     seqM (on_client (lib_call (steady_now A))) (\<lambda>now.
     seqM (on_vars (modM (\<lambda>v. v\<lparr>lastTimeCommitted := now\<rparr>))) (\<lambda>_.
     seqM (on_vars (say [Out_line (''% Reading messages from topic: '' @ topic)])) (\<lambda>_.
     seqM (on_vars (modM (\<lambda>v. v\<lparr>allCommitted := True, running := True\<rparr>))) (\<lambda>_.
     poll_loop A M (on_vars (getM running)) (manual_commit_batch A M) () fuel)))))"

definition manual_commit_main ::
  "('w, 'n) consumer_api_scheme \<Rightarrow> ('w, 'x) machine_scheme \<Rightarrow> nat \<Rightarrow> string \<Rightarrow> string \<Rightarrow> string \<Rightarrow> string \<Rightarrow>
     ('w, 'm) consumer_scheme \<times> 'v manual_vars_scheme \<Rightarrow> unit outcome \<times> ('w, 'm) consumer_scheme \<times> 'v manual_vars_scheme" where
  "manual_commit_main A M fuel random random_group servers topic =
     reading_block A kafka_exception random random_group
       (string_properties [(''bootstrap.servers'', servers), (''enable.auto.commit'', ''false'')])
       (manual_commit_reading A M fuel topic) fuel"

definition kafka_manual_commit_consumer ::
  "('w, 'n) consumer_api_scheme \<Rightarrow> ('w, 'x) machine_scheme \<Rightarrow> nat \<Rightarrow> string \<Rightarrow> string \<Rightarrow> string list \<Rightarrow>
     ('w, 'm) consumer_scheme \<times> 'v manual_vars_scheme \<Rightarrow> ending \<times> ('w, 'm) consumer_scheme \<times> 'v manual_vars_scheme" where
  "kafka_manual_commit_consumer A M fuel random random_group argv =
     with_arguments tell_screen argv (manual_commit_main A M fuel random random_group)"

section \<open>example_KafkaConsumer_RebalanceEvents.cc\<close>

text \<open>
  The callback adds the sizes of the sets it is called with to a counter or takes them off, and prints
  them; both are functions of the calls so far. The counter is a \<open>size_t\<close>.
\<close>

record rebalance_vars = screen +
  finishedPartitions :: TopicPartitions

definition rebalance_start :: rebalance_vars where
  "rebalance_start = \<lparr>printed = [], finishedPartitions = []\<rparr>"

definition rebalanceCb_handle :: callback where
  "rebalanceCb_handle = Some 1"

fun count_event :: "64 word \<Rightarrow> client_event \<Rightarrow> 64 word" where
  "count_event n (RebalanceEvent h ty tps) =
     (if ty = PartitionsAssigned then n + of_nat (length tps) else n - of_nat (length tps))"
| "count_event n ev = n"

definition assignedPartitions :: "client_event list \<Rightarrow> 64 word" where
  "assignedPartitions evs = foldl count_event 0 evs"

fun rebalance_text :: "client_event \<Rightarrow> tool_output list" where
  "rebalance_text (RebalanceEvent h ty tps) =
     (if ty = PartitionsAssigned then [Out_line (''Assigned partitions: '' @ TopicPartitions_toString tps)]
      else [Out_line (''Revoked partitions: '' @ TopicPartitions_toString tps)])"
| "rebalance_text ev = []"

definition note_record ::
  "rdkafka_lib \<Rightarrow> ('w, 'x) machine_scheme \<Rightarrow> ConsumerRecord \<Rightarrow>
     (('w, 'm) consumer_scheme \<times> 'v rebalance_vars_scheme, exn, unit) prog" where
  "note_record L M rec =
     (if \<not> error_set (cr_error rec) then show_whole Err_line L M rec
      else if error_value (cr_error rec) = RD_KAFKA_RESP_ERR__PARTITION_EOF then
        on_vars (modM (\<lambda>v. v\<lparr>finishedPartitions := oset_insert (cr_topic rec, cr_partition rec) (finishedPartitions v)\<rparr>))
      else show_whole Err_line L M rec)"

definition partitions_left :: "(('w, 'm) consumer_scheme \<times> 'v rebalance_vars_scheme, exn, bool) prog" where
  "partitions_left =
     seqM (on_vars (getM (\<lambda>v. length (finishedPartitions v)))) (\<lambda>n.
     seqM (on_client (getM (\<lambda>s. assignedPartitions (events s)))) (\<lambda>c. ret (of_nat n \<noteq> c)))"

definition rebalance_reading ::
  "('w, 'n) consumer_api_scheme \<Rightarrow> ('w, 'x) machine_scheme \<Rightarrow> nat \<Rightarrow> string \<Rightarrow>
     (('w, 'm) consumer_scheme \<times> 'v rebalance_vars_scheme, exn, unit) prog" where
  "rebalance_reading A M fuel topic =
     seqM (subscribed A fuel topic rebalanceCb_handle) (\<lambda>_.
     seqM (on_vars (modM (\<lambda>v. v\<lparr>finishedPartitions := []\<rparr>))) (\<lambda>_.
     poll_loop A M partitions_left (show_records (note_record (the_lib A) M)) () fuel))"

definition example_KafkaConsumer_RebalanceEvents ::
  "('w, 'n) consumer_api_scheme \<Rightarrow> ('w, 'x) machine_scheme \<Rightarrow> nat \<Rightarrow> string \<Rightarrow> string \<Rightarrow> (string \<Rightarrow> string option) \<Rightarrow>
     ('w, 'm) consumer_scheme \<times> 'v rebalance_vars_scheme \<Rightarrow> ending \<times> ('w, 'm) consumer_scheme \<times> 'v rebalance_vars_scheme" where
  "example_KafkaConsumer_RebalanceEvents A M fuel random random_group getenv =
     with_environment getenv (\<lambda>servers topic.
       reading_block A (\<lambda>_. False) random random_group
         (string_properties [(''bootstrap.servers'', servers), (''enable.partition.eof'', ''true''),
            (''auto.offset.reset'', ''earliest'')])
         (rebalance_reading A M fuel topic) fuel)"

end
