(* ===== verification/Example_Consumers_Correct.thy ===== *)
theory Example_Consumers_Correct
  imports Example_Consumers
begin

text \<open>
  What the example programs that read print and commit, compared with what the library handed over.
\<close>

section \<open>Configurations\<close>

text \<open>The configurations the programs make up: whatever the brokers are called, the constructor takes them.\<close>

lemma reading_configs:
  "\<exists>p. string_properties [(''bootstrap.servers'', servers)] = Inr p \<and> sound_consumer p \<and> auto_commit_of p \<and> poll_records_of p = 500"
  "\<exists>p. string_properties [(''bootstrap.servers'', servers), (''enable.auto.commit'', ''false'')] = Inr p \<and> sound_consumer p \<and>
     \<not> auto_commit_of p \<and> poll_records_of p = 500"
proof -
  obtain p where "string_properties [(''bootstrap.servers'', servers)] = Inr p" "props_ok p"
    "\<And>k. prop_string k p = map_of [(''bootstrap.servers'', servers)] k"
    using string_properties_are [of "[(''bootstrap.servers'', servers)]"] by (auto simp: nonStringValueKeys_def config_keys)
  then show "\<exists>p. string_properties [(''bootstrap.servers'', servers)] = Inr p \<and> sound_consumer p \<and> auto_commit_of p \<and> poll_records_of p = 500"
    by (auto simp: sound_consumer_def sound_client_def auto_commit_of_def poll_records_of_def config_keys)
  let ?kvs = "[(''bootstrap.servers'', servers), (''enable.auto.commit'', ''false'')]"
  obtain q where "string_properties ?kvs = Inr q" "props_ok q" "\<And>k. prop_string k q = map_of (rev ?kvs) k"
    using string_properties_are [of ?kvs] by (auto simp: nonStringValueKeys_def config_keys)
  moreover have "is_false_string ''false''" "\<not> is_true_string ''false''" by code_simp+
  ultimately show "\<exists>p. string_properties ?kvs = Inr p \<and> sound_consumer p \<and> \<not> auto_commit_of p \<and> poll_records_of p = 500"
    by (auto simp: sound_consumer_def sound_client_def auto_commit_of_def poll_records_of_def config_keys)
qed

text \<open>A program that came to its end: the consumer it had, what its block did, and its destructor.\<close>

lemma reading_block_finished:
  assumes "takes_consumers A" "quiet_consumer_setup A obs" "sound_consumer p"
    and "reading_block A handled r g (Inr p) block fuel (consumer_default w, v) = (Finished (), (s', v'))"
  obtains s s2 where "opened s" "enableAutoCommit s = auto_commit_of p" "offsetsToStore s = []" "obs (world s) = obs w"
    "block (s, v) = (Inr (), (s2, v'))" "snd (destroy_consumer A fuel s2) = s'"
proof -
  obtain s where "construct_consumer A r g p (consumer_default w) = (Inr (), s)" and s: "opened s" "fresh_consumer s"
    "enableAutoCommit s = auto_commit_of p" "obs (world s) = obs w"
    using construct_consumer_state [OF assms(3,1,2), of r g w] by blast
  moreover from this obtain s2 v2 where "block (s, v) = (Inr (), (s2, v2))"
    "(s', v') = snd (on_client (destroy_consumer A fuel) (s2, v2))"
    using assms(4) unfolding reading_block_def
    by (auto elim!: in_scope_cases simp: unhandled_def split: sum.splits)
  ultimately show thesis using that [of s s2] by (auto simp: fresh_consumer_def)
qed

lemma subscribed_run:
  assumes "quiet_calls A M obs" "seqM (subscribed A fuel topic cb) k (s, v) = (Inr x, sv)"
  obtains s1 where "steady obs s s1" "k () (s1, v) = (Inr x, sv)"
proof -
  obtain s1 where sub: "subscribe A fuel [topic] cb DEFAULT_SUBSCRIBE_TIMEOUT_MS s = (Inr (), s1)"
    and "k () (s1, v) = (Inr x, sv)"
    using assms(2) unfolding subscribed_def
    by (cases "subscribe A fuel [topic] cb DEFAULT_SUBSCRIBE_TIMEOUT_MS s") (auto simp: seqM_split split: sum.splits)
  with that steadyD [OF steady_subscribe [OF assms(1)] sub] show thesis by blast
qed

section \<open>The automatic commits of kafka_auto_commit_consumer\<close>

definition message_text :: "rdkafka_lib \<Rightarrow> (int \<Rightarrow> string) \<Rightarrow> string \<Rightarrow> ConsumerRecord \<Rightarrow> tool_output list" where
  "message_text L localSeconds heading rec =
     (if error_set (cr_error rec) then [Err_line (cr_toString L (timestamp_seconds localSeconds) rec)]
      else message_lines heading localSeconds rec)"

lemma show_message_run:
  "show_message L M heading rec (s, v) =
     (Inr (), (s, v\<lparr>printed := printed v @ message_text L (local_seconds M) heading rec\<rparr>))"
  by (simp add: show_message_def message_text_def)

lemma show_until_empty_run:
  "show_until_empty (show_message L M heading) recs (s, v) =
     (Inr (if \<exists>m\<in>set recs. empty_message m then Some () else None),
      (s, v\<lparr>printed := printed v @
        concat (map (message_text L (local_seconds M) heading) (takeWhile (\<lambda>m. \<not> empty_message m) recs))\<rparr>))"
  by (induction recs arbitrary: v) (simp_all add: seqM_split show_message_run)

lemma no_fuel_until_empty: "never_out_of_fuel (show_until_empty (show_message L M heading) recs)"
  by (auto simp: never_out_of_fuel_def show_until_empty_run)

lemma prints_until_empty:
  fixes M :: "('w, 'x) machine_scheme" and obs :: "'w \<Rightarrow> 'o"
  shows "prints_batch obs (\<lambda>m ls. ls = message_text L (local_seconds M) heading m \<and> \<not> empty_message m)
     (show_until_empty (show_message L M heading) ::
       ConsumerRecord list \<Rightarrow> (('w, 'm) consumer_scheme \<times> 'v screen_scheme, exn, unit option) prog)"
  unfolding prints_batch_def
proof (intro allI impI)
  fix recs and sv :: "('w, 'm) consumer_scheme \<times> 'v screen_scheme"
  assume "fst (show_until_empty (show_message L M heading) recs sv) = Inr None"
  then have none: "\<forall>m\<in>set recs. \<not> empty_message m" by (cases sv) (auto simp: show_until_empty_run split: if_splits)
  then have all: "takeWhile (\<lambda>m. \<not> empty_message m) recs = recs" by (simp add: takeWhile_eq_all_conv)
  from none show "steady obs (fst sv) (fst (snd (show_until_empty (show_message L M heading) recs sv))) \<and>
    (\<exists>Ls. list_all2 (\<lambda>m ls. ls = message_text L (local_seconds M) heading m \<and> \<not> empty_message m) recs Ls \<and>
      printed (snd (snd (show_until_empty (show_message L M heading) recs sv))) = printed (snd sv) @ concat Ls)"
    by (cases sv) (auto simp: show_until_empty_run all list_all2_conv_all_nth
        intro!: exI [of _ "map (message_text L (local_seconds M) heading) recs"])
qed

text \<open>C29. The example with automatic commits ends only by a message with an empty value. It has then printed the
  messages before the first such message, in order and once, but its destructor has committed, for every
  partition, everything the last poll handed over: the empty message and the messages of the same poll
  behind it, which were never shown, are not read again by the group.\<close>

theorem auto_commit_example_skips:
  assumes "observes A M taken asked" "accepts_commits A"
    and "takes_consumers A" "quiet_consumer_setup A (\<lambda>w. (taken w, asked w))" "taken w = []" "asked w = []"
    and "auto_commit_main A M fuel r g servers topic (consumer_default w, v) = (Finished (), (s', v'))"
  shows "(\<exists>m\<in>set (taken (world s')). empty_message m) \<and>
    printed v' = printed v @ Out_line (''% Reading messages from topic: '' @ topic) #
      concat (map (message_text (the_lib A) (local_seconds M) ''% Got a new message...'')
        (takeWhile (\<lambda>m. \<not> empty_message m) (taken (world s')))) \<and>
    asked_position tp (asked (world s')) = map_option (\<lambda>off. off + 1) (last_offset tp (taken (world s')))"
proof -
  let ?obs = "\<lambda>w. (taken w, asked w)" and ?text = "message_text (the_lib A) (local_seconds M) ''% Got a new message...''"
  let ?handle = "show_until_empty (show_message (the_lib A) M ''% Got a new message...'')"
  have quiet: "quiet_calls A M ?obs" using assms(1) by (simp add: observes_def)
  obtain p where p: "string_properties [(''bootstrap.servers'', servers)] = Inr p" "sound_consumer p" "auto_commit_of p"
    using reading_configs(1) by blast
  obtain s s2 where s: "opened s" "enableAutoCommit s" "offsetsToStore s = []" "?obs (world s) = ([], [])"
    and block: "auto_commit_reading A M fuel topic (s, v) = (Inr (), (s2, v'))" and gone: "snd (destroy_consumer A fuel s2) = s'"
    using reading_block_finished [OF assms(3,4) p(2) assms(7) [unfolded auto_commit_main_def p(1)]] p(3) assms(5,6) by metis
  obtain s1 where s1: "steady ?obs s s1"
    and loop: "poll_loop A M (ret True) ?handle () fuel
      (s1, v\<lparr>printed := printed v @ [Out_line (''% Reading messages from topic: '' @ topic)]\<rparr>) = (Inr (), (s2, v'))"
    by (rule subscribed_run [OF quiet block [unfolded auto_commit_reading_def]]) (simp add: seqM_split)
  have "in_step taken asked s" using s by (simp add: fresh_in_step)
  from in_step_steady [OF s1 this] obtain s3 v3 recs Ls where s3: "in_step taken asked s3" "opened s3 = opened s1"
    "taken (world s3) = taken (world s1) @ recs" "list_all2 (\<lambda>m ls. ls = ?text m \<and> \<not> empty_message m) recs Ls"
    "printed v3 = printed v @ Out_line (''% Reading messages from topic: '' @ topic) # concat Ls"
    and round: "poll_round A M (ret True) ?handle () (s3, v3) = (Inr (Some ()), (s2, v'))"
    using shown_then_left [OF assms(1) only_looks_ret prints_until_empty no_fuel_basic(1) no_fuel_until_empty _ loop] by auto
  obtain r4 s4 where four: "thread_runs M (consumer_pollCallbacks A) s3 = (r4, s4)" by fastforce
  have s4: "steady ?obs s3 s4" by (rule steadyD [OF steady_thread_runs [OF quiet] four])
  obtain last where poll: "poll A POLL_TIMEOUT s4 = (Inr last, s2)" and stop: "\<exists>m\<in>set last. empty_message m"
    and v': "printed v' = printed v3 @ concat (map ?text (takeWhile (\<lambda>m. \<not> empty_message m) last))"
    using round
    by (cases "poll A POLL_TIMEOUT s4")
      (auto simp: poll_round_def seqM_split four show_until_empty_run split: sum.splits if_splits)
  have two: "in_step taken asked s2" "opened s2 = opened s4" "taken (world s2) = taken (world s4) @ last"
    using poll_in_step [OF assms(1) in_step_steady [OF s4 s3(1)] poll] by simp_all
  have taken2: "taken (world s2) = recs @ last" using two(3) s4 s3(3) s1 s(4) by (simp add: steady_def)
  have "opened s2" using two(2) s4 s3(2) s1 s(1) by (simp add: steady_def)
  from destroy_commits [OF assms(1) two(1) this assms(2), of fuel]
  have done': "taken (world s') = recs @ last"
    "asked_position tp (asked (world s')) = map_option (\<lambda>off. off + 1) (last_offset tp (taken (world s')))"
    using gone taken2 by (simp_all del: split_paired_All)
  have shown: "\<forall>m\<in>set recs. \<not> empty_message m" "Ls = map ?text recs"
    using s3(4) by (auto simp: list_all2_conv_all_nth in_set_conv_nth intro: nth_equalityI)
  then show ?thesis using done' stop s3(5) v' by (auto simp: takeWhile_append)
qed

text \<open>Three messages of one poll, the second of them empty.\<close>

definition quit_messages :: "rd_kafka_message_t list" where
  "quit_messages = [sim_message 7 RD_KAFKA_RESP_ERR_NO_ERROR,
     (sim_message 8 RD_KAFKA_RESP_ERR_NO_ERROR)\<lparr>rkm_payload := None\<rparr>, sim_message 9 RD_KAFKA_RESP_ERR_NO_ERROR]"

lemma quit_messages_facts:
  "c_topics quit_messages = quit_messages" "\<exists>m\<in>set quit_messages. empty_message m"
  "last_offset (''t'', 0) quit_messages = Some 9" "length quit_messages = 3" "quit_messages \<noteq> []"
  by (simp_all add: quit_messages_def c_topics_def sim_message_def cr_topic_def cr_partition_def cr_offset_def no_nul_def
      empty_message_def cr_value_def buffer_size_def last_offset_def)

theorem auto_commit_example_skips_witness:
  "asked_position (''t'', 0) (requested (world (fst (snd (auto_commit_main reading_api reading_machine 2 ''id'' ''group'' ''b'' ''t''
      (consumer_default (reading_start quit_messages), rebalance_start)))))) = Some 10"
proof -
  let ?w = "reading_start quit_messages" and ?v = rebalance_start
  let ?taken = "\<lambda>w. c_topics (handed_over w)"
  let ?run = "auto_commit_main reading_api reading_machine 2 ''id'' ''group'' ''b'' ''t'' (consumer_default ?w, ?v)"
  obtain p where p: "string_properties [(''bootstrap.servers'', ''b'')] = Inr p" "sound_consumer p" "auto_commit_of p" "poll_records_of p = 500"
    using reading_configs(1) by blast
  obtain s where built: "construct_consumer reading_api ''id'' ''group'' p (consumer_default ?w) = (Inr (), s)"
    and s: "fresh_consumer s" "enableAutoCommit s" "opened s" "maxPollRecords s = 500" "pendingEvent s = None" "world s = ?w"
    using construct_consumer_state [OF p(2) reading_takes reading_quiet_setup, where obs = "\<lambda>w. w" and w = ?w
        and random = "''id''" and random_group = "''group''"] p by auto
  obtain s1 where sub: "subscribe reading_api 2 [''t''] None DEFAULT_SUBSCRIBE_TIMEOUT_MS s = (Inr (), s1)"
    and s1: "enableAutoCommit s1" "opened s1" "maxPollRecords s1 = 500" "world s1 = ?w"
    using reading_subscribe [OF s(1,5), of 1 "[''t'']"] s by (auto simp: numeral_2_eq_2)
  have wait: "waiting (world s1) = quit_messages" by (simp add: s1 reading_start_def)
  have max: "maxPollRecords s1 \<le> MAX_VECTOR_SIZE" by (simp add: s1 MAX_VECTOR_SIZE_def)
  have all: "take 500 quit_messages = quit_messages" by (simp add: quit_messages_facts)
  have block: "\<exists>v'. auto_commit_reading reading_api reading_machine 2 ''t'' (s, ?v) = (Inr (), (reading_polled s1, v'))"
    using quit_messages_facts(2)
    by (simp add: auto_commit_reading_def subscribed_def seqM_split sub [unfolded numeral_2_eq_2] numeral_2_eq_2
        reading_round(1) [OF s1(1) max] wait s1(3) all quit_messages_facts(1) show_until_empty_run)
  then obtain v' where block: "auto_commit_reading reading_api reading_machine 2 ''t'' (s, ?v) = (Inr (), (reading_polled s1, v'))" ..
  obtain s2 where gone: "destroy_consumer reading_api 2 (reading_polled s1) = (Inr (), s2)"
    and same: "handed_over (world s2) = handed_over (world (reading_polled s1))"
    using reading_destroy [of "reading_polled s1" 1] s1 by (auto simp: numeral_2_eq_2)
  have fin: "?run = (Finished (), (s2, v'))"
    by (simp add: auto_commit_main_def reading_block_def p(1) in_scope_def built block gone)
  have "?taken (world s2) = quit_messages"
    using same s1 wait all by (simp add: reading_start_def quit_messages_facts)
  with auto_commit_example_skips [OF reading_observed reading_accepts reading_takes reading_quiet_setup _ _ fin, of "(''t'', 0)"]
  have "asked_position (''t'', 0) (requested (world s2)) = Some 10"
    by (simp add: reading_start_def quit_messages_facts c_topics_def)
  then show ?thesis by (simp only: fin fst_conv snd_conv)
qed

section \<open>The commits of kafka_manual_commit_consumer\<close>

fun commit_line :: "tool_output \<Rightarrow> bool" where
  "commit_line (Out_line str) \<longleftrightarrow> take 22 str = ''% syncCommit offsets: ''"
| "commit_line _ \<longleftrightarrow> False"

lemma message_is_no_commit_line: "ls \<in> set (message_text L localSeconds ''% Got a new message...'' m) \<Longrightarrow> \<not> commit_line ls"
  by (auto simp: message_text_def message_lines_def record_fields_def split: if_splits)

lemma filter_messages:
  "filter (\<lambda>l. \<not> commit_line l) (concat (map (message_text L localSeconds ''% Got a new message...'') ms)) =
     concat (map (message_text L localSeconds ''% Got a new message...'') ms)"
  by (intro filter_True ballI) (auto dest: message_is_no_commit_line)

lemma show_until_quit_run:
  "show_until_quit L M recs (s, v) = (Inr (), (s, v\<lparr>printed := printed v @
       concat (map (message_text L (local_seconds M) ''% Got a new message...'') (takeWhile (\<lambda>m. \<not> empty_message m) recs)),
     allCommitted := allCommitted v \<and> list_all (\<lambda>m. error_set (cr_error m)) (takeWhile (\<lambda>m. \<not> empty_message m) recs),
     running := running v \<and> list_all (\<lambda>m. \<not> empty_message m) recs\<rparr>))"
  by (induction recs arbitrary: v) (simp_all add: seqM_split show_message_run)

lemma no_fuel_manual:
  "never_out_of_fuel (on_vars (getM running))" "never_out_of_fuel (manual_commit_batch A M recs)"
proof -
  have "never_out_of_fuel (show_until_quit L M recs)" for L
    by (auto simp: never_out_of_fuel_def show_until_quit_run)
  then show "never_out_of_fuel (manual_commit_batch A M recs)"
    unfolding manual_commit_batch_def commit_after_a_second_def commitSync_def commit_def say_def by (intro no_fuel)
qed (intro no_fuel)

text \<open>A commit after a second commits what was handed over; otherwise nothing changes.\<close>

lemma commit_after_a_second_run:
  assumes lib: "commits_kept A M kept taken positions"
    and run: "commit_after_a_second A M (s, v) = (Inr (), (s', v'))"
  shows "enableAutoCommit s' = enableAutoCommit s \<and> opened s' = opened s \<and> taken (world s') = taken (world s) \<and>
    running v' = running v \<and> filter (\<lambda>l. \<not> commit_line l) (printed v') = filter (\<lambda>l. \<not> commit_line l) (printed v) \<and>
    (among kept (positions (world s')) = among kept (positions (world s)) \<and> allCommitted v' = allCommitted v \<or>
     among kept (positions (world s')) = among kept (position_after (positions (world s)) (taken (world s))))"
proof -
  let ?obs = "\<lambda>w. (taken w, among kept (positions w))"
  have quiet: "silent ?obs (steady_now A)" "silent ?obs (getCurrentTime f (system_clock_now M))" for f
    using lib by (simp_all add: commits_kept_def quiet_calls_def silent_getCurrentTime)
  let ?w1 = "snd (steady_now A (world s))"
  let ?w2 = "snd (getCurrentTime (local_seconds M) (system_clock_now M) ?w1)"
  have same: "taken ?w1 = taken (world s)" "among kept (positions ?w1) = among kept (positions (world s))"
    "taken ?w2 = taken (world s)" "among kept (positions ?w2) = among kept (positions (world s))"
    using quiet by (simp_all add: silent_def)
  obtain r s3 where sync: "commitSync A (s\<lparr>world := ?w2\<rparr>) = (r, s3)" by fastforce
  let ?v1 = "v\<lparr>printed := printed v @ [Out_line (''% syncCommit offsets: '' @
       fst (getCurrentTime (local_seconds M) (system_clock_now M) ?w1))]\<rparr>"
  let ?now = "fst (steady_now A (world s))"
  have eq: "commit_after_a_second A M (s, v) =
      (if allCommitted v then (Inr (), (s, v))
       else if ?now - lastTimeCommitted v > 1000000000 then
         (case r of Inl e \<Rightarrow> (Inl e, (s3, ?v1)) | Inr _ \<Rightarrow> (Inr (), (s3, ?v1\<lparr>lastTimeCommitted := ?now, allCommitted := True\<rparr>)))
       else (Inr (), (s\<lparr>world := ?w1\<rparr>, v)))"
    by (cases r) (simp_all add: commit_after_a_second_def seqM_split sync)
  consider "s' = s" "v' = v" | "s' = s\<lparr>world := ?w1\<rparr>" "v' = v"
    | "r = Inr ()" "s' = s3" "v' = ?v1\<lparr>lastTimeCommitted := ?now, allCommitted := True\<rparr>"
  proof (cases "allCommitted v \<or> \<not> ?now - lastTimeCommitted v > 1000000000")
    case True
    then have "(s', v') = (s, v) \<or> (s', v') = (s\<lparr>world := ?w1\<rparr>, v)" using run unfolding eq by (metis prod.inject)
    then show thesis using that(1,2) by blast
  next
    case False
    then have "(case r of Inl e \<Rightarrow> (Inl e, (s3, ?v1)) | Inr _ \<Rightarrow> (Inr (), (s3, ?v1\<lparr>lastTimeCommitted := ?now, allCommitted := True\<rparr>))) =
        (Inr (), (s', v'))" using run unfolding eq by presburger
    then show thesis using that(3) by (cases r) simp_all
  qed
  then show ?thesis
  proof cases
    case 3
    then show ?thesis
      using commitSync_kept [OF lib sync [unfolded 3(1)]] same position_after_cong [OF same(4)] by simp
  qed (simp_all add: same)
qed

text \<open>
  The invariant of the loop: the messages before the first empty one have been printed; the positions are
  those after a part of them from the start, or after everything handed over; what is not committed and
  not marked as open is errors. The loop runs as long as no empty message came.
\<close>

definition shown_part :: "ConsumerRecord list \<Rightarrow> ConsumerRecord list" where
  "shown_part recs = takeWhile (\<lambda>m. \<not> empty_message m) recs"

definition committed_part :: "ConsumerRecord list \<Rightarrow> bool \<Rightarrow> ConsumerRecord list \<Rightarrow> bool" where
  \<comment> \<open>what can have been committed when these messages have been handed over\<close>
  "committed_part recs closed part \<longleftrightarrow> part = recs \<or>
     (\<exists>rest. shown_part recs = part @ rest \<and> (closed \<longrightarrow> without_error rest = []))"

definition manual_inv ::
  "TopicPartition set \<Rightarrow> ('w \<Rightarrow> rd_kafka_message_t list) \<Rightarrow> ('w \<Rightarrow> TopicPartition \<Rightarrow> Offset option) \<Rightarrow>
     (TopicPartition \<Rightarrow> Offset option) \<Rightarrow> (ConsumerRecord \<Rightarrow> tool_output list) \<Rightarrow> tool_output list \<Rightarrow>
     ('w, 'm) consumer_scheme \<times> 'v manual_vars_scheme \<Rightarrow> bool" where
  "manual_inv kept taken positions before text base = (\<lambda>(s, v). \<not> enableAutoCommit s \<and> opened s \<and>
     (running v \<longleftrightarrow> list_all (\<lambda>m. \<not> empty_message m) (taken (world s))) \<and>
     filter (\<lambda>l. \<not> commit_line l) (printed v) = base @ concat (map text (shown_part (taken (world s)))) \<and>
     (\<exists>part. committed_part (taken (world s)) (allCommitted v) part \<and>
        among kept (positions (world s)) = among kept (position_after before part)))"

lemma manual_inv_steady:
  "steady (\<lambda>w. (taken w, among kept (positions w))) s s' \<Longrightarrow> manual_inv kept taken positions before text base (s, v) \<Longrightarrow>
     manual_inv kept taken positions before text base (s', v)"
  by (simp add: steady_def manual_inv_def)

lemma shown_part_all: "list_all (\<lambda>m. \<not> empty_message m) recs \<Longrightarrow> shown_part (recs @ recs') = recs @ shown_part recs'"
  by (induction recs) (simp_all add: shown_part_def)

lemma shown_prefix: "\<exists>rest. recs = shown_part recs @ rest"
  by (metis shown_part_def takeWhile_dropWhile_id)

lemma manual_round:
  fixes A :: "('w, 'n) consumer_api_scheme" and v :: "'v manual_vars_scheme"
  assumes lib: "commits_kept A M kept taken positions"
    and inv: "manual_inv kept taken positions before (message_text (the_lib A) (local_seconds M) ''% Got a new message...'') base (s, v)"
    and run: "poll_round A M (on_vars (getM running)) (manual_commit_batch A M) () (s, v) = (Inr r, (s', v'))"
  shows "manual_inv kept taken positions before (message_text (the_lib A) (local_seconds M) ''% Got a new message...'') base (s', v') \<and>
    (r = Some () \<longrightarrow> \<not> running v')"
proof -
  let ?obs = "\<lambda>w. (taken w, among kept (positions w))" and ?text = "message_text (the_lib A) (local_seconds M) ''% Got a new message...''"
  have quiet: "quiet_calls A M ?obs" using lib by (simp add: commits_kept_def)
  obtain r1 s1 where one: "thread_runs M (consumer_pollCallbacks A) s = (r1, s1)" by fastforce
  have inv1: "manual_inv kept taken positions before ?text base (s1, v)"
    by (rule manual_inv_steady [OF steadyD [OF steady_thread_runs [OF quiet] one] inv])
  show ?thesis
  proof (cases "running v")
    case False
    then show ?thesis using run inv1 by (auto simp: poll_round_def seqM_split one split: sum.splits)
  next
    case True
    obtain rp s2 where poll: "poll A POLL_TIMEOUT s1 = (rp, s2)" by fastforce
    obtain recs where rp: "rp = Inr recs" and batch: "manual_commit_batch A M recs (s2, v) = (Inr r, (s', v'))"
      using run True by (cases rp) (auto simp: poll_round_def seqM_split one poll split: sum.splits)
    let ?v2 = "v\<lparr>printed := printed v @ concat (map ?text (shown_part recs)),
       allCommitted := allCommitted v \<and> list_all (\<lambda>m. error_set (cr_error m)) (shown_part recs),
       running := running v \<and> list_all (\<lambda>m. \<not> empty_message m) recs\<rparr>"
    have commit: "commit_after_a_second A M (s2, ?v2) = (Inr (), (s', v'))" and r: "r = None"
      using batch unfolding manual_commit_batch_def shown_part_def
      by (cases "commit_after_a_second A M (s2, ?v2)", auto simp: seqM_split show_until_quit_run shown_part_def split: sum.splits)+
    have two: "\<not> enableAutoCommit s2" "opened s2" "taken (world s2) = taken (world s1) @ recs"
      "among kept (positions (world s2)) = among kept (positions (world s1))"
      using poll_manual [OF lib _ poll [unfolded rp]] inv1 by (auto simp: manual_inv_def)
    have all: "list_all (\<lambda>m. \<not> empty_message m) (taken (world s1))" using inv1 True by (simp add: manual_inv_def)
    have shown: "shown_part (taken (world s1)) = taken (world s1)" "shown_part (taken (world s2)) = taken (world s1) @ shown_part recs"
      using shown_part_all [OF all, of "[]"] shown_part_all [OF all, of recs] two(3) by (simp_all add: shown_part_def)
    have out: "filter (\<lambda>l. \<not> commit_line l) (printed ?v2) = base @ concat (map ?text (shown_part (taken (world s2))))"
      using inv1 by (simp add: manual_inv_def shown filter_messages)
    obtain part where part: "committed_part (taken (world s1)) (allCommitted v) part"
      "among kept (positions (world s2)) = among kept (position_after before part)"
      using inv1 two(4) by (auto simp: manual_inv_def)
    then obtain rest where rest: "taken (world s1) = part @ rest" "allCommitted v \<longrightarrow> without_error rest = []"
      using shown(1) by (auto simp: committed_part_def without_error_def)
    then have "shown_part (taken (world s2)) = part @ rest @ shown_part recs" using shown by simp
    moreover have "allCommitted ?v2 \<longrightarrow> without_error (rest @ shown_part recs) = []"
      using rest(2) by (auto simp: without_error_def list_all_iff filter_empty_conv)
    ultimately have open_part: "committed_part (taken (world s2)) (allCommitted ?v2) part"
      unfolding committed_part_def by blast
    have "taken (world s2) = part @ (rest @ recs)" using rest(1) two(3) by simp
    then have whole: "among kept (position_after (positions (world s2)) (taken (world s2))) =
        among kept (position_after before (taken (world s2)))"
      using position_after_cong [OF part(2), of "taken (world s2)"] position_after_more [of before part "rest @ recs"] by simp
    have "\<exists>part. committed_part (taken (world s')) (allCommitted v') part \<and>
        among kept (positions (world s')) = among kept (position_after before part)"
      using commit_after_a_second_run [OF lib commit] part(2) open_part whole by (auto simp: committed_part_def)
    then show ?thesis
      using commit_after_a_second_run [OF lib commit] r two all out True by (auto simp: manual_inv_def)
  qed
qed

text \<open>C30. The example with manual commits ends only by a message with an empty value and has then printed the
  messages before the first such message, in order and once. For every partition that the consumer keeps
  during the whole run, the group's position is the one after some of the first of these messages, those
  left out being errors when no commit is open, or the one after everything the polls handed over: a
  commit in the last round covers the messages of the same poll behind the empty one, which were never
  shown. Closing commits nothing more. Nothing is said of the partitions taken away in between: a commit
  without a list leaves them out, so what was shown of them can stay uncommitted although the program
  considers everything committed.\<close>

theorem manual_commit_example_commits:
  assumes "commits_kept A M kept taken positions" "takes_consumers A"
    and "quiet_consumer_setup A (\<lambda>w. (taken w, among kept (positions w)))"
    and "taken w = []" "printed v = []"
    and "manual_commit_main A M fuel r g servers topic (consumer_default w, v) = (Finished (), (s', v'))"
  shows "(\<exists>m\<in>set (taken (world s')). empty_message m) \<and>
    filter (\<lambda>l. \<not> commit_line l) (printed v') = Out_line (''% Reading messages from topic: '' @ topic) #
      concat (map (message_text (the_lib A) (local_seconds M) ''% Got a new message...'') (shown_part (taken (world s')))) \<and>
    (\<exists>part. (part = taken (world s') \<or>
         (\<exists>rest. shown_part (taken (world s')) = part @ rest \<and> (allCommitted v' \<longrightarrow> without_error rest = []))) \<and>
       (\<forall>tp\<in>kept. positions (world s') tp = position_after (positions w) part tp))"
proof -
  let ?obs = "\<lambda>w. (taken w, among kept (positions w))" and ?text = "message_text (the_lib A) (local_seconds M) ''% Got a new message...''"
  let ?head = "Out_line (''% Reading messages from topic: '' @ topic)"
  let ?inv = "manual_inv kept taken positions (positions w) ?text [?head]"
  let ?round = "poll_round A M (on_vars (getM running)) (manual_commit_batch A M) ()"
  have quiet: "quiet_calls A M ?obs" using assms(1) by (simp add: commits_kept_def)
  obtain p where p: "string_properties [(''bootstrap.servers'', servers), (''enable.auto.commit'', ''false'')] = Inr p"
    "sound_consumer p" "\<not> auto_commit_of p"
    using reading_configs(2) by blast
  obtain s s2 where s: "opened s" "\<not> enableAutoCommit s" "?obs (world s) = ([], among kept (positions w))"
    and block: "manual_commit_reading A M fuel topic (s, v) = (Inr (), (s2, v'))" and gone: "snd (destroy_consumer A fuel s2) = s'"
    using reading_block_finished [OF assms(2,3) p(2) assms(6) [unfolded manual_commit_main_def p(1)]] p(3) assms(4) by metis
  obtain s1 where s1: "steady ?obs s s1" and rest: "seqM (on_client (lib_call (steady_now A))) (\<lambda>now.
     seqM (on_vars (modM (\<lambda>v. v\<lparr>lastTimeCommitted := now\<rparr>))) (\<lambda>_.
     seqM (on_vars (say [?head])) (\<lambda>_.
     seqM (on_vars (modM (\<lambda>v. v\<lparr>allCommitted := True, running := True\<rparr>))) (\<lambda>_.
     poll_loop A M (on_vars (getM running)) (manual_commit_batch A M) () fuel)))) (s1, v) = (Inr (), (s2, v'))"
    by (rule subscribed_run [OF quiet block [unfolded manual_commit_reading_def]])
  let ?s1 = "s1\<lparr>world := snd (steady_now A (world s1))\<rparr>"
  let ?v1 = "v\<lparr>lastTimeCommitted := fst (steady_now A (world s1)), printed := printed v @ [?head], allCommitted := True, running := True\<rparr>"
  have loop: "poll_loop A M (on_vars (getM running)) (manual_commit_batch A M) () fuel (?s1, ?v1) = (Inr (), (s2, v'))"
    using rest by (simp add: seqM_split)
  have "steady ?obs s ?s1" using s1 quiet by (simp add: steady_def quiet_calls_def silent_def)
  then have start: "?inv (?s1, ?v1)"
    using s by (auto simp: manual_inv_def steady_def assms(5) shown_part_def committed_part_def position_after_def
        without_error_def intro!: exI [of _ "[]"])
  have no_fuel: "fst (?round sv) \<noteq> Inl Out_of_fuel" for sv
    by (intro no_fuelD no_fuel_round no_fuel_manual)
  obtain k s3 v3 where rounds: "poll_loop A M (on_vars (getM running)) (manual_commit_batch A M) () k (?s1, ?v1) = (Inl Out_of_fuel, (s3, v3))"
    and final: "?round (s3, v3) = (Inr (Some ()), (s2, v'))"
    using polling.last_round [OF loop] by auto
  have "?inv (s3, v3)"
    by (rule polling.rounds_keep [where I = ?inv, OF _ no_fuel start rounds]) (auto dest: manual_round [OF assms(1)])
  from manual_round [OF assms(1) this final] have two: "?inv (s2, v')" "\<not> running v'" by simp_all
  have "snd (destroy_consumer A fuel s2) = snd (leave_group A fuel (s2\<lparr>opened := False, pollThread := False, pollable := False\<rparr>))"
    using two(1) by (subst close_after_commit [symmetric]) (simp_all add: manual_inv_def destroy_consumer_def commitStored_skip)
  moreover have "still ?obs (?obs (world s2)) (snd (leave_group A fuel (s2\<lparr>opened := False, pollThread := False, pollable := False\<rparr>)))"
    by (rule preservesD [OF still_leave_group [OF quiet]]) (simp add: still_def)
  ultimately have "taken (world s') = taken (world s2)" "among kept (positions (world s')) = among kept (positions (world s2))"
    using gone by (simp_all add: still_def)
  then show ?thesis using two by (auto simp: manual_inv_def committed_part_def list_all_iff among_iff)
qed

lemma reading_manual:
  assumes "\<not> enableAutoCommit s" "maxPollRecords s \<le> MAX_VECTOR_SIZE"
  shows "poll reading_api t s = (Inr (c_topics (take (maxPollRecords s) (waiting (world s)))),
      s\<lparr>world := (world s)\<lparr>waiting := drop (maxPollRecords s) (waiting (world s)),
        handed_over := handed_over (world s) @ take (maxPollRecords s) (waiting (world s))\<rparr>\<rparr>)"
    "opened s \<Longrightarrow> \<exists>s'. destroy_consumer reading_api (Suc n) s = (Inr (), s') \<and> world s' = world s"
  using assms
  by (simp_all add: poll_def commitStored_skip seqM_split reading_defs storeOffsetsIfNecessary_def destroy_consumer_def
      close_consumer_def stopBackgroundPollingIfNecessary_def)

lemma reading_commitSync:
  "commitSync reading_api s = (Inr (), s\<lparr>world := (world s)\<lparr>requested := requested (world s) @ [None],
     group_positions := position_after (group_positions (world s)) (c_topics (handed_over (world s)))\<rparr>\<rparr>)"
  by (simp add: commitSync_def commit_def rk_list_or_null_def seqM_split reading_defs)

theorem manual_commit_example_commits_witness:
  "\<exists>s' v'. manual_commit_main reading_api reading_machine 2 ''id'' ''group'' ''b'' ''t''
      (consumer_default (reading_start quit_messages), manual_start) = (Finished (), (s', v')) \<and>
    filter (\<lambda>l. \<not> commit_line l) (printed v') = Out_line ''% Reading messages from topic: t'' #
      message_text (the_lib reading_api) (local_seconds reading_machine) ''% Got a new message...'' (hd quit_messages) \<and>
    group_positions (world s') (''t'', 0) = Some 10"
proof -
  let ?w = "reading_start quit_messages" and ?v = manual_start
  let ?run = "manual_commit_main reading_api reading_machine 2 ''id'' ''group'' ''b'' ''t'' (consumer_default ?w, ?v)"
  obtain p where p: "string_properties [(''bootstrap.servers'', ''b''), (''enable.auto.commit'', ''false'')] = Inr p"
    "sound_consumer p" "\<not> auto_commit_of p" "poll_records_of p = 500"
    using reading_configs(2) by blast
  obtain s where built: "construct_consumer reading_api ''id'' ''group'' p (consumer_default ?w) = (Inr (), s)"
    and s: "fresh_consumer s" "\<not> enableAutoCommit s" "opened s" "maxPollRecords s = 500" "pendingEvent s = None" "world s = ?w"
    using construct_consumer_state [OF p(2) reading_takes reading_quiet_setup, where obs = "\<lambda>w. w" and w = ?w
        and random = "''id''" and random_group = "''group''"] p by auto
  obtain s1 where sub: "subscribe reading_api 2 [''t''] None DEFAULT_SUBSCRIBE_TIMEOUT_MS s = (Inr (), s1)"
    and s1: "\<not> enableAutoCommit s1" "opened s1" "maxPollRecords s1 = 500" "world s1 = ?w"
    using reading_subscribe [OF s(1,5), of 1 "[''t'']"] s by (auto simp: numeral_2_eq_2)
  have max: "500 \<le> MAX_VECTOR_SIZE" by (simp add: MAX_VECTOR_SIZE_def)
  have all: "take 500 quit_messages = quit_messages" "drop 500 quit_messages = []" by (simp_all add: quit_messages_facts)
  have some: "\<not> list_all (\<lambda>m. \<not> empty_message m) quit_messages" "takeWhile (\<lambda>m. \<not> empty_message m) quit_messages = [hd quit_messages]"
    "\<not> error_set (cr_error (hd quit_messages))"
    by (simp_all add: quit_messages_def empty_message_def cr_value_def buffer_size_def sim_message_def cr_error_def)
  let ?w2 = "?w\<lparr>waiting := [], handed_over := quit_messages, requested := [None], group_positions := position_after (\<lambda>_. None) quit_messages\<rparr>"
  have start: "waiting ?w = quit_messages" "handed_over ?w = []" "requested ?w = []" "group_positions ?w = (\<lambda>_. None)" by (simp_all add: reading_start_def)
  have now: "fst (steady_now reading_api (reading_start quit_messages)) = 0" "snd (steady_now reading_api w) = w"
    "fst (steady_now reading_api (reading_start quit_messages\<lparr>waiting := [], handed_over := quit_messages\<rparr>)) = 2000000000" for w
    by (simp_all add: reading_defs reading_start_def quit_messages_facts)
  have clock: "snd (getCurrentTime f (system_clock_now reading_machine) w) = w" for f w
    by (simp add: getCurrentTime_def reading_machine_def)
  have "\<exists>v'. manual_commit_reading reading_api reading_machine 2 ''t'' (s, ?v) = (Inr (), (s1\<lparr>world := ?w2\<rparr>, v'))"
    using sub s1 start
    by (simp add: manual_commit_reading_def subscribed_def seqM_split numeral_2_eq_2 poll_round_def reading_looks
        reading_manual(1) max manual_commit_batch_def show_until_quit_run commit_after_a_second_def
        reading_commitSync all quit_messages_facts some now clock)
  then obtain v' where block: "manual_commit_reading reading_api reading_machine 2 ''t'' (s, ?v) = (Inr (), (s1\<lparr>world := ?w2\<rparr>, v'))" ..
  obtain s2 where gone: "destroy_consumer reading_api 2 (s1\<lparr>world := ?w2\<rparr>) = (Inr (), s2)" and w2: "world s2 = ?w2"
    using reading_manual(2) [of "s1\<lparr>world := ?w2\<rparr>" 1] s1 max by (auto simp: numeral_2_eq_2)
  have fin: "?run = (Finished (), (s2, v'))"
    by (simp add: manual_commit_main_def reading_block_def p(1) in_scope_def built block gone)
  have last: "position_after (\<lambda>_. None) quit_messages (''t'', 0) = Some 10"
    by (simp add: quit_messages_def position_after_def without_error_def sim_message_def cr_error_def last_offset_def
        cr_topic_def cr_partition_def cr_offset_def)
  have "printed ?v = []" "c_topics (handed_over ?w) = []" by (simp_all add: manual_start_def reading_start_def c_topics_def)
  from manual_commit_example_commits [OF reading_kept reading_takes reading_quiet_setup this(2,1) fin]
  show ?thesis
    using fin w2 some last by (simp add: reading_start_def c_topics_def quit_messages_facts [unfolded c_topics_def] shown_part_def)
qed

section \<open>The end of example_KafkaConsumer_RebalanceEvents\<close>

definition reports_end :: "ConsumerRecord \<Rightarrow> bool" where
  "reports_end rec \<longleftrightarrow> error_set (cr_error rec) \<and> error_value (cr_error rec) = RD_KAFKA_RESP_ERR__PARTITION_EOF"

definition ended_partitions :: "ConsumerRecord list \<Rightarrow> TopicPartitions" where
  "ended_partitions recs = map (\<lambda>m. (cr_topic m, cr_partition m)) (filter reports_end recs)"

fun is_rebalance :: "client_event \<Rightarrow> bool" where
  "is_rebalance (RebalanceEvent h ty tps) = True"
| "is_rebalance ev = False"

lemma count_rebalances: "foldl count_event n evs = foldl count_event n (filter is_rebalance evs)"
proof (induction evs arbitrary: n)
  case (Cons ev evs)
  then show ?case by (cases ev) simp_all
qed simp

lemma note_record_run:
  "note_record L M rec (s, v) = (Inr (), (s, if reports_end rec
     then v\<lparr>finishedPartitions := oset_insert (cr_topic rec, cr_partition rec) (finishedPartitions v)\<rparr>
     else v\<lparr>printed := printed v @ [Err_line (cr_toString L (timestamp_seconds (local_seconds M)) rec)]\<rparr>))"
  by (simp add: note_record_def reports_end_def show_whole_def)

lemma note_all:
  "\<exists>v'. show_records (note_record L M) recs (s, v) = (Inr None, (s, v')) \<and>
     set (finishedPartitions v') = set (finishedPartitions v) \<union> set (ended_partitions recs) \<and>
     (strictly_sorted (finishedPartitions v) \<longrightarrow> strictly_sorted (finishedPartitions v'))"
proof -
  have "\<exists>v'. for_records (note_record L M) recs (s, v) = (Inr (), (s, v')) \<and>
     set (finishedPartitions v') = set (finishedPartitions v) \<union> set (ended_partitions recs) \<and>
     (strictly_sorted (finishedPartitions v) \<longrightarrow> strictly_sorted (finishedPartitions v'))"
  proof (induction recs arbitrary: v)
    case (Cons rec recs)
    let ?v1 = "snd (snd (note_record L M rec (s, v)))"
    have "note_record L M rec (s, v) = (Inr (), (s, ?v1))"
      "set (finishedPartitions ?v1) = set (finishedPartitions v) \<union> set (ended_partitions [rec])"
      "strictly_sorted (finishedPartitions v) \<longrightarrow> strictly_sorted (finishedPartitions ?v1)"
      by (simp_all add: note_record_run ended_partitions_def)
    then obtain v1 where v1: "note_record L M rec (s, v) = (Inr (), (s, v1))"
      "set (finishedPartitions v1) = set (finishedPartitions v) \<union> set (ended_partitions [rec])"
      "strictly_sorted (finishedPartitions v) \<longrightarrow> strictly_sorted (finishedPartitions v1)" by blast
    obtain v2 where v2: "for_records (note_record L M) recs (s, v1) = (Inr (), (s, v2))"
      "set (finishedPartitions v2) = set (finishedPartitions v1) \<union> set (ended_partitions recs)"
      "strictly_sorted (finishedPartitions v1) \<longrightarrow> strictly_sorted (finishedPartitions v2)"
      using Cons.IH [of v1] by blast
    have "set (ended_partitions (rec # recs)) = set (ended_partitions [rec]) \<union> set (ended_partitions recs)"
      by (auto simp: ended_partitions_def)
    then show ?case using v1(2,3) v2(2,3) by (intro exI [of _ v2]) (auto simp: seqM_split v1(1) v2(1))
  qed (simp add: ended_partitions_def)
  then show ?thesis using show_records_run [of "note_record L M" recs "(s, v)"] by fastforce
qed

definition notes_ends :: "('w \<Rightarrow> rd_kafka_message_t list) \<Rightarrow> ('w, 'm) consumer_scheme \<times> 'v rebalance_vars_scheme \<Rightarrow> bool" where
  "notes_ends taken = (\<lambda>(s, v). strictly_sorted (finishedPartitions v) \<and>
     set (finishedPartitions v) = set (ended_partitions (taken (world s))))"

lemma partitions_left_run:
  "partitions_left (s, v) = (Inr (of_nat (length (finishedPartitions v)) \<noteq> assignedPartitions (events s)), (s, v))"
  by (simp add: partitions_left_def seqM_split)

lemma no_fuel_note: "never_out_of_fuel (show_records (note_record L M) recs)" "never_out_of_fuel partitions_left"
proof -
  have "never_out_of_fuel (note_record L M rec)" for rec by (auto simp: never_out_of_fuel_def note_record_run)
  then show "never_out_of_fuel (show_records (note_record L M) recs)" by (rule no_fuel_show_records)
  show "never_out_of_fuel partitions_left" by (auto simp: never_out_of_fuel_def partitions_left_run)
qed

lemma notes_ends_round:
  assumes obs: "observes A M taken asked" and inv: "notes_ends taken (s, v)"
    and run: "poll_round A M partitions_left (show_records (note_record L M)) () (s, v) = (Inr r, (s', v'))"
  shows "notes_ends taken (s', v') \<and>
    (r = Some () \<longrightarrow> of_nat (length (finishedPartitions v')) = assignedPartitions (events s'))"
proof -
  have quiet: "quiet_calls A M (\<lambda>w. (taken w, asked w))" using obs by (simp add: observes_def)
  obtain r1 s1 where one: "thread_runs M (consumer_pollCallbacks A) s = (r1, s1)" by fastforce
  have inv1: "notes_ends taken (s1, v)"
    using steadyD [OF steady_thread_runs [OF quiet] one] inv by (simp add: notes_ends_def steady_def)
  show ?thesis
  proof (cases "of_nat (length (finishedPartitions v)) = assignedPartitions (events s1)")
    case True
    then show ?thesis using run inv1 by (auto simp: poll_round_def seqM_split one partitions_left_run split: sum.splits)
  next
    case False
    obtain rp s2 where poll: "poll A POLL_TIMEOUT s1 = (rp, s2)" by fastforce
    obtain recs where rp: "rp = Inr recs" and batch: "show_records (note_record L M) recs (s2, v) = (Inr r, (s', v'))"
      using run False by (cases rp) (auto simp: poll_round_def seqM_split one poll partitions_left_run split: sum.splits)
    have "taken (world s2) = taken (world s1) @ recs" by (rule poll_takes [OF obs poll [unfolded rp]])
    then have "set (ended_partitions (taken (world s2))) = set (ended_partitions (taken (world s1))) \<union> set (ended_partitions recs)"
      by (simp add: ended_partitions_def)
    moreover obtain v2 where v2: "show_records (note_record L M) recs (s2, v) = (Inr (None :: unit option), (s2, v2))"
      "set (finishedPartitions v2) = set (finishedPartitions v) \<union> set (ended_partitions recs)"
      "strictly_sorted (finishedPartitions v) \<longrightarrow> strictly_sorted (finishedPartitions v2)"
      using note_all [of L M recs s2 v] by blast
    moreover have "r = None" "s' = s2" "v' = v2" using batch [unfolded v2(1)] by simp_all
    ultimately show ?thesis using inv1 by (simp add: notes_ends_def)
  qed
qed

lemma subscribe_takes:
  assumes "observes A M taken asked" "subscribe A fuel topics cb timeout s = (r, s')"
  shows "taken (world s') = taken (world s)"
proof -
  have quiet: "quiet_calls A M (\<lambda>w. (taken w, asked w))" using assms(1) by (simp add: observes_def)
  show ?thesis using steadyD [OF steady_subscribe [OF quiet] assms(2)] by (simp add: steady_def)
qed

lemma rebalance_rounds:
  assumes obs: "observes A M taken asked" and start: "notes_ends taken (s, v)"
    and rounds: "poll_loop A M partitions_left (show_records (note_record L M)) () k (s, v) = (Inl Out_of_fuel, (s', v'))"
  shows "notes_ends taken (s', v')"
proof -
  let ?round = "poll_round A M partitions_left (show_records (note_record L M)) ()"
  have no_fuel: "fst (?round sv) \<noteq> Inl Out_of_fuel" for sv
    by (intro no_fuelD no_fuel_round no_fuel_note)
  show ?thesis
    by (rule polling.rounds_keep [where I = "notes_ends taken", OF _ no_fuel start rounds]) (auto dest: notes_ends_round [OF obs])
qed

text \<open>When the loop ends, the number of partitions that have reported their end is the counter.\<close>

lemma rebalance_loop_ends:
  assumes obs: "observes A M taken asked" and start: "notes_ends taken (s, v)"
    and run: "poll_loop A M partitions_left (show_records (note_record L M)) () fuel (s, v) = (Inr (), (s', v'))"
  shows "of_nat (card (set (ended_partitions (taken (world s'))))) = assignedPartitions (events s')"
proof -
  obtain k s1 v1 where rounds: "poll_loop A M partitions_left (show_records (note_record L M)) () k (s, v) = (Inl Out_of_fuel, (s1, v1))"
    and final: "poll_round A M partitions_left (show_records (note_record L M)) () (s1, v1) = (Inr (Some ()), (s', v'))"
    using polling.last_round [OF run] by auto
  from notes_ends_round [OF obs rebalance_rounds [OF obs start rounds] final]
  have fin: "strictly_sorted (finishedPartitions v')" "set (finishedPartitions v') = set (ended_partitions (taken (world s')))"
    "of_nat (length (finishedPartitions v')) = assignedPartitions (events s')"
    by (simp_all add: notes_ends_def)
  have "card (set (finishedPartitions v')) = length (finishedPartitions v')"
    using fin(1) by (intro distinct_card) (simp add: strict_sorted_iff)
  then show ?thesis using fin(2,3) by simp
qed

text \<open>C31. The example that reads a topic to its end stops exactly when as many partitions have reported
  their end as the rebalances have assigned and not taken back: when the only rebalance was one assignment,
  every partition of it has reported its end (the library reports the ends of assigned partitions only).
  But the partitions that reported their end are never taken off: when the assignment is taken back before
  any partition has reported its end, as an eager rebalance does before it assigns anew, and the callbacks
  that the polling thread then serves bring no other rebalance, the program stops at its next test,
  whatever is still to be read.\<close>

theorem rebalance_example_ends:
  assumes "observes A M taken asked" "taken (world s) = []"
  shows "(rebalance_reading A M fuel topic (s, v) = (Inr (), (s', v')) \<longrightarrow>
      of_nat (card (set (ended_partitions (taken (world s'))))) = assignedPartitions (events s') \<and>
      (filter is_rebalance (events s') = [RebalanceEvent h PartitionsAssigned tps] \<and> distinct tps \<and> length tps < 2 ^ 64 \<and>
       set (ended_partitions (taken (world s'))) \<subseteq> set tps \<longrightarrow>
       set (ended_partitions (taken (world s'))) = set tps)) \<and>
    (\<forall>s1 k s2 v2 s3.
      subscribe A fuel [topic] rebalanceCb_handle DEFAULT_SUBSCRIBE_TIMEOUT_MS s = (Inr (), s1) \<and> k < fuel \<and>
      poll_loop A M partitions_left (show_records (note_record (the_lib A) M)) () k (s1, v\<lparr>finishedPartitions := []\<rparr>) =
        (Inl Out_of_fuel, (s2, v2)) \<and>
      thread_runs M (consumer_pollCallbacks A) s2 = (Inr (), s3) \<and>
      filter is_rebalance (events s3) = [RebalanceEvent h PartitionsAssigned tps, RebalanceEvent h PartitionsRevoked tps] \<and>
      ended_partitions (taken (world s2)) = [] \<longrightarrow>
      rebalance_reading A M fuel topic (s, v) = (Inr (), (s3, v2)))"
proof (intro conjI allI impI)
  let ?loop = "poll_loop A M partitions_left (show_records (note_record (the_lib A) M)) ()"
  have start: "notes_ends taken (s1, v\<lparr>finishedPartitions := []\<rparr>)"
    if "subscribe A fuel [topic] rebalanceCb_handle DEFAULT_SUBSCRIBE_TIMEOUT_MS s = (Inr (), s1)" for s1
    using subscribe_takes [OF assms(1) that] assms(2) by (simp add: notes_ends_def ended_partitions_def)
  {
    assume "rebalance_reading A M fuel topic (s, v) = (Inr (), (s', v'))"
    then obtain s1 where sub: "subscribe A fuel [topic] rebalanceCb_handle DEFAULT_SUBSCRIBE_TIMEOUT_MS s = (Inr (), s1)"
      and loop: "?loop fuel (s1, v\<lparr>finishedPartitions := []\<rparr>) = (Inr (), (s', v'))"
      by (cases "subscribe A fuel [topic] rebalanceCb_handle DEFAULT_SUBSCRIBE_TIMEOUT_MS s")
        (auto simp: rebalance_reading_def subscribed_def seqM_split split: sum.splits)
    from rebalance_loop_ends [OF assms(1) start [OF sub] loop]
    show count: "of_nat (card (set (ended_partitions (taken (world s'))))) = assignedPartitions (events s')" .
    assume one: "filter is_rebalance (events s') = [RebalanceEvent h PartitionsAssigned tps] \<and> distinct tps \<and> length tps < 2 ^ 64 \<and>
       set (ended_partitions (taken (world s'))) \<subseteq> set tps"
    let ?ended = "set (ended_partitions (taken (world s')))"
    have "assignedPartitions (events s') = of_nat (length tps)"
      using one count_rebalances [of 0 "events s'"] by (simp add: assignedPartitions_def)
    then have eq: "of_nat (card ?ended) = (of_nat (length tps) :: 64 word)" using count by simp
    have tps: "card (set tps) = length tps" "length tps < 2 ^ 64" using one by (simp_all add: distinct_card)
    have "card ?ended \<le> card (set tps)" using one by (intro card_mono) simp_all
    then have "card ?ended < 2 ^ 64" using tps by linarith
    then have "card ?ended = card (set tps)"
      using arg_cong [OF eq, of unat] tps by (simp add: unsigned_of_nat take_bit_nat_eq_self)
    then show "?ended = set tps" using one by (metis card_subset_eq List.finite_set)
  }
  fix s1 k s2 v2 s3
  assume early: "subscribe A fuel [topic] rebalanceCb_handle DEFAULT_SUBSCRIBE_TIMEOUT_MS s = (Inr (), s1) \<and> k < fuel \<and>
      ?loop k (s1, v\<lparr>finishedPartitions := []\<rparr>) = (Inl Out_of_fuel, (s2, v2)) \<and>
      thread_runs M (consumer_pollCallbacks A) s2 = (Inr (), s3) \<and>
      filter is_rebalance (events s3) = [RebalanceEvent h PartitionsAssigned tps, RebalanceEvent h PartitionsRevoked tps] \<and>
      ended_partitions (taken (world s2)) = []"
  have "notes_ends taken (s2, v2)"
    using early by (intro rebalance_rounds [OF assms(1) start]) auto
  then have none: "finishedPartitions v2 = []" using early by (simp add: notes_ends_def)
  obtain m where m: "fuel = k + Suc m" using early less_imp_Suc_add by fastforce
  have no_fuel: "fst (poll_round A M partitions_left (show_records (note_record (the_lib A) M)) () sv) \<noteq> Inl Out_of_fuel" for sv
    by (intro no_fuelD no_fuel_round no_fuel_note)
  have "?loop fuel (s1, v\<lparr>finishedPartitions := []\<rparr>) = ?loop (Suc m) (s2, v2)"
    unfolding m by (rule polling.fuel_split [OF no_fuel]) (use early in simp)
  also have "\<dots> = (Inr (), (s3, v2))"
    using early none count_rebalances [of 0 "events s3"]
    by (simp add: seqM_split poll_round_def partitions_left_run assignedPartitions_def)
  finally show "rebalance_reading A M fuel topic (s, v) = (Inr (), (s3, v2))"
    using early by (simp add: rebalance_reading_def subscribed_def seqM_split)
qed

text \<open>
  A library that assigns one partition and may serve more rebalances with the first messages, and a polling
  thread that runs once before every test.
\<close>

definition eof_messages :: "rd_kafka_message_t list" where
  "eof_messages = [sim_message 7 RD_KAFKA_RESP_ERR_NO_ERROR, sim_message 8 RD_KAFKA_RESP_ERR__PARTITION_EOF]"

definition eof_api :: "served list \<Rightarrow> reading consumer_api" where
  "eof_api extra = reading_api\<lparr>
     rd_kafka_poll := (\<lambda>t w. ([Served_rebalance RD_KAFKA_RESP_ERR__ASSIGN_PARTITIONS (Some [rktp_of ((''t'', 0), 0)])], w)),
     rd_kafka_consume_batch_queue := (\<lambda>t n w. ((if handed_over w = [] then extra else [], Inr (c_topics (take n (waiting w)))),
        w\<lparr>waiting := drop n (waiting w), handed_over := handed_over w @ take n (waiting w)\<rparr>))\<rparr>"

definition eof_machine :: "reading machine" where
  "eof_machine = reading_machine\<lparr>thread_turns := (\<lambda>w. (1, w))\<rparr>"

definition eof_start :: "nat \<Rightarrow> reading consumer" where
  \<comment> \<open>polling by a thread, as the example's configuration has it\<close>
  "eof_start n = (consumer_default (reading_start eof_messages))
     \<lparr>opened := True, pollable := True, pollThread := True, maxPollRecords := n, enableAutoCommit := False\<rparr>"

lemma eof_observed: "observes (eof_api extra) eof_machine (\<lambda>w. c_topics (handed_over w)) requested"
  by (simp add: observes_def quiet_calls_def silent_def reading_defs c_topics_def eof_api_def eof_machine_def)

lemma eof_messages_facts:
  "c_topics [hd eof_messages] = [hd eof_messages]" "c_topics eof_messages = eof_messages"
  "ended_partitions eof_messages = [(''t'', 0)]" "ended_partitions [hd eof_messages] = []" "length eof_messages = 2"
  "reports_end (hd eof_messages) = False"
  by (simp_all add: eof_messages_def c_topics_def sim_message_def cr_topic_def cr_partition_def no_nul_def
      ended_partitions_def reports_end_def cr_error_def)

lemma eof_subscribe:
  "\<exists>s1. subscribe (eof_api extra) (Suc n) [''t''] rebalanceCb_handle DEFAULT_SUBSCRIBE_TIMEOUT_MS (eof_start k) = (Inr (), s1) \<and>
     events s1 = [RebalanceEvent 1 PartitionsAssigned [(''t'', 0)]] \<and> rebalanceCb s1 = rebalanceCb_handle \<and>
     cooperativeEnabled s1 = Some False \<and> pendingEvent s1 = None \<and>
     world s1 = reading_start eof_messages \<and> maxPollRecords s1 = k \<and> pollThread s1 \<and> \<not> enableAutoCommit s1"
  by (simp add: eof_start_def eof_api_def consumer_default_def client_default_def client.defs reading_start_def eof_messages_def
      subscribe_def start_subscription_def await_or_time_out_def seqM_split reading_defs
      poll_library_def serve_def onRebalance_assign Let_def changeAssignment_eq library_change_def learn_protocol_def
      clear_pending_def notified_def rebalance_event_def deadline_def DEFAULT_SUBSCRIBE_TIMEOUT_MS_def to_int64_def
      throw_if_def isCooperativeEnabled_def rebalanceCb_handle_def assignment_after_def getTopicPartitions_def elems_of_def rktp_of_def c_str_def)

lemma eof_looks: "thread_runs eof_machine (consumer_pollCallbacks (eof_api extra)) s = (Inr (), s)"
  by (simp add: thread_runs_def eof_machine_def eof_api_def reading_defs consumer_pollCallbacks_def seqM_split)

lemma eof_poll:
  assumes "\<not> enableAutoCommit s" "maxPollRecords s \<le> MAX_VECTOR_SIZE" "handed_over (world s) = []"
    and "serve_all (eof_api extra) extra (s\<lparr>world := (world s)\<lparr>waiting := drop (maxPollRecords s) (waiting (world s)),
        handed_over := take (maxPollRecords s) (waiting (world s))\<rparr>\<rparr>) = (Inr (), s2)"
    and "\<not> enableAutoCommit s2"
  shows "poll (eof_api extra) t s = (Inr (c_topics (take (maxPollRecords s) (waiting (world s)))), s2)"
proof -
  have batch: "rd_kafka_consume_batch_queue (eof_api extra) ms n (world s) =
      ((extra, Inr (c_topics (take n (waiting (world s))))),
       (world s)\<lparr>waiting := drop n (waiting (world s)), handed_over := take n (waiting (world s))\<rparr>)" for ms n
    using assms(3) by (simp add: eof_api_def)
  show ?thesis
    using assms(1,2,4,5) by (simp add: poll_def commitStored_skip seqM_split batch storeOffsetsIfNecessary_def)
qed

definition eof_revocation :: "served list" where
  "eof_revocation = [Served_rebalance RD_KAFKA_RESP_ERR__REVOKE_PARTITIONS (Some [rktp_of ((''t'', 0), 0)])]"

lemma eof_revoked:
  assumes "cooperativeEnabled s = Some False" "rebalanceCb s = rebalanceCb_handle" "pendingEvent s = None"
  shows "\<exists>s2. serve_all (eof_api extra) eof_revocation s = (Inr (), s2) \<and> world s2 = world s \<and>
    events s2 = events s @ [RebalanceEvent 1 PartitionsRevoked [(''t'', 0)]] \<and> enableAutoCommit s2 = enableAutoCommit s"
  using assms
  by (simp add: eof_revocation_def serve_def onRebalance_revoke Let_def changeAssignment_eq library_change_def learn_protocol_def
      clear_pending_def notified_def rebalance_event_def seqM_split isCooperativeEnabled_def rebalanceCb_handle_def getTopicPartitions_def elems_of_def rktp_of_def c_str_def
      throw_if_def eof_api_def reading_defs)

text \<open>A run to the end of the partition, and a run that stops with the second message still waiting.\<close>

theorem rebalance_example_ends_witness:
  "(\<exists>s' v'. rebalance_reading (eof_api []) eof_machine 2 ''t'' (eof_start 2, rebalance_start) = (Inr (), (s', v')) \<and>
      set (ended_partitions (c_topics (handed_over (world s')))) = set [(''t'', 0)]) \<and>
   (\<exists>s' v'. rebalance_reading (eof_api eof_revocation) eof_machine 2 ''t'' (eof_start 1, rebalance_start) = (Inr (), (s', v')) \<and>
      waiting (world s') \<noteq> [])"
proof
  note once = numeral_2_eq_2
  have start: "c_topics (handed_over (world (eof_start k))) = []" for k
    by (simp add: c_topics_def eof_start_def consumer_default_def client_default_def client.defs reading_start_def)
  have max: "2 \<le> MAX_VECTOR_SIZE" "1 \<le> MAX_VECTOR_SIZE" by (simp_all add: MAX_VECTOR_SIZE_def)
  have all: "take 2 eof_messages = eof_messages" "take 1 eof_messages = [hd eof_messages]" "drop 1 eof_messages \<noteq> []"
    by (simp_all add: eof_messages_def)
  let ?loop = "\<lambda>x. poll_loop (eof_api x) eof_machine partitions_left (show_records (note_record (the_lib (eof_api x)) eof_machine)) ()"
  let ?v = "rebalance_start\<lparr>finishedPartitions := []\<rparr>"
  show "\<exists>s' v'. rebalance_reading (eof_api []) eof_machine 2 ''t'' (eof_start 2, rebalance_start) = (Inr (), (s', v')) \<and>
      set (ended_partitions (c_topics (handed_over (world s')))) = set [(''t'', 0)]"
  proof -
    obtain s1 where sub: "subscribe (eof_api []) 2 [''t''] rebalanceCb_handle DEFAULT_SUBSCRIBE_TIMEOUT_MS (eof_start 2) = (Inr (), s1)"
      and s1: "events s1 = [RebalanceEvent 1 PartitionsAssigned [(''t'', 0)]]" "world s1 = reading_start eof_messages"
        "maxPollRecords s1 = 2" "\<not> enableAutoCommit s1"
      using eof_subscribe [of "[]" 1 2] unfolding once by auto
    define s2 where "s2 = s1\<lparr>world := (world s1)\<lparr>waiting := drop 2 eof_messages, handed_over := eof_messages\<rparr>\<rparr>"
    have s2: "events s2 = events s1" "handed_over (world s2) = eof_messages" by (simp_all add: s2_def)
    have poll: "poll (eof_api []) t s1 = (Inr eof_messages, s2)" for t
      using eof_poll [of s1 "[]" s2 t] s1 max all by (simp add: s2_def reading_start_def eof_messages_facts)
    obtain v1 where v1: "show_records (note_record (the_lib (eof_api [])) eof_machine) eof_messages (s2, ?v) =
        (Inr (None :: unit option), (s2, v1))"
      and fin: "set (finishedPartitions v1) = {(''t'', 0)}" "strictly_sorted (finishedPartitions v1)"
      using note_all [of "the_lib (eof_api [])" eof_machine eof_messages s2 ?v] by (auto simp: eof_messages_facts)
    have one: "length (finishedPartitions v1) = 1"
      using fin distinct_card [of "finishedPartitions v1"] by (simp add: strict_sorted_iff)
    have counted: "assignedPartitions (events s1) = 1" by (simp add: s1(1) assignedPartitions_def)
    have "?loop [] 2 (s1, ?v) = (Inr (), (s2, v1))"
      unfolding once
      by (simp add: poll_round_def seqM_split eof_looks partitions_left_run s2(1) counted [unfolded One_nat_def]
          one [unfolded One_nat_def] poll v1)
    then have run: "rebalance_reading (eof_api []) eof_machine 2 ''t'' (eof_start 2, rebalance_start) = (Inr (), (s2, v1))"
      using sub by (simp add: rebalance_reading_def subscribed_def seqM_split)
    from rebalance_example_ends [OF eof_observed start, THEN conjunct1, rule_format, OF run, THEN conjunct2,
        rule_format, of 1 "[(''t'', 0)]"]
    have "set (ended_partitions (c_topics (handed_over (world s2)))) = set [(''t'', 0)]"
      using s1(1) s2 by (simp add: eof_messages_facts)
    with run show ?thesis by blast
  qed
  obtain s1 where sub: "subscribe (eof_api eof_revocation) 2 [''t''] rebalanceCb_handle DEFAULT_SUBSCRIBE_TIMEOUT_MS (eof_start 1) = (Inr (), s1)"
    and s1: "events s1 = [RebalanceEvent 1 PartitionsAssigned [(''t'', 0)]]" "world s1 = reading_start eof_messages"
      "maxPollRecords s1 = 1" "\<not> enableAutoCommit s1" "cooperativeEnabled s1 = Some False" "rebalanceCb s1 = rebalanceCb_handle"
      "pendingEvent s1 = None"
    using eof_subscribe [of eof_revocation 1 1] unfolding once by auto
  let ?w = "(world s1)\<lparr>waiting := drop 1 eof_messages, handed_over := [hd eof_messages]\<rparr>"
  obtain s2 where serve: "serve_all (eof_api eof_revocation) eof_revocation (s1\<lparr>world := ?w\<rparr>) = (Inr (), s2)"
    and s2: "world s2 = ?w" "events s2 = events s1 @ [RebalanceEvent 1 PartitionsRevoked [(''t'', 0)]]" "\<not> enableAutoCommit s2"
    using eof_revoked [of "s1\<lparr>world := ?w\<rparr>" eof_revocation] s1 by auto
  have poll: "poll (eof_api eof_revocation) t s1 = (Inr [hd eof_messages], s2)" for t
    using eof_poll [of s1 eof_revocation s2 t] s1 max all serve s2(3) by (simp add: reading_start_def eof_messages_facts)
  obtain v2 where v2: "show_records (note_record (the_lib (eof_api eof_revocation)) eof_machine) [hd eof_messages] (s2, ?v) =
      (Inr (None :: unit option), (s2, v2))"
    using note_all [of "the_lib (eof_api eof_revocation)" eof_machine "[hd eof_messages]" s2 ?v] by blast
  have rounds: "?loop eof_revocation 1 (s1, ?v) = (Inl Out_of_fuel, (s2, v2))"
    by (simp add: poll_round_def seqM_split eof_looks partitions_left_run s1(1) assignedPartitions_def poll v2)
  have ended: "ended_partitions (c_topics (handed_over (world s2))) = []"
    by (simp add: s2(1) eof_messages_facts)
  have "rebalance_reading (eof_api eof_revocation) eof_machine 2 ''t'' (eof_start 1, rebalance_start) = (Inr (), (s2, v2))"
  proof (rule rebalance_example_ends [OF eof_observed start, THEN conjunct2, rule_format], intro conjI)
    show "subscribe (eof_api eof_revocation) 2 [''t''] rebalanceCb_handle DEFAULT_SUBSCRIBE_TIMEOUT_MS (eof_start 1) = (Inr (), s1)"
      by (rule sub)
    show "(1 :: nat) < 2" by simp
    show "?loop eof_revocation 1 (s1, ?v) = (Inl Out_of_fuel, (s2, v2))" by (rule rounds)
    show "thread_runs eof_machine (consumer_pollCallbacks (eof_api eof_revocation)) s2 = (Inr (), s2)" by (rule eof_looks)
    show "filter is_rebalance (events s2) = [RebalanceEvent 1 PartitionsAssigned [(''t'', 0)], RebalanceEvent 1 PartitionsRevoked [(''t'', 0)]]"
      by (simp add: s2(2) s1(1))
    show "ended_partitions (c_topics (handed_over (world s2))) = []" by (rule ended)
  qed
  then show "\<exists>s' v'. rebalance_reading (eof_api eof_revocation) eof_machine 2 ''t'' (eof_start 1, rebalance_start) = (Inr (), (s', v')) \<and>
      waiting (world s') \<noteq> []"
    using s2(1) all(3) by auto
qed

end
