(* ===== verification/Example_Producers.thy ===== *)
theory Example_Producers
  imports Producer_Programs
begin

text \<open>
  The programs under \<open>src/examples\<close> that write, whole, and the two that only print. The random part of the
  client id is an argument. Where a program keeps a line alive by a shared pointer for the library to read
  later, the string is not written again, and its content is what is sent; the one program that shares
  a string between lines has its strings in a store.
\<close>

section \<open>Sending a line\<close>

definition writing_block ::
  "('w, 'n) producer_api_scheme \<Rightarrow> (exn \<Rightarrow> bool) \<Rightarrow> string \<Rightarrow> exn + Properties \<Rightarrow> ('v, exn, unit) prog \<Rightarrow>
     (string \<Rightarrow> ('w producer \<times> 'v, exn, bool) prog) \<Rightarrow> ('w producer, exn, unit) prog \<Rightarrow> nat \<Rightarrow>
     ('w producer \<times> 'v) \<times> reader \<Rightarrow> unit outcome \<times> ('w producer \<times> 'v) \<times> reader" where
  "writing_block A handled random config before work after fuel s =
     (case config of
        Inl e \<Rightarrow> (unhandled handled e, s)
      | Inr props \<Rightarrow> writing_program A handled random props before work after fuel s)"

definition tell_writer :: "tool_output list \<Rightarrow> ('s \<times> 'v screen_scheme) \<times> reader \<Rightarrow> ('s \<times> 'v screen_scheme) \<times> reader" where
  "tell_writer lines s = (tell_screen lines (fst s), snd s)"

definition deliveryCb :: delivery_cb where
  "deliveryCb = User_callback (Some 1)"

fun delivery_text :: "string \<Rightarrow> string \<Rightarrow> rdkafka_lib \<Rightarrow> (int \<Rightarrow> string) \<Rightarrow> client_event \<Rightarrow> std_exn + tool_output list" where
  \<comment> \<open>what the callback prints, after one of two phrases\<close>
  "delivery_text delivered failed L localSeconds (DeliveryEvent h metadata err) =
     (if \<not> error_set err then
        (case rm_toString L (timestamp_seconds localSeconds) metadata of
           Inl e \<Rightarrow> Inl e | Inr str \<Rightarrow> Inr [Out_line (delivered @ str)])
      else Inr [Err_line (failed @ error_message L err)])"
| "delivery_text delivered failed L localSeconds ev = Inr []"

definition example_delivery_text :: "rdkafka_lib \<Rightarrow> (int \<Rightarrow> string) \<Rightarrow> client_event \<Rightarrow> std_exn + tool_output list" where
  "example_delivery_text = delivery_text ''Message delivered: '' ''Message failed to be delivered: ''"

definition async_delivery_text :: "rdkafka_lib \<Rightarrow> (int \<Rightarrow> string) \<Rightarrow> client_event \<Rightarrow> std_exn + tool_output list" where
  "async_delivery_text = delivery_text ''% Message delivered: '' ''% Message delivery failed: ''"

definition line_record :: "('w, 'n) producer_api_scheme \<Rightarrow> string \<Rightarrow> string \<Rightarrow> ProducerRecord" where
  "line_record A topic l = ProducerRecord_unassigned (the_lib A) topic NullBuffer (Some l)"

definition send_line ::
  "('w, 'n) producer_api_scheme \<Rightarrow> ('w, 'x) machine_scheme \<Rightarrow> SendOption \<Rightarrow> string \<Rightarrow> string \<Rightarrow>
     (('w, 'm) producer_scheme \<times> 'v, exn, unit) prog" where
  \<comment> \<open>the polling thread runs before the next step of \<open>main\<close>\<close>
  "send_line A M option topic l =
     seqM (on_client (send A (line_record A topic l) deliveryCb option Block)) (\<lambda>_.
     on_client (thread_runs M (producer_pollCallbacks A)))"

definition send_nonempty ::
  "('w, 'n) producer_api_scheme \<Rightarrow> ('w, 'x) machine_scheme \<Rightarrow> SendOption \<Rightarrow> string \<Rightarrow> string \<Rightarrow>
     (('w, 'm) producer_scheme \<times> 'v, exn, bool) prog" where
  "send_nonempty A M option topic l =
     (if l = [] then ret False else seqM (send_line A M option topic l) (\<lambda>_. ret True))"

definition send_then_look ::
  "('w, 'n) producer_api_scheme \<Rightarrow> ('w, 'x) machine_scheme \<Rightarrow> SendOption \<Rightarrow> string \<Rightarrow> string \<Rightarrow>
     (('w, 'm) producer_scheme \<times> 'v, exn, bool) prog" where
  "send_then_look A M option topic l = seqM (send_line A M option topic l) (\<lambda>_. ret (l \<noteq> []))"

section \<open>example_KafkaProducer_DeepCopy.cc and example_KafkaProducer_Lifecycle.cc\<close>

definition lines_main ::
  "('w, 'n) producer_api_scheme \<Rightarrow> ('w, 'x) machine_scheme \<Rightarrow> nat \<Rightarrow> string \<Rightarrow> SendOption \<Rightarrow> string \<Rightarrow> string \<Rightarrow>
     ('w producer \<times> 'v screen_scheme) \<times> reader \<Rightarrow> unit outcome \<times> ('w producer \<times> 'v screen_scheme) \<times> reader" where
  "lines_main A M fuel random option servers topic =
     writing_block A (\<lambda>_. False) random (string_properties [(''bootstrap.servers'', servers)])
       (say [Out_line ''Type message value and hit enter to produce message... (empty line to quit)''])
       (send_nonempty A M option topic) (close_producer A InfiniteTimeout) fuel"

definition example_KafkaProducer_DeepCopy ::
  "('w, 'n) producer_api_scheme \<Rightarrow> ('w, 'x) machine_scheme \<Rightarrow> nat \<Rightarrow> string \<Rightarrow> (string \<Rightarrow> string option) \<Rightarrow>
     ('w producer \<times> 'v screen_scheme) \<times> reader \<Rightarrow> ending \<times> ('w producer \<times> 'v screen_scheme) \<times> reader" where
  "example_KafkaProducer_DeepCopy A M fuel random getenv =
     with_environment getenv (lines_main A M fuel random ToCopyRecordValue)"

definition example_KafkaProducer_Lifecycle ::
  "('w, 'n) producer_api_scheme \<Rightarrow> ('w, 'x) machine_scheme \<Rightarrow> nat \<Rightarrow> string \<Rightarrow> (string \<Rightarrow> string option) \<Rightarrow>
     ('w producer \<times> 'v screen_scheme) \<times> reader \<Rightarrow> ending \<times> ('w producer \<times> 'v screen_scheme) \<times> reader" where
  "example_KafkaProducer_Lifecycle A M fuel random getenv =
     with_environment getenv (lines_main A M fuel random NoCopyRecordValue)"

section \<open>example_KafkaProducer_Simple.cc\<close>

definition simple_writing ::
  "('w, 'n) producer_api_scheme \<Rightarrow> ('w, 'x) machine_scheme \<Rightarrow> string \<Rightarrow>
     (('w producer \<times> 'v screen_scheme) \<times> reader, exn, unit) prog" where
  \<comment> \<open>the stream is not looked at after reading\<close>
  "simple_writing A M topic =
     seqM (on_client (on_vars (say [Out_line ''Type message value and hit enter to produce message...'']))) (\<lambda>_.
     seqM (on_vars read_line) (\<lambda>_.
     seqM (on_vars (getM cur_line)) (\<lambda>l.
     seqM (on_client (send_line A M NoCopyRecordValue topic l)) (\<lambda>_.
     on_client (on_client (close_producer A InfiniteTimeout))))))"

definition simple_main ::
  "('w, 'n) producer_api_scheme \<Rightarrow> ('w, 'x) machine_scheme \<Rightarrow> string \<Rightarrow> string \<Rightarrow> string \<Rightarrow>
     ('w producer \<times> 'v screen_scheme) \<times> reader \<Rightarrow> unit outcome \<times> ('w producer \<times> 'v screen_scheme) \<times> reader" where
  "simple_main A M random servers topic s =
     (case string_properties [(''bootstrap.servers'', servers)] of
        Inl e \<Rightarrow> (Fatal e, s)
      | Inr props \<Rightarrow> in_scope (\<lambda>_. False) (on_client (on_client (construct_producer A random props)))
          (simple_writing A M topic) (on_client (on_client (destroy_producer A))) s)"

definition example_KafkaProducer_Simple ::
  "('w, 'n) producer_api_scheme \<Rightarrow> ('w, 'x) machine_scheme \<Rightarrow> string \<Rightarrow> (string \<Rightarrow> string option) \<Rightarrow>
     ('w producer \<times> 'v screen_scheme) \<times> reader \<Rightarrow> ending \<times> ('w producer \<times> 'v screen_scheme) \<times> reader" where
  "example_KafkaProducer_Simple A M random getenv = with_environment getenv (simple_main A M random)"

section \<open>kafka_async_producer_copy_payload.cc and kafka_async_producer_not_copy_payload.cc\<close>

definition idempotent_config :: "string \<Rightarrow> exn + Properties" where
  "idempotent_config servers = string_properties [(''bootstrap.servers'', servers), (''enable.idempotence'', ''true'')]"

definition async_heading :: tool_output where
  "async_heading = Out_line ''% Type message value and hit enter to produce message. (empty line to quit)''"

definition async_main ::
  "('w, 'n) producer_api_scheme \<Rightarrow> ('w, 'x) machine_scheme \<Rightarrow> nat \<Rightarrow> string \<Rightarrow> SendOption \<Rightarrow> string \<Rightarrow> string \<Rightarrow>
     ('w producer \<times> 'v screen_scheme) \<times> reader \<Rightarrow> unit outcome \<times> ('w producer \<times> 'v screen_scheme) \<times> reader" where
  \<comment> \<open>the block of \<open>try\<close>\<close>
  "async_main A M fuel random option servers topic =
     writing_block A kafka_exception random (idempotent_config servers) (say [async_heading])
       (send_then_look A M option topic) (ret ()) fuel"

definition kafka_async_producer_copy_payload ::
  "('w, 'n) producer_api_scheme \<Rightarrow> ('w, 'x) machine_scheme \<Rightarrow> nat \<Rightarrow> string \<Rightarrow> string list \<Rightarrow>
     ('w producer \<times> 'v screen_scheme) \<times> reader \<Rightarrow> ending \<times> ('w producer \<times> 'v screen_scheme) \<times> reader" where
  "kafka_async_producer_copy_payload A M fuel random argv =
     with_arguments tell_writer argv (async_main A M fuel random ToCopyRecordValue)"

definition kafka_async_producer_not_copy_payload ::
  "('w, 'n) producer_api_scheme \<Rightarrow> ('w, 'x) machine_scheme \<Rightarrow> nat \<Rightarrow> string \<Rightarrow> string list \<Rightarrow>
     ('w producer \<times> 'v screen_scheme) \<times> reader \<Rightarrow> ending \<times> ('w producer \<times> 'v screen_scheme) \<times> reader" where
  "kafka_async_producer_not_copy_payload A M fuel random argv =
     with_arguments tell_writer argv (async_main A M fuel random NoCopyRecordValue)"

section \<open>kafka_sync_producer.cc\<close>

definition sync_line ::
  "('w, 'n) producer_api_scheme \<Rightarrow> ('w, 'x) machine_scheme \<Rightarrow> nat \<Rightarrow> string \<Rightarrow> string \<Rightarrow>
     (('w, 'm) producer_scheme \<times> 'v screen_scheme, exn, unit) prog" where
  \<comment> \<open>the inner \<open>try\<close>\<close>
  "sync_line A M fuel topic l =
     catchM
       (seqM (on_client (syncSend A fuel (line_record A topic l))) (\<lambda>metadata.
        seqM (liftE (lift_std (rm_toString (the_lib A) (timestamp_seconds (local_seconds M)) metadata))) (\<lambda>str.
        on_vars (say [Out_line (''% Message delivered: '' @ str)]))))
       (\<lambda>e. case e of
          KafkaException err \<Rightarrow> on_vars (say [Err_line (''% Message delivery failed: '' @ error_message (the_lib A) err)])
        | _ \<Rightarrow> throw e)"

definition sync_then_look ::
  "('w, 'n) producer_api_scheme \<Rightarrow> ('w, 'x) machine_scheme \<Rightarrow> nat \<Rightarrow> string \<Rightarrow> string \<Rightarrow>
     (('w, 'm) producer_scheme \<times> 'v screen_scheme, exn, bool) prog" where
  "sync_then_look A M fuel topic l = seqM (sync_line A M fuel topic l) (\<lambda>_. ret (l \<noteq> []))"

definition sync_main ::
  "('w, 'n) producer_api_scheme \<Rightarrow> ('w, 'x) machine_scheme \<Rightarrow> nat \<Rightarrow> string \<Rightarrow> string \<Rightarrow> string \<Rightarrow>
     ('w producer \<times> 'v screen_scheme) \<times> reader \<Rightarrow> unit outcome \<times> ('w producer \<times> 'v screen_scheme) \<times> reader" where
  "sync_main A M fuel random servers topic =
     writing_block A kafka_exception random (idempotent_config servers) (say [async_heading])
       (sync_then_look A M fuel topic) (ret ()) fuel"

definition kafka_sync_producer ::
  "('w, 'n) producer_api_scheme \<Rightarrow> ('w, 'x) machine_scheme \<Rightarrow> nat \<Rightarrow> string \<Rightarrow> string list \<Rightarrow>
     ('w producer \<times> 'v screen_scheme) \<times> reader \<Rightarrow> ending \<times> ('w producer \<times> 'v screen_scheme) \<times> reader" where
  "kafka_sync_producer A M fuel random argv = with_arguments tell_writer argv (sync_main A M fuel random)"

section \<open>example_KafkaProducer_EnableManualEventsPoll.cc\<close>

text \<open>
  \<open>strings\<close> is the store of the strings behind shared pointers, \<open>messages\<close> the queue of pointers. The
  lambda of a send captures the pointer, which is its handle; the events of a poll say which lambdas ran.
\<close>

record retry_vars = screen +
  strings :: "nat \<Rightarrow> string"
  messages :: "nat list"

definition retry_start :: retry_vars where
  "retry_start = \<lparr>printed = [], strings = (\<lambda>_. []), messages = []\<rparr>"

definition getline_into :: "nat \<Rightarrow> ('v retry_vars_scheme \<times> istream, exn, bool) prog" where
  "getline_into p = (\<lambda>(v, i). case getline i (strings v p) of
     (i', str) \<Rightarrow> (Inr (\<not> failbit i'), (v\<lparr>strings := (strings v)(p := str)\<rparr>, i')))"

primrec collect_lines :: "nat \<Rightarrow> nat \<Rightarrow> ('v retry_vars_scheme \<times> istream, exn, unit) prog" where
  \<comment> \<open>the loop over the input; its initialisation made the string at \<open>p\<close>\<close>
  "collect_lines p 0 = throw Out_of_fuel"
| "collect_lines p (Suc n) = seqM (getline_into p) (\<lambda>good.
     seqM (on_client (getM (\<lambda>v. strings v p))) (\<lambda>line.
     if good \<and> line \<noteq> [] then
       seqM (on_client (modM (\<lambda>v. v\<lparr>messages := messages v @ [p]\<rparr>))) (\<lambda>_. collect_lines p n)
     else ret ()))"

fun retried :: "client_event \<Rightarrow> nat list" where
  "retried (DeliveryEvent h metadata err) = (if error_set err then [h] else [])"
| "retried ev = []"

definition retry_delivery_text :: "rdkafka_lib \<Rightarrow> (int \<Rightarrow> string) \<Rightarrow> client_event \<Rightarrow> std_exn + tool_output list" where
  "retry_delivery_text L localSeconds ev =
     (case delivery_text ''Message delivered: '' ''Message failed to be delivered: '' L localSeconds ev of
        Inr [Err_line str] \<Rightarrow> Inr [Err_line (str @ '', will be retried later'')] | r \<Rightarrow> r)"

definition calling_back ::
  "(('w, 'm) producer_scheme, exn, unit) prog \<Rightarrow> (('w, 'm) producer_scheme \<times> 'v retry_vars_scheme, exn, unit) prog" where
  \<comment> \<open>a call that serves callbacks, and what the callbacks push back\<close>
  "calling_back m = seqM (on_client (getM (\<lambda>s. length (events s)))) (\<lambda>n. (\<lambda>sv.
     case on_client m sv of (r, (s, v)) \<Rightarrow>
       (r, (s, v\<lparr>messages := messages v @ concat (map retried (drop n (events s)))\<rparr>))))"

definition retry_body ::
  "('w, 'n) producer_api_scheme \<Rightarrow> string \<Rightarrow> (('w, 'm) producer_scheme \<times> 'v retry_vars_scheme, exn, unit option) prog" where
  "retry_body A topic = seqM (on_vars (getM messages)) (\<lambda>ms. case ms of
       [] \<Rightarrow> ret (Some ())
     | payload # rest \<Rightarrow>
         seqM (on_vars (modM (\<lambda>v. v\<lparr>messages := rest\<rparr>))) (\<lambda>_.
         seqM (on_vars (getM (\<lambda>v. strings v payload))) (\<lambda>content.
         seqM (on_client (send A (line_record A topic content) (User_callback (Some payload)) NoCopyRecordValue Block)) (\<lambda>_.
         seqM (calling_back (pollEvents (producer_pollCallbacks A) 0)) (\<lambda>_. ret None)))))"

fun retry_loop ::
  "('w, 'n) producer_api_scheme \<Rightarrow> string \<Rightarrow> nat \<Rightarrow> (('w, 'm) producer_scheme \<times> 'v retry_vars_scheme, exn, unit) prog" where
  "retry_loop A topic 0 = throw Out_of_fuel"
| "retry_loop A topic (Suc n) =
     seqM (retry_body A topic) (\<lambda>r. case r of Some x \<Rightarrow> ret x | None \<Rightarrow> retry_loop A topic n)"

interpretation retrying: fuel_loop "retry_loop A topic" "retry_body A topic" Out_of_fuel
  for A :: "('w, 'n) producer_api_scheme" and topic
  by unfold_locales auto

definition retry_writing ::
  "('w, 'n) producer_api_scheme \<Rightarrow> nat \<Rightarrow> string \<Rightarrow>
     (('w, 'm) producer_scheme \<times> 'v retry_vars_scheme, exn, unit) prog \<Rightarrow>
     (('w, 'm) producer_scheme \<times> 'v retry_vars_scheme, exn, unit) prog" where
  "retry_writing A fuel topic read_lines =
     seqM (on_vars (say [Out_line ''Type message value and hit enter to produce message... (empty line to finish)''])) (\<lambda>_.
     seqM read_lines (\<lambda>_.
     seqM (retry_loop A topic fuel) (\<lambda>_.
     calling_back (close_producer A InfiniteTimeout))))"

definition reading_all :: "string \<Rightarrow> nat \<Rightarrow> (('w, 'm) producer_scheme \<times> 'v retry_vars_scheme, exn, unit) prog" where
  \<comment> \<open>the first pointer made is 0; the input is not read again\<close>
  "reading_all content fuel = (\<lambda>(s, v). case collect_lines 0 fuel (v\<lparr>strings := (strings v)(0 := [])\<rparr>, istream_of content) of
     (r, (v', i)) \<Rightarrow> (r, (s, v')))"

definition manual_poll_main ::
  "('w, 'n) producer_api_scheme \<Rightarrow> nat \<Rightarrow> string \<Rightarrow> string \<Rightarrow> string \<Rightarrow> string \<Rightarrow>
     'w producer \<times> 'v retry_vars_scheme \<Rightarrow> unit outcome \<times> 'w producer \<times> 'v retry_vars_scheme" where
  "manual_poll_main A fuel random content servers topic sv =
     (case string_properties [(''bootstrap.servers'', servers), (''enable.manual.events.poll'', ''true'')] of
        Inl e \<Rightarrow> (Fatal e, sv)
      | Inr props \<Rightarrow> in_scope (\<lambda>_. False) (on_client (construct_producer A random props))
          (retry_writing A fuel topic (reading_all content fuel)) (on_client (destroy_producer A)) sv)"

definition example_KafkaProducer_EnableManualEventsPoll ::
  "('w, 'n) producer_api_scheme \<Rightarrow> nat \<Rightarrow> string \<Rightarrow> (string \<Rightarrow> string option) \<Rightarrow> string \<Rightarrow>
     'w producer \<times> 'v retry_vars_scheme \<Rightarrow> ending \<times> 'w producer \<times> 'v retry_vars_scheme" where
  "example_KafkaProducer_EnableManualEventsPoll A fuel random getenv content =
     with_environment getenv (manual_poll_main A fuel random content)"

section \<open>example_ProducerRecordHeaders.cc and example_Properties.cc\<close>

definition size_t_bytes :: "nat \<Rightarrow> string" where
  \<comment> \<open>the object representation on a little-endian machine\<close>
  "size_t_bytes n = map (\<lambda>i. char_of (n div 256 ^ i mod 256)) [0..<8]"

definition headers_record :: ProducerRecord where
  "headers_record = (ProducerRecord_make ''someTopic'' 0 (Some ''some key'') (Some ''some payload''))
     \<lparr>pr_headers := [\<lparr>header_key = ''Category'', header_value = Some ''categoryA''\<rparr>,
        \<lparr>header_key = ''SessionId'', header_value = Some (size_t_bytes 1)\<rparr>]\<rparr>"

definition example_ProducerRecordHeaders :: "rdkafka_lib \<Rightarrow> tool_output list" where
  "example_ProducerRecordHeaders L = [Out_line (''ProducerRecord: '' @ pr_toString L headers_record)]"

definition sample_brokers :: string where
  "sample_brokers = ''192.168.0.1:9092,192.168.0.2:9092,192.168.0.3:9092''"

definition listed_properties :: "exn + Properties" where
  "listed_properties = string_properties [(''bootstrap.servers'', sample_brokers), (''enable.idempotence'', ''true'')]"

definition added_properties :: "exn + Properties" where
  "added_properties =
     (case seqM (props_put ''bootstrap.servers'' (StringObj sample_brokers)) (\<lambda>_.
           props_put ''enable.idempotence'' (StringObj ''true'')) [] of (Inl e, p) \<Rightarrow> Inl e | (Inr _, p) \<Rightarrow> Inr p)"

definition example_Properties :: "(callback_type \<Rightarrow> string) \<Rightarrow> exn + tool_output list" where
  "example_Properties tt =
     (case listed_properties of Inl e \<Rightarrow> Inl e | Inr props \<Rightarrow>
     (case added_properties of Inl e \<Rightarrow> Inl e | Inr props' \<Rightarrow>
        Inr [Out_line (''Properties: '' @ props_toString tt props), Out_line (''Properties: '' @ props_toString tt props')]))"

end
