(* ===== verification/Example_Producers_Correct.thy ===== *)
theory Example_Producers_Correct
  imports Example_Producers
begin

text \<open>
  What the example programs that write hand to the library, compared with their input.
\<close>

section \<open>Configurations\<close>

lemma writing_config:
  assumes "string_properties kvs = Inr p" "\<forall>kv\<in>set kvs. fst kv \<notin> set nonStringValueKeys"
    and "map_of (rev kvs) BOOTSTRAP_SERVERS \<noteq> None"
    and "\<forall>k\<in>{LOG_LEVEL, PARTITIONER, MAX_IN_FLIGHT, ACKS}. map_of (rev kvs) k = None"
    and "map_of (rev kvs) ENABLE_MANUAL_EVENTS_POLL \<in> {None, Some ''true''}"
  shows "sound_client p" "\<exists>q. producer_validate random p = Inr q"
    "manual_of p \<longleftrightarrow> map_of (rev kvs) ENABLE_MANUAL_EVENTS_POLL = Some ''true''"
proof -
  obtain p' where "string_properties kvs = Inr p'" "props_ok p'" "\<And>k. prop_string k p' = map_of (rev kvs) k"
    using string_properties_are [OF assms(2)] by blast
  then have p: "props_ok p" "\<And>k. prop_string k p = map_of (rev kvs) k" using assms(1) by simp_all
  have switch: "valid_switch ''true''" by code_simp
  show "sound_client p" using assms(3-5) p switch by (auto simp: sound_client_def)
  show "manual_of p \<longleftrightarrow> map_of (rev kvs) ENABLE_MANUAL_EVENTS_POLL = Some ''true''"
    using assms(5) by (auto simp: manual_of_def p is_true_string_def)
  have keys: "PARTITIONER \<noteq> CLIENT_ID" "PARTITIONER \<noteq> LOG_LEVEL" "MAX_IN_FLIGHT \<noteq> CLIENT_ID" "MAX_IN_FLIGHT \<noteq> LOG_LEVEL"
    "ACKS \<noteq> CLIENT_ID" "ACKS \<noteq> LOG_LEVEL"
    by code_simp+
  have boot: "\<exists>b. map_of (rev kvs) BOOTSTRAP_SERVERS = Some b" using assms(3) by auto
  show "\<exists>q. producer_validate random p = Inr q"
    using assms(4) boot
    by (auto simp: producer_validate_def validate_eq getProperty_eq check_partitioner_def check_in_flight_def check_acks_def
        prop_string_reformed keys p)
qed

section \<open>Lines\<close>

definition line_vus :: "('w, 'n) producer_api_scheme \<Rightarrow> bool \<Rightarrow> delivery_cb \<Rightarrow> SendOption \<Rightarrow> string \<Rightarrow> string \<Rightarrow> rd_kafka_vu_t list" where
  \<comment> \<open>what is handed over for a line\<close>
  "line_vus A manual cb option topic l = record_vus (line_record A topic l)
     (message_flags A (\<not> manual) option Block) \<lparr>opaque_recordId = None, opaque_deliveryCb = cb\<rparr>"

lemma sent_line:
  "sent_vus A s (line_record A topic l) cb option Block = line_vus A (enableManualEventsPoll s) cb option topic l"
  by (simp add: line_vus_def isWithAutoEventsPolling_def line_record_def ProducerRecord_unassigned_def ProducerRecord_make_def)

lemma send_line_logged:
  fixes A :: "('w, 'n) producer_api_scheme" and s :: "('w, 'm) producer_scheme"
  assumes logs: "logs_sends A M sent" and run: "send_line A M option topic l (s, v) = (r, (s', v'))"
  shows "sent (world s') = sent (world s) @ [line_vus A (enableManualEventsPoll s) deliveryCb option topic l] \<and>
    enableManualEventsPoll s' = enableManualEventsPoll s \<and> opened s' = opened s"
proof -
  have quiet: "quiet_producing A M sent" using logs by (simp add: logs_sends_def)
  obtain r1 s1 where one: "send A (line_record A topic l) deliveryCb option Block s = (r1, s1)" by fastforce
  have "sent (world s1) = sent (world s) @ [line_vus A (enableManualEventsPoll s) deliveryCb option topic l]"
    "enableManualEventsPoll s1 = enableManualEventsPoll s" "opened s1 = opened s"
    using send_logged [OF logs, of "line_record A topic l" deliveryCb option Block s] one by (simp_all add: sent_line)
  moreover have "same_sender sent s1 s'"
    using senderD [OF sender_thread_runs [OF quiet], of s1] run by (cases r1) (auto simp: send_line_def seqM_split one)
  ultimately show ?thesis by (simp add: same_sender_def)
qed

lemma lines_logged:
  fixes A :: "('w, 'n) producer_api_scheme" and M :: "('w, 'x) machine_scheme"
  assumes "logs_sends A M sent"
  shows "sends_each sent manual (\<lambda>l. [line_vus A manual deliveryCb option topic l]) (\<lambda>l. l \<noteq> [])
      (send_then_look A M option topic :: string \<Rightarrow> (('w, 'm) producer_scheme \<times> 'v, exn, bool) prog)" (is ?look)
    and "sends_each sent manual (\<lambda>l. if l = [] then [] else [line_vus A manual deliveryCb option topic l]) (\<lambda>l. l \<noteq> [])
      (send_nonempty A M option topic :: string \<Rightarrow> (('w, 'm) producer_scheme \<times> 'v, exn, bool) prog)" (is ?skip)
proof -
  show ?look
  proof (rule sends_eachI)
    fix l r s' v' and s :: "('w, 'm) producer_scheme" and v :: 'v
    assume manual: "enableManualEventsPoll s = manual" and run: "send_then_look A M option topic l (s, v) = (r, (s', v'))"
    obtain r1 where "send_line A M option topic l (s, v) = (r1, (s', v'))" "\<forall>go_on. r = Inr go_on \<longrightarrow> go_on = (l \<noteq> [])"
      using run by (cases "send_line A M option topic l (s, v)") (auto simp: send_then_look_def seqM_split split: sum.splits)
    with send_line_logged [OF assms this(1)] manual
    show "sent (world s') = sent (world s) @ [line_vus A manual deliveryCb option topic l] \<and> enableManualEventsPoll s' = manual \<and>
      opened s' = opened s \<and> (\<forall>go_on. r = Inr go_on \<longrightarrow> go_on = (l \<noteq> []))" by simp
  qed
  show ?skip
  proof (rule sends_eachI)
    fix l r s' v' and s :: "('w, 'm) producer_scheme" and v :: 'v
    assume manual: "enableManualEventsPoll s = manual" and run: "send_nonempty A M option topic l (s, v) = (r, (s', v'))"
    show "sent (world s') = sent (world s) @ (if l = [] then [] else [line_vus A manual deliveryCb option topic l]) \<and>
      enableManualEventsPoll s' = manual \<and> opened s' = opened s \<and> (\<forall>go_on. r = Inr go_on \<longrightarrow> go_on = (l \<noteq> []))"
    proof (cases "l = []")
      case True
      then show ?thesis using run manual by (auto simp: send_nonempty_def)
    next
      case False
      obtain r1 where "send_line A M option topic l (s, v) = (r1, (s', v'))" "\<forall>go_on. r = Inr go_on \<longrightarrow> go_on"
        using run False by (cases "send_line A M option topic l (s, v)") (auto simp: send_nonempty_def seqM_split split: sum.splits)
      with send_line_logged [OF assms this(1)] manual False show ?thesis by simp
    qed
  qed
qed

text \<open>
  The programs that send without waiting: the lines up to the first empty one, the examples \<open>kafka_async_..\<close>
  with the empty one, the examples \<open>example_KafkaProducer_..\<close> without it.
\<close>

lemma async_main_sends:
  assumes "logs_sends A M sent" "quiet_setup A sent" "takes_clients A" "length (lines_of content) < fuel"
    and "async_main A M fuel random option servers topic ((producer_default w, v), reader_of content) = (x, ((s', v'), rd))"
  shows "\<exists>k\<le>length (up_to_stop (\<lambda>l. l \<noteq> []) (lines_of content)). sent (world s') = sent w @
      map (line_vus A False deliveryCb option topic) (take k (up_to_stop (\<lambda>l. l \<noteq> []) (lines_of content))) \<and>
    (x = Finished () \<longrightarrow> k = length (up_to_stop (\<lambda>l. l \<noteq> []) (lines_of content)))"
proof -
  let ?kvs = "[(''bootstrap.servers'', servers), (''enable.idempotence'', ''true'')]"
  have plain: "\<forall>kv\<in>set ?kvs. fst kv \<notin> set nonStringValueKeys" by (simp add: nonStringValueKeys_def config_keys)
  obtain p where p: "string_properties ?kvs = Inr p" using string_properties_are [OF plain] by blast
  obtain q where q: "sound_client p" "producer_validate random p = Inr q" "\<not> manual_of p"
    using writing_config(1,3) [OF p plain] writing_config(2) [OF p plain, of random] by (auto simp: config_keys)
  from writing_program_sends [OF assms(1-3) q(1,2) lines_logged(1) [OF assms(1)] _ assms(4)
      assms(5) [unfolded async_main_def writing_block_def idempotent_config_def p sum.case]]
  show ?thesis using q(3) by simp
qed

section \<open>The shared string of example_KafkaProducer_EnableManualEventsPoll\<close>

text \<open>What the loop over the input leaves in the string all its pointers share.\<close>

definition left_string :: "string \<Rightarrow> string" where
  "left_string content =
     (if [] \<in> set (lines_of content) \<or> content = [] \<or> last content = newline then [] else last (lines_of content))"

lemma newline_split:
  "newline \<notin> set l \<Longrightarrow> takeWhile (\<lambda>c. c \<noteq> newline) (l @ newline # rest) = l \<and> dropWhile (\<lambda>c. c \<noteq> newline) (l @ newline # rest) = newline # rest"
  "newline \<notin> set l \<Longrightarrow> takeWhile (\<lambda>c. c \<noteq> newline) l = l \<and> dropWhile (\<lambda>c. c \<noteq> newline) l = []"
  by (induction l) auto

lemma getline_of:
  "newline \<notin> set l \<Longrightarrow> getline (istream_of (l @ newline # rest)) str = (istream_of rest, l)"
  "newline \<notin> set l \<Longrightarrow> getline (istream_of l) str = (\<lparr>unread = [], eofbit = True, failbit = (l = [])\<rparr>, l)"
  by (simp_all add: getline_def istream_of_def newline_split)

lemma lines_of_step:
  "newline \<notin> set l \<Longrightarrow> lines_of (l @ newline # rest) = l # lines_of rest"
  "newline \<notin> set l \<Longrightarrow> lines_of l = (if l = [] then [] else [l])"
  by (subst lines_of.simps, simp add: newline_split)+

lemma collect_step:
  "collect_lines p (Suc n) (v, i) = (case getline i (strings v p) of (i', str) \<Rightarrow>
     if \<not> failbit i' \<and> str \<noteq> [] then collect_lines p n (v\<lparr>strings := (strings v)(p := str), messages := messages v @ [p]\<rparr>, i')
     else (Inr (), (v\<lparr>strings := (strings v)(p := str)\<rparr>, i')))"
  by (simp add: seqM_split getline_into_def split: prod.split)

lemma collect_eof: "eofbit i \<Longrightarrow> collect_lines p (Suc n) (v, i) = (Inr (), (v, i\<lparr>failbit := True\<rparr>))"
  unfolding collect_step by (simp add: getline_def)

lemma left_string_step:
  assumes "newline \<notin> set l"
  shows "left_string (l @ newline # rest) = (if l = [] then [] else left_string rest)"
    "left_string l = l"
proof -
  have "last (l @ newline # rest) = (if rest = [] then newline else last rest)" by simp
  moreover have "rest \<noteq> [] \<Longrightarrow> lines_of rest \<noteq> []" by (cases rest; subst lines_of.simps) (auto simp: Let_def)
  ultimately show "left_string (l @ newline # rest) = (if l = [] then [] else left_string rest)"
    by (auto simp: left_string_def lines_of_step [OF assms])
  have "l \<noteq> [] \<Longrightarrow> last l \<noteq> newline" using assms by (metis last_in_set)
  then show "left_string l = l" by (simp add: left_string_def lines_of_step(2) [OF assms])
qed

lemma collect_lines_run:
  assumes "length (lines_of content) < fuel"
  shows "\<exists>v' i'. collect_lines p fuel (v, istream_of content) = (Inr (), (v', i')) \<and> strings v' p = left_string content \<and>
    messages v' = messages v @ replicate (length (takeWhile (\<lambda>l. l \<noteq> []) (lines_of content))) p"
  using assms
proof (induction fuel arbitrary: content v)
  case (Suc n)
  show ?case
  proof (cases "newline \<in> set content")
    case False
    show ?thesis
    proof (cases "content = []")
      case False
      then obtain m where "n = Suc m" using Suc.prems \<open>newline \<notin> set content\<close> by (cases n) (simp_all add: lines_of_step(2))
      then show ?thesis
        using False \<open>newline \<notin> set content\<close>
        by (subst collect_step) (simp add: collect_eof getline_of(2) lines_of_step(2) left_string_step(2) del: collect_lines.simps)
    qed (use False in \<open>subst collect_step, simp add: getline_of(2) lines_of_step(2) left_string_step(2) del: collect_lines.simps\<close>)
  next
    case True
    then obtain l rest where content: "content = l @ newline # rest" "newline \<notin> set l" by (metis split_list_first)
    let ?v1 = "v\<lparr>strings := (strings v)(p := l), messages := messages v @ [p]\<rparr>"
    have "length (lines_of rest) < n" using Suc.prems by (simp add: content lines_of_step(1) [OF content(2)])
    note IH = Suc.IH [OF this, of ?v1]
    have start: "collect_lines p (Suc n) (v, istream_of content) =
        (if l \<noteq> [] then collect_lines p n (?v1, istream_of rest) else (Inr (), (v\<lparr>strings := (strings v)(p := l)\<rparr>, istream_of rest)))"
      unfolding collect_step content(1) getline_of(1) [OF content(2)] by (simp add: istream_of_def)
    show ?thesis
      unfolding start using IH lines_of_step(1) [OF content(2), of rest] left_string_step(1) [OF content(2), of rest]
      by (auto simp: content(1))
  qed
qed simp

text \<open>A report carries the opaque pointer of a message that was handed over, as the library documents.\<close>

definition reports_sent :: "('w, 'n) producer_api_scheme \<Rightarrow> ('w \<Rightarrow> rd_kafka_vu_t list list) \<Rightarrow> bool" where
  "reports_sent A sent \<longleftrightarrow> (\<forall>ms w. \<forall>d\<in>set (fst (producer_rd_kafka_poll A ms w)). \<forall>opq. snd d = Some opq \<longrightarrow>
     (\<exists>vus\<in>set (sent w). VTYPE_OPAQUE opq \<in> set vus))"

definition retry_inv ::
  "('w, 'n) producer_api_scheme \<Rightarrow> ('w \<Rightarrow> rd_kafka_vu_t list list) \<Rightarrow> string \<Rightarrow> string \<Rightarrow> nat \<Rightarrow>
     ('w, 'm) producer_scheme \<times> 'v retry_vars_scheme \<Rightarrow> bool" where
  "retry_inv A sent topic str k = (\<lambda>(s, v). enableManualEventsPoll s \<and> set (messages v) \<subseteq> {0} \<and> strings v 0 = str \<and>
     sent (world s) = replicate k (line_vus A True (User_callback (Some 0)) NoCopyRecordValue topic str))"

lemma opaque_of_line: "VTYPE_OPAQUE opq \<in> set (line_vus A manual cb option topic l) \<Longrightarrow> opaque_deliveryCb opq = cb"
  by (simp add: line_vus_def record_vus_def line_record_def ProducerRecord_unassigned_def ProducerRecord_make_def)

lemma retried_of_reports:
  assumes "\<forall>d\<in>set ds. \<forall>opq. snd d = Some opq \<longrightarrow> opaque_deliveryCb opq = User_callback (Some h)"
  shows "set (concat (map retried (concat (map report_events ds)))) \<subseteq> {h}"
  using assms by (induction ds) (auto simp: report_events_def split: option.splits delivery_cb.splits if_splits)

lemma calling_back_poll:
  fixes s :: "('w, 'm) producer_scheme" and v :: "'v retry_vars_scheme"
  assumes logs: "logs_sends A M sent" and reports: "reports_sent A sent" and inv: "retry_inv A sent topic str k (s, v)"
    and run: "calling_back (pollEvents (producer_pollCallbacks A) 0) (s, v) = (r, (s', v'))"
  shows "retry_inv A sent topic str k (s', v') \<and> length (messages v) \<le> length (messages v')"
proof (cases "pollable s")
  case False
  then show ?thesis using run inv by (simp add: calling_back_def pollEvents_def seqM_split retry_inv_def)
next
  case True
  let ?ms = "convertMsDurationToInt 0"
  obtain ds w where ds: "producer_rd_kafka_poll A ?ms (world s) = (ds, w)" by fastforce
  have silent: "sent w = sent (world s)"
    using logs ds unfolding logs_sends_def quiet_producing_def silent_def by (metis snd_conv)
  have "\<forall>d\<in>set ds. \<forall>opq. snd d = Some opq \<longrightarrow> opaque_deliveryCb opq = User_callback (Some 0)"
  proof (intro ballI allI impI)
    fix d opq assume d: "d \<in> set ds" "snd d = Some opq"
    then obtain vus where "vus \<in> set (sent (world s))" "VTYPE_OPAQUE opq \<in> set vus"
      using reports ds unfolding reports_sent_def by (metis fst_conv)
    then show "opaque_deliveryCb opq = User_callback (Some 0)"
      using inv by (auto simp: retry_inv_def dest: opaque_of_line)
  qed
  then have new: "set (concat (map retried (concat (map report_events (takeWhile callable ds))))) \<subseteq> {0}"
    by (intro retried_of_reports) (auto dest: set_takeWhileD)
  have "s' = deliver (the_lib A) (takeWhile callable ds) (s\<lparr>world := w\<rparr>)"
    "v' = v\<lparr>messages := messages v @ concat (map retried (concat (map report_events (takeWhile callable ds))))\<rparr>"
    using run True ds
    by (auto simp: calling_back_def pollEvents_def producer_pollCallbacks_def seqM_split deliver_all_eq deliver_def)
  then show ?thesis using inv new silent by (auto simp: retry_inv_def)
qed

lemma retry_loop_sends:
  fixes s :: "('w, 'm) producer_scheme" and v :: "'v retry_vars_scheme"
  assumes "logs_sends A M sent" "reports_sent A sent" "retry_inv A sent topic str k (s, v)"
    and "retry_loop A topic n (s, v) = (r, (s', v'))"
  shows "\<exists>k'. retry_inv A sent topic str k' (s', v') \<and> (r = Inr () \<longrightarrow> k + length (messages v) \<le> k')"
  using assms(3,4)
proof (induction n arbitrary: k s v)
  case (Suc n)
  show ?case
  proof (cases "messages v")
    case Nil
    then show ?thesis using Suc.prems by (auto simp: retry_body_def seqM_split)
  next
    case (Cons payload rest)
    let ?v1 = "v\<lparr>messages := rest\<rparr>"
    have payload: "payload = 0" using Suc.prems(1) Cons by (simp add: retry_inv_def)
    obtain r1 s1 where send: "send A (line_record A topic str) (User_callback (Some 0)) NoCopyRecordValue Block s = (r1, s1)" by fastforce
    have inv1: "retry_inv A sent topic str (Suc k) (s1, ?v1)"
      using send_logged [OF assms(1), of "line_record A topic str" "User_callback (Some 0)" NoCopyRecordValue Block s] send Suc.prems(1) Cons
      by (auto simp: retry_inv_def sent_line replicate_append_same)
    have str: "strings v 0 = str" using Suc.prems(1) by (simp add: retry_inv_def)
    show ?thesis
    proof (cases r1)
      case (Inl e)
      then show ?thesis using Suc.prems(2) inv1 by (auto simp: retry_body_def seqM_split Cons payload str send)
    next
      case (Inr u)
      obtain r2 s2 v2 where called: "calling_back (pollEvents (producer_pollCallbacks A) 0) (s1, ?v1) = (r2, (s2, v2))" by (metis prod.collapse)
      note inv2 = calling_back_poll [OF assms(1,2) inv1 called]
      show ?thesis
      proof (cases r2)
        case (Inl e)
        then show ?thesis using Suc.prems(2) inv2 Inr by (auto simp: retry_body_def seqM_split Cons payload str send called)
      next
        case (Inr u')
        then have "retry_loop A topic n (s2, v2) = (r, (s', v'))"
          using Suc.prems(2) \<open>r1 = Inr u\<close> by (simp add: retry_body_def seqM_split Cons payload str send called)
        from Suc.IH [OF conjunct1 [OF inv2] this] inv2 show ?thesis by (auto simp: Cons)
      qed
    qed
  qed
qed auto

lemma calling_back_close:
  assumes "logs_sends A M sent" "calling_back (close_producer A t) (s, v) = (r, (s', v'))"
  shows "sent (world s') = sent (world s)"
proof -
  have "s' = snd (close_producer A t s)" using assms(2) by (auto simp: calling_back_def seqM_split split: prod.splits)
  then show ?thesis using sender_close [of A M sent t s] assms(1) by (simp add: logs_sends_def)
qed

lemma retry_writing_sends:
  fixes s :: "'w producer" and v :: "'v retry_vars_scheme"
  assumes logs: "logs_sends A M sent" and reports: "reports_sent A sent" and fuel: "length (lines_of content) < fuel"
    and s: "enableManualEventsPoll s" "sent (world s) = []" "messages v = []"
    and run: "retry_writing A fuel topic (reading_all content fuel) (s, v) = (r, (s', v'))"
  shows "\<exists>k. sent (world s') = replicate k (line_vus A True (User_callback (Some 0)) NoCopyRecordValue topic (left_string content)) \<and>
    (r = Inr () \<longrightarrow> length (takeWhile (\<lambda>l. l \<noteq> []) (lines_of content)) \<le> k)"
proof -
  let ?n = "length (takeWhile (\<lambda>l. l \<noteq> []) (lines_of content))"
  let ?v0 = "v\<lparr>printed := printed v @ [Out_line ''Type message value and hit enter to produce message... (empty line to finish)'']\<rparr>"
  obtain v1 where read: "reading_all content fuel (s, ?v0) = (Inr (), (s, v1))"
    and v1: "strings v1 0 = left_string content" "messages v1 = replicate ?n 0"
    using collect_lines_run [OF fuel, of 0 "?v0\<lparr>strings := (strings ?v0)(0 := [])\<rparr>"] s(3)
    by (auto simp: reading_all_def)
  have inv: "retry_inv A sent topic (left_string content) 0 (s, v1)"
    using s v1 by (simp add: retry_inv_def set_replicate_conv_if)
  obtain r2 s2 v2 where loop: "retry_loop A topic fuel (s, v1) = (r2, (s2, v2))" by (metis prod.collapse)
  obtain k where k: "retry_inv A sent topic (left_string content) k (s2, v2)" "r2 = Inr () \<longrightarrow> ?n \<le> k"
    using retry_loop_sends [OF logs reports inv loop] v1(2) by auto
  show ?thesis
  proof (cases r2)
    case (Inl e)
    then show ?thesis
      using run k by (intro exI [of _ k]) (auto simp: retry_writing_def seqM_split read loop retry_inv_def)
  next
    case (Inr u)
    then have "calling_back (close_producer A InfiniteTimeout) (s2, v2) = (r, (s', v'))"
      using run by (simp add: retry_writing_def seqM_split read loop)
    from calling_back_close [OF logs this] k Inr show ?thesis
      by (intro exI [of _ k]) (auto simp: retry_inv_def)
  qed
qed

text \<open>C32. The example with manual polling loses its input: its loop reads every line into the same string and
  queues the same pointer again, so whatever was typed, every message it hands to the library has the
  value that reading left in that string, which is empty unless the input ends within a last line. At
  its normal end it has handed over at least as many of them as it took lines. The library's records
  are written down in order and its reports are for messages it was given.\<close>

theorem manual_poll_example_sends_one_value:
  assumes "logs_sends A M sent" "quiet_setup A sent" "takes_clients A" "reports_sent A sent"
    and "length (lines_of content) < fuel" "sent w = []" "messages v = []"
    and "manual_poll_main A fuel random content servers topic (producer_default w, v) = (x, (s', v'))"
  shows "\<exists>k. sent (world s') = replicate k (line_vus A True (User_callback (Some 0)) NoCopyRecordValue topic (left_string content)) \<and>
    (x = Finished () \<longrightarrow> length (takeWhile (\<lambda>l. l \<noteq> []) (lines_of content)) \<le> k)"
proof -
  let ?kvs = "[(''bootstrap.servers'', servers), (''enable.manual.events.poll'', ''true'')]"
  have plain: "\<forall>kv\<in>set ?kvs. fst kv \<notin> set nonStringValueKeys" by (simp add: nonStringValueKeys_def config_keys)
  obtain p where p: "string_properties ?kvs = Inr p" using string_properties_are [OF plain] by blast
  obtain q where q: "sound_client p" "producer_validate random p = Inr q" "manual_of p"
    using writing_config(1,3) [OF p plain] writing_config(2) [OF p plain, of random] by (auto simp: config_keys)
  obtain s where built: "construct_producer A random p (producer_default w) = (Inr (), s)"
    and s: "enableManualEventsPoll s" "sent (world s) = []"
    using construct_producer_state [OF q(1,2) assms(3,2), of w] q(3) assms(6) by auto
  obtain r t vt where block: "retry_writing A fuel topic (reading_all content fuel) (s, v) = (r, (t, vt))" by (metis prod.collapse)
  note sends = retry_writing_sends [OF assms(1,4,5) s assms(7) block]
  have producing: "quiet_producing A M sent" using assms(1) by (simp add: logs_sends_def)
  have "in_scope (\<lambda>_. False) (on_client (construct_producer A random p)) (retry_writing A fuel topic (reading_all content fuel))
      (on_client (destroy_producer A)) (producer_default w, v) = (x, (s', v'))"
    using assms(8) by (simp add: manual_poll_main_def p)
  then show ?thesis
  proof (cases rule: in_scope_cases)
    case (no_client e)
    then show ?thesis by (simp add: built)
  next
    case (stopped s1 e)
    from stopped(1) have "s1 = (s, v)" by (simp add: built)
    then show ?thesis using sends stopped(2,4) block by auto
  next
    case (left s1 r' s2)
    from left(1) have "s1 = (s, v)" by (simp add: built)
    then have r': "r' = r" "s2 = (t, vt)" using left(2) block by simp_all
    then have "s' = snd (destroy_producer A t)" using left(3) by simp
    moreover have "x = Finished () \<longrightarrow> r = Inr ()" using left(5) r'(1) by (auto split: sum.splits)
    ultimately show ?thesis using sends destroy_producer_obs [OF producing, of t] by auto
  qed
qed

lemma opaque_in_vus: "vus_opaque vus = Some opq \<Longrightarrow> VTYPE_OPAQUE opq \<in> set vus"
proof (induction vus)
  case (Cons vu vus)
  then show ?case by (cases vu) (auto simp: vus_opaque_def)
qed (simp add: vus_opaque_def)

definition two_typed_lines :: "unit outcome \<times> rd_kafka_vu_t list list producer \<times> retry_vars" where
  \<comment> \<open>the example given two lines and an empty one\<close>
  "two_typed_lines = manual_poll_main writing_api 9 ''id'' (''hello'' @ [newline] @ ''world'' @ [newline, newline])
     ''b'' ''t'' (producer_default [], retry_start)"

lemma two_typed_lines_run:
  "(case fst two_typed_lines of Finished _ \<Rightarrow> True | _ \<Rightarrow> False) \<and> length (world (fst (snd two_typed_lines))) = 2"
  by code_simp

theorem manual_poll_example_sends_one_value_witness:
  "fst two_typed_lines = Finished () \<and> world (fst (snd two_typed_lines)) =
    replicate 2 (line_vus writing_api True (User_callback (Some 0)) NoCopyRecordValue ''t'' [])"
proof -
  let ?input = "''hello'' @ [newline] @ ''world'' @ [newline, newline]"
  have lines: "lines_of ?input = [''hello'', ''world'', []]"
    by (simp add: newline_def lines_of.simps)
  have reports: "reports_sent writing_api (\<lambda>w. w)"
    by (auto simp: reports_sent_def writing_defs) (metis opaque_in_vus last_in_set)
  have "manual_poll_main writing_api 9 ''id'' ?input ''b'' ''t'' (producer_default [], retry_start) =
      (fst two_typed_lines, (fst (snd two_typed_lines), snd (snd two_typed_lines)))"
    by (simp add: two_typed_lines_def)
  from manual_poll_example_sends_one_value [OF writing_logs writing_takes(2) writing_takes(1) reports _ _ _ this]
  obtain k where "world (fst (snd two_typed_lines)) =
      replicate k (line_vus writing_api True (User_callback (Some 0)) NoCopyRecordValue ''t'' [])"
    by (auto simp: lines left_string_def retry_start_def simp del: append.simps)
  then show ?thesis using two_typed_lines_run by (auto split: outcome.splits)
qed

end
