(* ===== verification/Spec2Isabelle.thy ===== *)
theory Spec2Isabelle
  imports Offset_Queue Consumer_Loops Recoverable_Producer Admin_Client Kafka_Metrics Log_Buffer Performance_Tests Console_Clients Example_Consumers_Correct Example_Producers_Correct
begin

text \<open>
  A verification library for the C++ client library in \<open>include/kafka\<close>, which wraps librdkafka, for the
  command line tools in \<open>tools/console_clients\<close> and the programs in \<open>examples\<close>. Definitions carry the names of the functions and types they
  model; a name that would clash has a prefix or suffix (\<open>close_producer\<close>, \<open>consumer_assign\<close>).

  \<^bold>\<open>The program.\<close> A client (\<open>KafkaClient.h\<close>) is built from a map of typed properties (\<open>Properties.h\<close>): its
  constructor validates them, registers callbacks with librdkafka and opens a handle. The consumer
  (\<open>KafkaConsumer.h\<close>), the producer (\<open>KafkaProducer.h\<close>) and the administrative client (\<open>AdminClient.h\<close>)
  derive from it. Calls translate the containers of the interface into lists of librdkafka and back
  (\<open>Types.h\<close>, \<open>RdKafkaHelper.h\<close>); errors come back as \<open>Error\<close> objects and leave as exceptions. Polling serves
  the callbacks: delivery reports of the producer, rebalances and commit results of the consumer. Add-ons:
  a queue that finds the offset that is safe to commit, a producer that replaces itself after a fatal error,
  queries over the statistics.

  \<^bold>\<open>Theories.\<close>
  \<^item> \<open>Prelude\<close>: the state-and-exception programs \<open>prog\<close> with \<open>seqM\<close>, \<open>catchM\<close>, Hoare triples, preservation of an
    invariant, loops with fuel (locale \<open>fuel_loop\<close>, \<open>settles\<close>) and integer casts. \<open>Ordered_Containers\<close>:
    \<open>std::map\<close> and \<open>std::set\<close> as sorted lists. \<open>Std_Strings\<close>: \<open>std::to_string\<close>, \<open>std::stoi\<close>, \<open>std::stoull\<close>, joining.
    \<open>Doubles\<close>: \<open>double\<close> as IEEE binary64, rounded to nearest even, its conversions and its fixed notation.
  \<^item> \<open>Min_Heap\<close>, \<open>Offset_Queue\<close> (\<open>addons/UnorderedOffsetCommitQueue.h\<close>): the array heap with its sifts as a
    provider of the interface \<open>min_queue\<close>, the queue as its client; the refinement to multisets and to the
    history of received and acknowledged offsets.
  \<^item> \<open>Errors\<close> (\<open>Error.h\<close>, \<open>KafkaException.h\<close>), \<open>Kafka_Types\<close> (\<open>Types.h\<close>, \<open>Header.h\<close>, \<open>Timestamp.h\<close>,
    \<open>RdKafkaHelper.h\<close>), \<open>Records\<close> (\<open>ConsumerRecord.h\<close>, \<open>ProducerRecord.h\<close>, \<open>ProducerCommon.h\<close>),
    \<open>Client_Properties\<close> (\<open>Properties.h\<close> and the configuration headers), \<open>Log_Buffer\<close> (\<open>Log.h\<close>),
    \<open>Broker_Metadata\<close> (\<open>BrokerMetadata.h\<close>): the data, with round trips, typing, printing and bounds.
  \<^item> \<open>Kafka_Client\<close>: the state \<open>client\<close>, the interface \<open>client_api\<close> to librdkafka, construction, callbacks,
    interceptors, polling; the constructor is safe.
  \<^item> \<open>Kafka_Consumer\<close>: the state \<open>consumer\<close> and every operation; \<open>Consumer_Correctness\<close>: reachable states, the
    invariant, the assignment as a mirror of the library's, rebalancing, automatic commits;
    \<open>Consumer_Loops\<close>: the waiting loops of \<open>subscribe\<close>, \<open>unsubscribe\<close> and \<open>seek\<close>, validation.
  \<^item> \<open>Kafka_Producer\<close>, \<open>Producer_Correctness\<close>: sending, delivery reports, \<open>syncSend\<close>, closing, transactions,
    validation. \<open>Recoverable_Producer\<close> (\<open>addons/KafkaRecoverableProducer.h\<close>): the polling thread interleaved
    with the user's calls as the step relation \<open>rp_step\<close>.
  \<^item> \<open>Admin_Client\<close>: requests, the wait for their response, the errors they report.
  \<^item> \<open>Kafka_Metrics\<close> (\<open>addons/KafkaMetrics.h\<close>): queries with wildcards over a JSON tree.
  \<^item> \<open>Utility\<close> (\<open>Utility.h\<close>, \<open>Project.h\<close>): local times, random strings, the version.
  \<^item> \<open>Command_Line\<close>: the arguments of the tools and the whole of \<open>KafkaTopics\<close>; \<open>Performance_Tests\<close>: statistics of
    the performance tests and the step relation \<open>perf_step\<close> of their threads.
  \<^item> \<open>Program_Scopes\<close>: what programs share: a client as a local variable with its destructor (\<open>in_scope\<close>), streams,
    signals, the ways to end. \<open>Client_Setup\<close>: the constructors as seen by an observer of the library.
    \<open>Consumer_Programs\<close>, \<open>Producer_Programs\<close>: loops that poll and handle, loops that read lines and send, compared
    with what the library handed over, was asked to commit, was given. On them rest \<open>Console_Clients\<close> (the console
    consumer and producer), \<open>Example_Consumers\<close> and \<open>Example_Producers\<close> (every program of \<open>examples\<close>) with
    \<open>Example_Consumers_Correct\<close> and \<open>Example_Producers_Correct\<close>.

  \<^bold>\<open>Librdkafka.\<close> A record of functions over an abstract state \<open>'w\<close> (\<open>client_api\<close> and its extensions
  \<open>consumer_api\<close>, \<open>producer_api\<close>, \<open>admin_api\<close>, \<open>recoverable_api\<close>), held in the field \<open>world\<close>. A function that
  serves callbacks returns what it serves. What a theorem needs of the library is a named hypothesis:
  \<open>clock_advances\<close> and \<open>admin_clock_advances\<close> (a wait takes time), \<open>reports_outstanding\<close> (a purge or flush keeps a
  report for every message). For whole programs they say what an observer of the library sees: \<open>observes\<close> and
  \<open>covers\<close> (messages handed over and commits asked for are written down in order, and nothing else adds to
  them), \<open>logs_sends\<close> (the same of records sent), \<open>reports_sent\<close> (reports are for messages that were sent),
  \<open>accepts_commits\<close>, \<open>takes_clients\<close> and \<open>takes_consumers\<close> with \<open>quiet_setup\<close> (a sound configuration is accepted).
  Each is met by a concrete library in a witness.

  \<^bold>\<open>Conventions.\<close> A throw is \<open>Inl\<close> and keeps the state reached so far. \<open>Undefined_behaviour\<close> stands for what C++
  leaves undefined. The user's callbacks are handles whose calls are recorded in \<open>events\<close>; they do not call
  back into the client and do not throw. Offsets and the elements of configurations are unbounded integers
  where the code only compares and increments them; time-outs, levels and deadlines are cast as in the code
  (\<open>to_int32\<close>, \<open>deadline\<close>), with signed overflow taken as wrapping. Waiting loops have fuel; the theorems
  that they end show that from some amount of fuel on \<open>Out_of_fuel\<close> does not occur and the outcome no longer
  depends on the fuel.

  \<^bold>\<open>What the theorems show\<close> beside each component's correctness: places where the code does not do what it
  means to. A copied error forgets that the transaction must be aborted; an infinite time-out of
  \<open>subscribe\<close> expires at once; a refused automatic commit makes the next one skip a record; \<open>syncSend\<close> of a
  recoverable producer can deadlock with the recovery, and an invalid log level breaks it. Of the programs: the
  console consumer commits exactly what it printed; two examples commit messages they never looked at; the
  one that retries sends one string for all its lines; the one that waits for the ends of its partitions
  stops at once after an early revocation.

  \<^bold>\<open>Not modelled.\<close> The log lines of the clients (but \<open>doLog\<close> is); the formatting of times; the printed lines of
  the performance tests; the clock, the random generator and the conversion to local time, which are arguments; the data
  race on the fatal error of the recoverable producer below the grain of its steps; the throttling of the
  producer's performance test; C++ object lifetimes other than those of the clients; the tests.
\<close>

end
